(* ===== verification/SloopPrelude.thy ===== *)
theory SloopPrelude
  imports Main
    "HOL-Library.List_Lexorder"
    "HOL-Library.Char_ord"
    "HOL-Library.Sublist"
    "HOL-Library.AList"
    "HOL-Library.Multiset"
begin

text \<open>
  What every theory of the development shares: the value of a Go call (a result, an
  error or a panic), the error values the program builds and compares, and the generic
  lemmas on lexicographically ordered byte strings, sorted key lists and association
  lists that the storage layers use.

  A Go \<open>string\<close> or \<open>[]byte\<close> is a HOL \<open>string\<close>: a list of 8-bit characters, ordered
  byte by byte (\<open>List_Lexorder\<close> over \<open>Char_ord\<close>), as Go compares strings.
\<close>

section \<open>Results of Go calls\<close>

text \<open>
  The error values. \<open>ErrKeyNotFound\<close> and \<open>ErrReadOnlyTxn\<close> are badger's sentinel errors,
  which the code compares by identity; \<open>NumSyntax\<close> and \<open>NumRange\<close> are the two kinds of
  \<open>strconv.NumError\<close>; \<open>Errorf\<close> is \<open>fmt.Errorf\<close>; \<open>Wrapped\<close> is a cause with the message that
  \<open>errors.Wrap\<close> or \<open>errors.Wrapf\<close> put in front of it; \<open>LibError\<close> is an error that code
  outside the repository returns.
\<close>

datatype gerror =
    ErrKeyNotFound
  | ErrReadOnlyTxn
  | NumSyntax string
  | NumRange string
  | Errorf string
  | Wrapped gerror string
  | LibError string

text \<open>
  A call returns its value, returns a non-nil error, or panics. The last two are kept
  apart because the program often logs an error and goes on, which it never does with a
  panic.
\<close>

datatype (plugins del: size) 'a res = Ok 'a | Err gerror | Panic string

fun bind_res :: "'a res \<Rightarrow> ('a \<Rightarrow> 'b res) \<Rightarrow> 'b res" where
  "bind_res (Ok x) f = f x"
| "bind_res (Err e) f = Err e"
| "bind_res (Panic m) f = Panic m"

fun map_err :: "(gerror \<Rightarrow> gerror) \<Rightarrow> 'a res \<Rightarrow> 'a res" where
  "map_err h (Ok x) = Ok x"
| "map_err h (Err e) = Err (h e)"
| "map_err h (Panic m) = Panic m"

fun is_ok :: "'a res \<Rightarrow> bool" where
  "is_ok (Ok x) = True"
| "is_ok (Err e) = False"
| "is_ok (Panic m) = False"

text \<open>
  \<open>errors.Wrap(err, msg)\<close> of \<open>github.com/pkg/errors\<close> on an error variable, which may hold
  nil: its documentation says that it returns nil when the error is nil.
\<close>

fun wrap_nilable :: "gerror option \<Rightarrow> string \<Rightarrow> gerror option" where
  "wrap_nilable None m = None"
| "wrap_nilable (Some e) m = Some (Wrapped e m)"

lemma bind_res_Ok_iff: "bind_res r f = Ok y \<longleftrightarrow> (\<exists>x. r = Ok x \<and> f x = Ok y)"
  by (cases r) auto

lemma bind_res_Panic_iff:
  "bind_res r f = Panic m \<longleftrightarrow> r = Panic m \<or> (\<exists>x. r = Ok x \<and> f x = Panic m)"
  by (cases r) auto

lemma map_err_Ok_iff [simp]: "map_err h r = Ok x \<longleftrightarrow> r = Ok x"
  by (cases r) auto

lemma map_err_Panic_iff [simp]: "map_err h r = Panic m \<longleftrightarrow> r = Panic m"
  by (cases r) auto

lemma bind_res_assoc: "bind_res (bind_res r f) g = bind_res r (\<lambda>x. bind_res (f x) g)"
  by (cases r) auto

section \<open>Collections of facts\<close>

text \<open>
  \<open>go_defs\<close> holds the defining equations of the small pure helpers that proofs and
  witnesses unfold; \<open>go_eval\<close> holds equations that evaluate library functions on literals;
  \<open>store_laws\<close> holds the laws of the storage interface.
\<close>

named_theorems go_defs "definitions of small helpers"
named_theorems go_eval "evaluation of library functions on literals"
named_theorems store_laws "laws of the storage interface"

section \<open>Prefixes in the lexicographic order\<close>

lemma prefix_le_lex:
  fixes p :: "'a::linorder list"
  shows "prefix p s \<Longrightarrow> p \<le> s"
  by (induction p arbitrary: s) (auto simp: prefix_def)

text \<open>
  Everything between \<open>p\<close> and \<open>p @ x\<close> starts with \<open>p\<close>: the reason why seeking to a prefix
  finds the first key with that prefix.
\<close>

lemma between_prefix:
  fixes p :: "'a::linorder list"
  assumes "p \<le> s" and "s \<le> p @ x"
  shows "prefix p s"
  using assms
proof (induction p arbitrary: s)
  case Nil
  then show ?case by simp
next
  case (Cons a p)
  then show ?case by (cases s) auto
qed

lemma prefix_less_append:
  fixes p :: "'a::linorder list"
  shows "p @ xs < p @ ys \<longleftrightarrow> xs < ys"
  by (induction p) auto

lemma prefix_le_append:
  fixes p :: "'a::linorder list"
  shows "p @ xs \<le> p @ ys \<longleftrightarrow> xs \<le> ys"
  by (induction p) auto

lemma not_prefix_less_mono:
  fixes p :: "'a::linorder list"
  assumes "s < p" "\<not> prefix p s" "prefix p t"
  shows "s < t"
  using assms prefix_le_lex[of p t] by (meson less_le_trans)

section \<open>Sorted key lists\<close>

lemma dropWhile_less_sorted:
  "sorted xs \<Longrightarrow> dropWhile (\<lambda>x. x < k) xs = filter (\<lambda>x. k \<le> x) xs"
proof (induction xs)
  case (Cons a xs)
  then show ?case by (auto simp: not_less intro!: filter_True[symmetric])
qed simp

lemma takeWhile_eq_filter:
  "sorted_wrt (\<lambda>a b. P b \<longrightarrow> P a) xs \<Longrightarrow> takeWhile P xs = filter P xs"
  by (induction xs) (auto simp: filter_empty_conv)

lemma takeWhile_True [simp]: "takeWhile (\<lambda>x. True) xs = xs"
  by (simp add: takeWhile_eq_all_conv)

lemma takeWhile_Cons_D: "takeWhile P xs = y # ys \<Longrightarrow> \<exists>zs. xs = y # zs \<and> P y"
  by (cases xs) (auto split: if_splits)

lemma takeWhile_Nil_D: "takeWhile P xs = [] \<Longrightarrow> xs = [] \<or> (\<exists>z zs. xs = z # zs \<and> \<not> P z)"
  by (cases xs) (auto split: if_splits)

lemma sort_distinct: "distinct xs \<Longrightarrow> sort xs = sorted_list_of_set (set xs)"
  by (simp add: sorted_list_of_set_sort_remdups distinct_remdups_id)

lemma sort_rev_sorted: "sorted ys \<Longrightarrow> sort (rev ys) = ys"
  for ys :: "'a::linorder list"
  by (metis mset_rev properties_for_sort)

text \<open>
  In a sorted key list the keys with a prefix follow each other: forwards from the prefix,
  backwards from any extension of it.
\<close>

lemma takeWhile_prefix_sorted:
  fixes xs :: "'a::linorder list list"
  assumes "sorted xs"
  shows "takeWhile (prefix p) (filter (\<lambda>x. p \<le> x) xs) = filter (prefix p) xs"
proof -
  have "sorted_wrt (\<lambda>a b. prefix p b \<longrightarrow> prefix p a) (filter (\<lambda>x. p \<le> x) xs)"
    using sorted_wrt_filter[OF assms, of "\<lambda>x. p \<le> x"]
    by (rule sorted_wrt_mono_rel[rotated]) (auto simp: prefix_def dest: between_prefix)
  then have "takeWhile (prefix p) (filter (\<lambda>x. p \<le> x) xs)
      = filter (\<lambda>x. p \<le> x \<and> prefix p x) xs"
    by (simp add: takeWhile_eq_filter conj_commute)
  also have "\<dots> = filter (prefix p) xs"
    by (rule filter_cong) (auto dest: prefix_le_lex)
  finally show ?thesis .
qed

lemma takeWhile_prefix_rev:
  fixes xs :: "'a::linorder list list"
  assumes "sorted xs"
  shows "takeWhile (prefix p) (rev (filter (\<lambda>x. x < p @ e) xs))
    = rev (filter (\<lambda>x. prefix p x \<and> x < p @ e) xs)"
proof -
  let ?ys = "filter (\<lambda>x. x < p @ e) xs"
  have "sorted_wrt (\<lambda>a b. prefix p a \<longrightarrow> prefix p b) ?ys"
    using sorted_wrt_filter[OF assms, of "\<lambda>x. x < p @ e"]
  proof (rule sorted_wrt_mono_rel[rotated])
    fix a b assume "b \<in> set ?ys" "a \<le> b"
    then show "prefix p a \<longrightarrow> prefix p b"
      using prefix_le_lex[of p a] between_prefix[of p b e] by auto
  qed
  then have "takeWhile (prefix p) (rev ?ys) = filter (prefix p) (rev ?ys)"
    by (intro takeWhile_eq_filter) (simp add: sorted_wrt_rev)
  then show ?thesis by (simp add: rev_filter[symmetric] conj_commute)
qed

lemma sorted_filter_hd_le:
  "sorted xs \<Longrightarrow> x \<in> set xs \<Longrightarrow> P x \<Longrightarrow> hd (filter P xs) \<le> x"
  by (induction xs) auto

lemma sorted_last_filter_ge:
  "sorted xs \<Longrightarrow> x \<in> set xs \<Longrightarrow> P x \<Longrightarrow> x \<le> last (filter P xs)"
proof (induction xs rule: rev_induct)
  case (snoc a xs)
  then show ?case by (auto simp: sorted_append)
qed simp

lemma subseq_set: "subseq xs ys \<Longrightarrow> set xs \<subseteq> set ys"
  by (induction rule: list_emb.induct) auto

lemma subseq_sorted:
  fixes ys :: "'a::linorder list"
  shows "subseq xs ys \<Longrightarrow> sorted ys \<Longrightarrow> sorted xs"
  by (induction rule: list_emb.induct) (auto dest: subseq_set)

section \<open>Association lists as Go maps\<close>

lemma map_of_AList_update: "map_of (AList.update k v m) = (map_of m)(k \<mapsto> v)"
  by (rule update_conv')

lemma map_of_AList_delete: "map_of (AList.delete k m) = (map_of m)(k := None)"
  by (simp add: delete_conv')

lemma distinct_fst_filter: "distinct (map fst m) \<Longrightarrow> distinct (map fst (filter P m))"
  by (induction m) auto

lemma map_of_filter_key:
  "map_of (filter (\<lambda>kv. P (fst kv)) m) k = (if P k then map_of m k else None)"
  by (induction m) auto

end
