(* ===== verification/Badgerwrap.thy ===== *)
theory Badgerwrap
  imports SloopPrelude
begin

text \<open>
  \<open>pkg/sloop/store/untyped/badgerwrap\<close>: the interface through which the program reaches its
  key-value store (\<open>api.go\<close>), the wrapper of the real database (\<open>badger.go\<close>) and the in-memory
  store (\<open>mock.go\<close>). A Go interface value is a table of methods, so the interface is the record
  \<open>badger\<close> of operations over a database, a transaction and an iterator type, and every client
  of the store takes such a record. The contract that the clients rely on is the locale
  \<open>badger_store\<close>; the mock satisfies it, which the interpretation \<open>mock\<close> shows.
\<close>

section \<open>The interface\<close>

text \<open>
  Of \<open>badger.IteratorOptions\<close>, the options that change what an iterator yields
  (\<open>PrefetchValues\<close> only tunes it). An item is the pair of key and value that \<open>Item()\<close> returns.
\<close>

record iter_opts =
  opt_Prefix :: string
  opt_Reverse :: bool
  opt_InternalAccess :: bool
  opt_AllVersions :: bool

record store_item =
  item_key :: string
  item_value :: string

text \<open>
  \<open>Update\<close> and \<open>View\<close> take a function on a transaction. In the model they are the pair
  \<open>db_NewTxn\<close> (the transaction handed to the function, with its read-only flag) and
  \<open>db_EndTxn\<close> (given whether the function returned no error: the error of the commit, if any,
  and the database afterwards).
\<close>

record ('db, 'txn, 'it) badger =
  db_NewTxn :: "'db \<Rightarrow> bool \<Rightarrow> 'txn"
  db_EndTxn :: "'db \<Rightarrow> 'txn \<Rightarrow> bool \<Rightarrow> gerror option \<times> 'db"
  db_DropPrefix :: "'db \<Rightarrow> string \<Rightarrow> gerror option \<times> 'db"
  tx_Get :: "'txn \<Rightarrow> string \<Rightarrow> store_item res"
  tx_Set :: "'txn \<Rightarrow> string \<Rightarrow> string \<Rightarrow> gerror option \<times> 'txn"
  tx_Delete :: "'txn \<Rightarrow> string \<Rightarrow> gerror option \<times> 'txn"
  tx_NewIterator :: "'txn \<Rightarrow> iter_opts \<Rightarrow> 'it"
  im_ValueCopy :: "store_item \<Rightarrow> string res"
  it_Item :: "'it \<Rightarrow> store_item option"
  it_Next :: "'it \<Rightarrow> 'it"
  it_Seek :: "'it \<Rightarrow> string \<Rightarrow> 'it"
  it_Valid :: "'it \<Rightarrow> bool"
  it_ValidForPrefix :: "'it \<Rightarrow> string \<Rightarrow> bool"
  it_Rewind :: "'it \<Rightarrow> 'it"

definition DefaultIteratorOptions :: iter_opts where
  [go_defs]: "DefaultIteratorOptions =
    \<lparr>opt_Prefix = [], opt_Reverse = False, opt_InternalAccess = False, opt_AllVersions = False\<rparr>"

text \<open>\<open>db.Update(fn)\<close> and \<open>db.View(fn)\<close>: run a function in a transaction of the database.\<close>

definition db_Update ::
  "('db, 'txn, 'it) badger \<Rightarrow> 'db \<Rightarrow> ('txn \<Rightarrow> 'a res \<times> 'txn) \<Rightarrow> 'a res \<times> 'db" where
  "db_Update B db fn =
    (let (r, txn) = fn (db_NewTxn B db False);
         (commitErr, db') = db_EndTxn B db txn (is_ok r)
     in (case (r, commitErr) of (Ok x, Some e) \<Rightarrow> Err e | _ \<Rightarrow> r, db'))"

definition db_View :: "('db, 'txn, 'it) badger \<Rightarrow> 'db \<Rightarrow> ('txn \<Rightarrow> 'a) \<Rightarrow> 'a" where
  "db_View B db fn = fn (db_NewTxn B db True)"

section \<open>Loops over an iterator\<close>

text \<open>
  The program's loops are all of the form \<open>for ...; guard; it.Next() { body }\<close>. The body
  continues, breaks or returns from the enclosing function. The loop over an arbitrary
  implementation of the interface may not end: then its value is \<open>None\<close>.
\<close>

datatype ('s, 'r) flow = Continue 's | Break 's | Return 'r

partial_function (option) iter_loop ::
  "('it \<Rightarrow> bool) \<Rightarrow> ('it \<Rightarrow> 'it) \<Rightarrow> ('it \<Rightarrow> 's \<Rightarrow> ('s, 'r) flow) \<Rightarrow> 'it \<Rightarrow> 's \<Rightarrow> ('s + 'r) option" where
  "iter_loop guard nxt body it s =
    (if guard it then
       (case body it s of
          Continue s' \<Rightarrow> iter_loop guard nxt body (nxt it) s'
        | Break s' \<Rightarrow> Some (Inl s')
        | Return r \<Rightarrow> Some (Inr r))
     else Some (Inl s))"

text \<open>The same loop over the list of items the iterator yields.\<close>

fun list_loop :: "('x \<Rightarrow> 's \<Rightarrow> ('s, 'r) flow) \<Rightarrow> 'x list \<Rightarrow> 's \<Rightarrow> 's + 'r" where
  "list_loop f [] s = Inl s"
| "list_loop f (x # xs) s =
     (case f x s of Continue s' \<Rightarrow> list_loop f xs s' | Break s' \<Rightarrow> Inl s' | Return r \<Rightarrow> Inr r)"

lemma list_loop_fold: "list_loop (\<lambda>x s. Continue (g x s)) xs s = Inl (fold g xs s)"
  by (induction xs arbitrary: s) auto

text \<open>A loop body that reads the current item: the item of an exhausted iterator is nil.\<close>

definition on_item ::
  "('db, 'txn, 'it) badger \<Rightarrow> (store_item \<Rightarrow> 's \<Rightarrow> ('s, 'a res) flow) \<Rightarrow> 'it \<Rightarrow> 's \<Rightarrow> ('s, 'a res) flow" where
  "on_item B f it s =
    (case it_Item B it of None \<Rightarrow> Return (Panic ''nil item'') | Some item \<Rightarrow> f item s)"

section \<open>The contract\<close>

text \<open>The items of a store in key order, and the part of an iteration within the iterator's prefix.\<close>

definition items_of :: "(string \<rightharpoonup> string) \<Rightarrow> (string \<times> string) list" where
  "items_of m = map (\<lambda>k. (k, the (m k))) (sorted_list_of_set (dom m))"

definition in_run :: "iter_opts \<Rightarrow> (string \<times> string) list \<Rightarrow> (string \<times> string) list" where
  "in_run o1 xs = takeWhile (\<lambda>kv. prefix (opt_Prefix o1) (fst kv)) xs"

definition plain_opts :: "iter_opts \<Rightarrow> bool" where
  "plain_opts o1 \<longleftrightarrow> \<not> opt_InternalAccess o1 \<and> \<not> opt_AllVersions o1"

text \<open>
  What the clients rely on, stated so that badger's documented behaviour and the mock's
  both meet it. A store is a finite map from keys to values. Inside a transaction reads see
  the transaction's own writes. A committed transaction's writes are the database's. A
  forward iterator seeks to the first key not below the argument, a reverse one to the last
  key below it (where the two implementations differ, on a reverse seek to a present key,
  nothing is promised), and nothing is promised once the iteration has left the iterator's
  prefix. Badger's rewind goes to the iterator's prefix and the mock's to the first key: the law
  covers the case where these are the same, when the keys with the prefix come first.
  \<open>ahead\<close> is what an iterator still has to yield.
\<close>

locale badger_store =
  fixes B :: "('db, 'txn, 'it) badger"
    and dview :: "'db \<Rightarrow> (string \<rightharpoonup> string)"
    and dok :: "'db \<Rightarrow> bool"
    and tview :: "'txn \<Rightarrow> (string \<rightharpoonup> string)"
    and tok :: "'txn \<Rightarrow> bool"
    and writable :: "'txn \<Rightarrow> bool"
    and ahead :: "'it \<Rightarrow> (string \<times> string) list"
    and iopts :: "'it \<Rightarrow> iter_opts"
  assumes newtxn: "dok d \<Longrightarrow> tok (db_NewTxn B d ro) \<and> tview (db_NewTxn B d ro) = dview d
        \<and> writable (db_NewTxn B d ro) = (\<not> ro)"
    and commit: "dok d \<Longrightarrow> tok t \<Longrightarrow> writable t \<Longrightarrow> db_EndTxn B d t True = (err, d') \<Longrightarrow>
        dok d' \<and> (if err = None then dview d' = tview t else dview d' = dview d)"
    and abort: "dok d \<Longrightarrow> tok t \<Longrightarrow> writable t \<Longrightarrow> db_EndTxn B d t False = (err, d') \<Longrightarrow>
        dok d' \<and> dview d' \<in> {dview d, tview t}"
    and finite_view: "tok t \<Longrightarrow> finite (dom (tview t))"
    and get: "tok t \<Longrightarrow> tx_Get B t k =
        (case tview t k of None \<Rightarrow> Err ErrKeyNotFound
         | Some v \<Rightarrow> Ok \<lparr>item_key = k, item_value = v\<rparr>)"
    and valuecopy: "im_ValueCopy B im = Ok (item_value im)"
    and set: "tok t \<Longrightarrow> writable t \<Longrightarrow> k \<noteq> [] \<Longrightarrow>
        \<exists>t'. tx_Set B t k v = (None, t') \<and> tok t' \<and> writable t' \<and> tview t' = (tview t)(k \<mapsto> v)"
    and delete: "tok t \<Longrightarrow> writable t \<Longrightarrow> k \<noteq> [] \<Longrightarrow>
        \<exists>t'. tx_Delete B t k = (None, t') \<and> tok t' \<and> writable t' \<and> tview t' = (tview t)(k := None)"
    and drop: "dok d \<Longrightarrow> p \<noteq> [] \<Longrightarrow>
        \<exists>d'. db_DropPrefix B d p = (None, d') \<and> dok d'
          \<and> dview d' = (\<lambda>k. if prefix p k then None else dview d k)"
    and newiter: "iopts (tx_NewIterator B t o1) = o1"
    and seek_opts: "iopts (it_Seek B i k) = iopts i"
    and rewind_opts: "iopts (it_Rewind B i) = iopts i"
    and next_opts: "iopts (it_Next B i) = iopts i"
    and seek_fwd: "tok t \<Longrightarrow> plain_opts o1 \<Longrightarrow> \<not> opt_Reverse o1 \<Longrightarrow>
        in_run o1 (ahead (it_Seek B (tx_NewIterator B t o1) k))
          = in_run o1 (filter (\<lambda>kv. k \<le> fst kv) (items_of (tview t)))"
    and seek_rev: "tok t \<Longrightarrow> plain_opts o1 \<Longrightarrow> opt_Reverse o1 \<Longrightarrow> k \<notin> dom (tview t) \<Longrightarrow>
        in_run o1 (ahead (it_Seek B (tx_NewIterator B t o1) k))
          = in_run o1 (rev (filter (\<lambda>kv. fst kv < k) (items_of (tview t))))"
    and rewind: "tok t \<Longrightarrow> plain_opts o1 \<Longrightarrow> \<not> opt_Reverse o1 \<Longrightarrow>
        in_run o1 (items_of (tview t)) = filter (\<lambda>kv. prefix (opt_Prefix o1) (fst kv)) (items_of (tview t)) \<Longrightarrow>
        in_run o1 (ahead (it_Rewind B (tx_NewIterator B t o1))) = in_run o1 (items_of (tview t))"
    and nxt: "ahead (it_Next B i) = tl (ahead i)"
    and valid_nil: "ahead i = [] \<Longrightarrow> \<not> it_Valid B i"
    and valid_hd: "ahead i = kv # r \<Longrightarrow> prefix (opt_Prefix (iopts i)) (fst kv) \<Longrightarrow> it_Valid B i"
    and valid_prefix: "prefix (opt_Prefix (iopts i)) p \<Longrightarrow>
        it_ValidForPrefix B i p = (case ahead i of [] \<Rightarrow> False | kv # r \<Rightarrow> prefix p (fst kv))"
    and item: "ahead i = (k, v) # r \<Longrightarrow> it_Item B i = Some \<lparr>item_key = k, item_value = v\<rparr>"

lemma items_of_keys: "map fst (items_of m) = sorted_list_of_set (dom m)"
  by (simp add: items_of_def comp_def)

lemma items_of_set: "finite (dom m) \<Longrightarrow> (k, v) \<in> set (items_of m) \<longleftrightarrow> m k = Some v"
  by (auto simp: items_of_def image_iff)

lemma items_of_filter:
  "filter (\<lambda>kv. P (fst kv)) (items_of m) = map (\<lambda>k. (k, the (m k))) (filter P (sorted_list_of_set (dom m)))"
  by (simp add: items_of_def filter_map comp_def)

lemma items_of_restrict:
  assumes "finite (dom m)"
  shows "items_of (\<lambda>k. if P k then m k else None) = filter (\<lambda>kv. P (fst kv)) (items_of m)"
proof -
  have "dom (\<lambda>k. if P k then m k else None) = Set.filter P (dom m)"
    by (auto simp: domIff split: if_splits)
  then have "sorted_list_of_set (dom (\<lambda>k. if P k then m k else None))
      = filter P (sorted_list_of_set (dom m))"
    using assms by (intro sorted_distinct_set_unique) (auto simp: sorted_wrt_filter)
  then show ?thesis by (auto simp: items_of_def filter_map comp_def intro!: map_cong)
qed

lemma prefix_run_items:
  "takeWhile (\<lambda>kv. prefix p (fst kv)) (filter (\<lambda>kv. p \<le> fst kv) (items_of m))
     = filter (\<lambda>kv. prefix p (fst kv)) (items_of m)"
  using takeWhile_prefix_sorted[of "sorted_list_of_set (dom m)" p]
  by (simp add: items_of_filter[of "\<lambda>x. p \<le> x"] items_of_filter[of "prefix p"] takeWhile_map comp_def)

lemma on_item_some: "it_Item B it = Some i \<Longrightarrow> on_item B f it s = f i s"
  by (simp add: on_item_def)

section \<open>What follows from the contract\<close>

context badger_store
begin

text \<open>
  A loop whose guard looks at the current key only is the loop over the items it lets through.
\<close>

lemma guarded_loop:
  assumes "\<And>i. iopts i = o1 \<Longrightarrow> G i = (case ahead i of [] \<Rightarrow> False | kv # r \<Rightarrow> P (fst kv))"
    and "iopts i = o1"
  shows "iter_loop G (it_Next B) (on_item B f) i s
    = Some (list_loop (\<lambda>kv. f \<lparr>item_key = fst kv, item_value = snd kv\<rparr>)
        (takeWhile (\<lambda>kv. P (fst kv)) (ahead i)) s)"
  using assms(2)
proof (induction "ahead i" arbitrary: i s)
  case Nil
  then have "\<not> G i" by (simp add: assms(1) split: list.splits)
  then show ?case using Nil.hyps[symmetric] by (subst iter_loop.simps) simp
next
  case (Cons kv r)
  obtain k v where kv: "kv = (k, v)" by (cases kv)
  have a: "ahead i = (k, v) # r" using Cons.hyps(2) kv by simp
  have g: "G i = P k" using a Cons.prems by (simp add: assms(1))
  have o: "on_item B f i s = f \<lparr>item_key = k, item_value = v\<rparr> s"
    using item[OF a] by (rule on_item_some)
  have IH: "iter_loop G (it_Next B) (on_item B f) (it_Next B i) s'
    = Some (list_loop (\<lambda>kv. f \<lparr>item_key = fst kv, item_value = snd kv\<rparr>)
        (takeWhile (\<lambda>kv. P (fst kv)) r) s')" for s'
    using Cons.hyps(1)[of "it_Next B i" s'] a Cons.prems by (simp add: nxt next_opts)
  show ?case
    by (subst iter_loop.simps) (simp add: a g o IH split: flow.split)
qed

lemma prefix_loop:
  assumes "prefix (opt_Prefix (iopts i)) p"
  shows "iter_loop (\<lambda>i. it_ValidForPrefix B i p) (it_Next B) (on_item B f) i s
    = Some (list_loop (\<lambda>kv. f \<lparr>item_key = fst kv, item_value = snd kv\<rparr>)
        (takeWhile (\<lambda>kv. prefix p (fst kv)) (ahead i)) s)"
  using assms by (intro guarded_loop[of "iopts i"]) (simp_all add: valid_prefix)

lemma valid_loop:
  assumes "opt_Prefix (iopts i) = []"
  shows "iter_loop (it_Valid B) (it_Next B) (on_item B f) i s
    = Some (list_loop (\<lambda>kv. f \<lparr>item_key = fst kv, item_value = snd kv\<rparr>) (ahead i) s)"
proof -
  have "it_Valid B j = (case ahead j of [] \<Rightarrow> False | kv # r \<Rightarrow> True)" if "iopts j = iopts i" for j
    using assms that valid_nil[of j] valid_hd[of j] by (auto split: list.splits)
  from guarded_loop[of "iopts i" "it_Valid B" "\<lambda>_. True", OF this refl] show ?thesis by simp
qed

text \<open>Scanning a prefix visits exactly the keys with that prefix, in order.\<close>

lemma scan_prefix:
  assumes "tok t" "plain_opts o1" "\<not> opt_Reverse o1" "opt_Prefix o1 = p"
  shows "iter_loop (\<lambda>i. it_ValidForPrefix B i p) (it_Next B) (on_item B f)
      (it_Seek B (tx_NewIterator B t o1) p) s
    = Some (list_loop (\<lambda>kv. f \<lparr>item_key = fst kv, item_value = snd kv\<rparr>)
        (filter (\<lambda>kv. prefix p (fst kv)) (items_of (tview t))) s)"
  using seek_fwd[OF assms(1-3), of p] assms(4)
  by (simp add: prefix_loop newiter seek_opts in_run_def prefix_run_items)

lemma scan_all:
  assumes "tok t" "plain_opts o1" "\<not> opt_Reverse o1" "opt_Prefix o1 = []"
  shows "iter_loop (it_Valid B) (it_Next B) (on_item B f) (it_Rewind B (tx_NewIterator B t o1)) s
    = Some (list_loop (\<lambda>kv. f \<lparr>item_key = fst kv, item_value = snd kv\<rparr>) (items_of (tview t)) s)"
  using rewind[OF assms(1-3)] assms(4)
  by (simp add: valid_loop newiter rewind_opts in_run_def)

text \<open>Rewinding an iterator with a prefix visits the keys with it, when they come first.\<close>

lemma scan_rewind_prefix:
  assumes "tok t" "plain_opts o1" "\<not> opt_Reverse o1" "opt_Prefix o1 = p"
    and "takeWhile (\<lambda>kv. prefix p (fst kv)) (items_of (tview t))
      = filter (\<lambda>kv. prefix p (fst kv)) (items_of (tview t))"
  shows "iter_loop (\<lambda>i. it_ValidForPrefix B i p) (it_Next B) (on_item B f)
      (it_Rewind B (tx_NewIterator B t o1)) s
    = Some (list_loop (\<lambda>kv. f \<lparr>item_key = fst kv, item_value = snd kv\<rparr>)
        (filter (\<lambda>kv. prefix p (fst kv)) (items_of (tview t))) s)"
  using rewind[OF assms(1-3)] assms(4,5)
  by (simp add: prefix_loop newiter rewind_opts in_run_def)

lemma head_of_run:
  assumes "takeWhile (\<lambda>kv. prefix p (fst kv)) (ahead i) = map (\<lambda>k. (k, g k)) ks"
    and "prefix (opt_Prefix (iopts i)) p"
  shows "it_ValidForPrefix B i p \<longleftrightarrow> ks \<noteq> []"
    and "ks \<noteq> [] \<Longrightarrow> it_Valid B i"
    and "ks = k # r \<Longrightarrow> it_Item B i = Some \<lparr>item_key = k, item_value = g k\<rparr>"
proof -
  have *: "ks = [] \<longleftrightarrow> (case ahead i of [] \<Rightarrow> True | kv # r \<Rightarrow> \<not> prefix p (fst kv))"
    "ks = k # r \<Longrightarrow> \<exists>zs. ahead i = (k, g k) # zs \<and> prefix p k" for k r
    using assms(1) by (auto dest!: takeWhile_Cons_D split: list.splits if_splits)
  show "it_ValidForPrefix B i p \<longleftrightarrow> ks \<noteq> []"
    using *(1) assms(2) by (auto simp: valid_prefix split: list.splits)
  show "ks \<noteq> [] \<Longrightarrow> it_Valid B i"
    using *(2) assms(2) valid_hd by (metis fst_conv neq_Nil_conv prefix_order.trans)
  show "ks = k # r \<Longrightarrow> it_Item B i = Some \<lparr>item_key = k, item_value = g k\<rparr>"
    using *(2) item by blast
qed

text \<open>The first key with a prefix.\<close>

lemma seek_first:
  assumes "tok t" "plain_opts o1" "\<not> opt_Reverse o1" "opt_Prefix o1 = p"
    and "filter (prefix p) (sorted_list_of_set (dom (tview t))) = ks"
  defines "i \<equiv> it_Seek B (tx_NewIterator B t o1) p"
  shows "it_ValidForPrefix B i p \<longleftrightarrow> ks \<noteq> []"
    and "ks = k # r \<Longrightarrow> it_Item B i = Some \<lparr>item_key = k, item_value = the (tview t k)\<rparr>"
proof -
  have "takeWhile (\<lambda>kv. prefix p (fst kv)) (ahead i) = map (\<lambda>k. (k, the (tview t k))) ks"
    using seek_fwd[OF assms(1-3), of p] assms(4,5)
    by (simp add: i_def in_run_def prefix_run_items items_of_filter[of "prefix p"])
  note run = this
  have pre: "prefix (opt_Prefix (iopts i)) p" by (simp add: i_def seek_opts newiter assms(4))
  show "it_ValidForPrefix B i p \<longleftrightarrow> ks \<noteq> []" by (rule head_of_run(1)[OF run pre])
  show "ks = k # r \<Longrightarrow> it_Item B i = Some \<lparr>item_key = k, item_value = the (tview t k)\<rparr>"
    by (rule head_of_run(3)[OF run pre])
qed

text \<open>The last key with a prefix, seeking backwards from an extension of the prefix.\<close>

lemma seek_last:
  assumes "tok t" "plain_opts o1" "opt_Reverse o1" "opt_Prefix o1 = p"
    and "p @ e \<notin> dom (tview t)"
    and "rev (filter (\<lambda>k. prefix p k \<and> k < p @ e) (sorted_list_of_set (dom (tview t)))) = ks"
  defines "i \<equiv> it_Seek B (tx_NewIterator B t o1) (p @ e)"
  shows "it_ValidForPrefix B i p \<longleftrightarrow> ks \<noteq> []"
    and "ks \<noteq> [] \<Longrightarrow> it_Valid B i"
    and "ks = k # r \<Longrightarrow> it_Item B i = Some \<lparr>item_key = k, item_value = the (tview t k)\<rparr>"
proof -
  have "takeWhile (\<lambda>kv. prefix p (fst kv)) (ahead i) = map (\<lambda>k. (k, the (tview t k))) ks"
    using seek_rev[OF assms(1-3,5)] assms(4,6)
      takeWhile_prefix_rev[of "sorted_list_of_set (dom (tview t))" p e]
    by (simp add: i_def in_run_def items_of_filter[of "\<lambda>k. k < p @ e"] rev_map takeWhile_map comp_def)
  note run = this
  have pre: "prefix (opt_Prefix (iopts i)) p" by (simp add: i_def seek_opts newiter assms(4))
  show "it_ValidForPrefix B i p \<longleftrightarrow> ks \<noteq> []" by (rule head_of_run(1)[OF run pre])
  show "ks \<noteq> [] \<Longrightarrow> it_Valid B i" by (rule head_of_run(2)[OF run pre])
  show "ks = k # r \<Longrightarrow> it_Item B i = Some \<lparr>item_key = k, item_value = the (tview t k)\<rparr>"
    by (rule head_of_run(3)[OF run pre])
qed

end

text \<open>
  A store without internal keys: an iterator with internal access, rewound, shows every key.
  Badger keeps internal keys of its own, so this is a contract of the mock only.
\<close>

locale badger_scan = badger_store B dview dok tview tok writable ahead iopts
  for B :: "('db, 'txn, 'it) badger" and dview dok tview tok writable and ahead :: "'it \<Rightarrow> (string \<times> string) list"
    and iopts +
  assumes rewind_all: "tok t \<Longrightarrow> \<not> opt_Reverse o1 \<Longrightarrow> opt_Prefix o1 = [] \<Longrightarrow>
    ahead (it_Rewind B (tx_NewIterator B t o1)) = items_of (tview t)"
begin

lemma scan_keys:
  assumes "tok t" "\<not> opt_Reverse o1" "opt_Prefix o1 = []"
  shows "iter_loop (\<lambda>i. it_ValidForPrefix B i p \<or> it_ValidForPrefix B i q) (it_Next B) (on_item B f)
      (it_Rewind B (tx_NewIterator B t o1)) s
    = Some (list_loop (\<lambda>kv. f \<lparr>item_key = fst kv, item_value = snd kv\<rparr>)
        (takeWhile (\<lambda>kv. prefix p (fst kv) \<or> prefix q (fst kv)) (items_of (tview t))) s)"
proof -
  let ?i = "it_Rewind B (tx_NewIterator B t o1)"
  have "(it_ValidForPrefix B j p \<or> it_ValidForPrefix B j q)
      = (case ahead j of [] \<Rightarrow> False | kv # r \<Rightarrow> prefix p (fst kv) \<or> prefix q (fst kv))"
    if "iopts j = o1" for j
    using that assms(3) by (simp add: valid_prefix split: list.splits)
  from guarded_loop[of o1 _ "\<lambda>k. prefix p k \<or> prefix q k" ?i, OF this]
  show ?thesis by (simp add: newiter rewind_opts rewind_all[OF assms])
qed

end

section \<open>The in-memory store\<close>

text \<open>
  \<open>MockDb.data\<close> is a Go map: an association list with distinct keys. A transaction holds the
  database it was opened on, so its writes take effect at once. An iterator holds a sorted
  snapshot of the keys and looks values up when it is asked for an item; its index is never
  negative. The lock is not modelled: one transaction runs at a time.
\<close>

record MockDb =
  mock_data :: "(string \<times> string) list"

record MockTxn =
  txn_readOnly :: bool
  txn_db :: MockDb

record MockIterator =
  mi_opt :: iter_opts
  mi_currentIdx :: nat
  mi_db :: MockDb
  mi_keys :: "string list"

definition mock_Open :: MockDb where
  "mock_Open = \<lparr>mock_data = []\<rparr>"

definition mock_NewTxn :: "MockDb \<Rightarrow> bool \<Rightarrow> MockTxn" where
  "mock_NewTxn b ro = \<lparr>txn_readOnly = ro, txn_db = b\<rparr>"

definition mock_EndTxn :: "MockDb \<Rightarrow> MockTxn \<Rightarrow> bool \<Rightarrow> gerror option \<times> MockDb" where
  "mock_EndTxn b txn noerr = (None, txn_db txn)"

definition mock_DropPrefix :: "MockDb \<Rightarrow> string \<Rightarrow> gerror option \<times> MockDb" where
  "mock_DropPrefix b pre =
    (None, b\<lparr>mock_data := filter (\<lambda>kv. \<not> prefix pre (fst kv)) (mock_data b)\<rparr>)"

text \<open>\<open>Size\<close> and \<open>Tables\<close>: the byte count (as the sizes add up, no overflow) and the key count.\<close>

definition mock_Size :: "MockDb \<Rightarrow> nat \<times> nat" where
  "mock_Size b = (sum_list (map (\<lambda>kv. length (fst kv) + length (snd kv)) (mock_data b)), 0)"

definition mock_Tables :: "MockDb \<Rightarrow> bool \<Rightarrow> nat list" where
  "mock_Tables b withKeysCount = [if withKeysCount then length (mock_data b) else 0]"

definition mock_Get :: "MockTxn \<Rightarrow> string \<Rightarrow> store_item res" where
  "mock_Get t key =
    (case map_of (mock_data (txn_db t)) key of
       None \<Rightarrow> Err ErrKeyNotFound
     | Some data \<Rightarrow> Ok \<lparr>item_key = key, item_value = data\<rparr>)"

definition mock_Set :: "MockTxn \<Rightarrow> string \<Rightarrow> string \<Rightarrow> gerror option \<times> MockTxn" where
  "mock_Set t key val =
    (if txn_readOnly t then (Some ErrReadOnlyTxn, t)
     else (None, t\<lparr>txn_db := (txn_db t)\<lparr>mock_data := AList.update key val (mock_data (txn_db t))\<rparr>\<rparr>))"

definition mock_Delete :: "MockTxn \<Rightarrow> string \<Rightarrow> gerror option \<times> MockTxn" where
  "mock_Delete t key =
    (if txn_readOnly t then (Some ErrReadOnlyTxn, t)
     else (None, t\<lparr>txn_db := (txn_db t)\<lparr>mock_data := AList.delete key (mock_data (txn_db t))\<rparr>\<rparr>))"

definition mock_NewIterator :: "MockTxn \<Rightarrow> iter_opts \<Rightarrow> MockIterator" where
  "mock_NewIterator t opt =
    (let keys = map fst (mock_data (txn_db t))
     in \<lparr>mi_opt = opt, mi_currentIdx = 0, mi_db = txn_db t,
         mi_keys = (if opt_Reverse opt then rev (sort keys) else sort keys)\<rparr>)"

text \<open>\<open>Item()\<close>: nil when the iterator is exhausted; a key that is no longer in the map has the nil value.\<close>

definition mock_Item :: "MockIterator \<Rightarrow> store_item option" where
  "mock_Item i =
    (if mi_currentIdx i < length (mi_keys i) then
       let thisKey = mi_keys i ! mi_currentIdx i;
           thisValue = (case map_of (mock_data (mi_db i)) thisKey of None \<Rightarrow> [] | Some v \<Rightarrow> v)
       in Some \<lparr>item_key = thisKey, item_value = thisValue\<rparr>
     else None)"

definition mock_Next :: "MockIterator \<Rightarrow> MockIterator" where
  "mock_Next i = i\<lparr>mi_currentIdx := mi_currentIdx i + 1\<rparr>"

text \<open>\<open>sort.SearchStrings\<close> on an ascending list: the first index whose element is not below the key.\<close>

definition SearchStrings :: "string list \<Rightarrow> string \<Rightarrow> nat" where
  "SearchStrings keys key = length (takeWhile (\<lambda>k. k < key) keys)"

definition mock_Seek :: "MockIterator \<Rightarrow> string \<Rightarrow> MockIterator" where
  "mock_Seek i key =
    (if \<not> opt_Reverse (mi_opt i) then i\<lparr>mi_currentIdx := SearchStrings (mi_keys i) key\<rparr>
     else let ascending = sort (mi_keys i)
          in i\<lparr>mi_currentIdx := length ascending - SearchStrings ascending key,
               mi_keys := rev (sort ascending)\<rparr>)"

definition mock_Valid :: "MockIterator \<Rightarrow> bool" where
  "mock_Valid i = (if mi_currentIdx i \<ge> length (mi_keys i) then False else True)"

definition mock_ValidForPrefix :: "MockIterator \<Rightarrow> string \<Rightarrow> bool" where
  "mock_ValidForPrefix i pre =
    (if \<not> mock_Valid i then False else prefix pre (mi_keys i ! mi_currentIdx i))"

definition mock_Rewind :: "MockIterator \<Rightarrow> MockIterator" where
  "mock_Rewind i = i\<lparr>mi_currentIdx := 0\<rparr>"

definition mock_ops :: "(MockDb, MockTxn, MockIterator) badger" where
  "mock_ops = \<lparr>db_NewTxn = mock_NewTxn, db_EndTxn = mock_EndTxn, db_DropPrefix = mock_DropPrefix,
     tx_Get = mock_Get, tx_Set = mock_Set, tx_Delete = mock_Delete, tx_NewIterator = mock_NewIterator,
     im_ValueCopy = (\<lambda>i. Ok (item_value i)), it_Item = mock_Item, it_Next = mock_Next,
     it_Seek = mock_Seek, it_Valid = mock_Valid, it_ValidForPrefix = mock_ValidForPrefix,
     it_Rewind = mock_Rewind\<rparr>"

lemmas mock_defs = mock_NewTxn_def mock_EndTxn_def mock_DropPrefix_def mock_Get_def mock_Set_def
  mock_Delete_def mock_NewIterator_def mock_Item_def mock_Next_def mock_Seek_def mock_Valid_def
  mock_ValidForPrefix_def mock_Rewind_def SearchStrings_def

section \<open>The mock meets the contract\<close>

definition mock_dview :: "MockDb \<Rightarrow> (string \<rightharpoonup> string)" where
  "mock_dview d = map_of (mock_data d)"

definition mock_dok :: "MockDb \<Rightarrow> bool" where
  "mock_dok d = distinct (map fst (mock_data d))"

definition mock_writable :: "MockTxn \<Rightarrow> bool" where
  "mock_writable t = (\<not> txn_readOnly t)"

definition mock_ahead :: "MockIterator \<Rightarrow> (string \<times> string) list" where
  "mock_ahead i = map (\<lambda>k. (k, case map_of (mock_data (mi_db i)) k of None \<Rightarrow> [] | Some v \<Rightarrow> v))
     (drop (mi_currentIdx i) (mi_keys i))"

lemma mock_sorted_keys:
  "mock_dok d \<Longrightarrow> sort (map fst (mock_data d)) = sorted_list_of_set (dom (mock_dview d))"
  using sort_distinct[of "map fst (mock_data d)"]
  by (simp add: mock_dok_def mock_dview_def dom_map_of_conv_image_fst)

lemma mock_lookup_items:
  "set ks \<subseteq> dom (mock_dview d) \<Longrightarrow>
     map (\<lambda>k. (k, case map_of (mock_data d) k of None \<Rightarrow> [] | Some v \<Rightarrow> v)) ks
       = map (\<lambda>k. (k, the (mock_dview d k))) ks"
  by (auto simp: mock_dview_def)

lemma mock_ahead_seek_fwd:
  assumes "mock_dok (txn_db t)" "\<not> opt_Reverse o1"
  shows "mock_ahead (mock_Seek (mock_NewIterator t o1) k)
    = filter (\<lambda>kv. k \<le> fst kv) (items_of (mock_dview (txn_db t)))"
proof -
  let ?ks = "sorted_list_of_set (dom (mock_dview (txn_db t)))"
  have "drop (length (takeWhile (\<lambda>x. x < k) ?ks)) ?ks = filter (\<lambda>x. k \<le> x) ?ks"
    by (simp add: dropWhile_eq_drop[symmetric] dropWhile_less_sorted)
  moreover have "set (filter (\<lambda>x. k \<le> x) ?ks) \<subseteq> dom (mock_dview (txn_db t))"
    by (auto simp: mock_dview_def finite_dom_map_of)
  ultimately show ?thesis
    using assms mock_lookup_items[of "filter (\<lambda>x. k \<le> x) ?ks" "txn_db t"]
    by (simp add: mock_ahead_def mock_defs Let_def mock_sorted_keys items_of_filter[of "\<lambda>x. k \<le> x"])
qed

lemma mock_ahead_seek_rev:
  assumes "mock_dok (txn_db t)" "opt_Reverse o1"
  shows "mock_ahead (mock_Seek (mock_NewIterator t o1) k)
    = rev (filter (\<lambda>kv. fst kv < k) (items_of (mock_dview (txn_db t))))"
proof -
  let ?ks = "sorted_list_of_set (dom (mock_dview (txn_db t)))"
  have le: "length (takeWhile (\<lambda>x. x < k) ?ks) \<le> length ?ks" by (rule length_takeWhile_le)
  have "takeWhile (\<lambda>x. x < k) ?ks = filter (\<lambda>x. x < k) ?ks"
    by (intro takeWhile_eq_filter sorted_wrt_mono_rel[rotated, OF sorted_sorted_list_of_set]) auto
  then have "drop (length ?ks - length (takeWhile (\<lambda>x. x < k) ?ks)) (rev ?ks) = rev (filter (\<lambda>x. x < k) ?ks)"
    using le takeWhile_eq_take[of "\<lambda>x. x < k" ?ks] by (simp add: drop_rev)
  moreover have "set (rev (filter (\<lambda>x. x < k) ?ks)) \<subseteq> dom (mock_dview (txn_db t))"
    by (auto simp: mock_dview_def finite_dom_map_of)
  ultimately show ?thesis
    using assms mock_lookup_items[of "rev (filter (\<lambda>x. x < k) ?ks)" "txn_db t"]
    by (simp add: mock_ahead_def mock_defs Let_def mock_sorted_keys sort_rev_sorted
        sorted_sort_id items_of_filter[of "\<lambda>x. x < k"] rev_map)
qed

lemma mock_ahead_rewind:
  assumes "mock_dok (txn_db t)" "\<not> opt_Reverse o1"
  shows "mock_ahead (mock_Rewind (mock_NewIterator t o1)) = items_of (mock_dview (txn_db t))"
  using assms mock_lookup_items[of "sorted_list_of_set (dom (mock_dview (txn_db t)))" "txn_db t"]
  by (simp add: mock_ahead_def mock_defs Let_def mock_sorted_keys items_of_def
      mock_dview_def finite_dom_map_of)

lemma mock_ahead_Cons:
  "mock_ahead i = kv # r \<Longrightarrow> mi_currentIdx i < length (mi_keys i)
     \<and> fst kv = mi_keys i ! mi_currentIdx i
     \<and> snd kv = (case map_of (mock_data (mi_db i)) (fst kv) of None \<Rightarrow> [] | Some v \<Rightarrow> v)"
  by (cases "mi_currentIdx i < length (mi_keys i)") (auto simp: mock_ahead_def Cons_nth_drop_Suc[symmetric])

lemma mock_ahead_Nil: "mock_ahead i = [] \<longleftrightarrow> length (mi_keys i) \<le> mi_currentIdx i"
  by (simp add: mock_ahead_def)

interpretation mock: badger_store mock_ops mock_dview mock_dok "\<lambda>t. mock_dview (txn_db t)"
  "\<lambda>t. mock_dok (txn_db t)" mock_writable mock_ahead mi_opt
proof (unfold_locales, goal_cases)
  case 1 then show ?case by (simp add: mock_ops_def mock_defs mock_writable_def)
next
  case 2 then show ?case by (simp add: mock_ops_def mock_defs)
next
  case 3 then show ?case by (simp add: mock_ops_def mock_defs)
next
  case 4 then show ?case by (simp add: mock_dview_def finite_dom_map_of)
next
  case 5 then show ?case by (simp add: mock_ops_def mock_defs mock_dview_def)
next
  case 6 then show ?case by (simp add: mock_ops_def)
next
  case 7 then show ?case
    by (simp add: mock_ops_def mock_defs mock_writable_def mock_dview_def mock_dok_def
        map_of_AList_update distinct_update)
next
  case 8 then show ?case
    by (simp add: mock_ops_def mock_defs mock_writable_def mock_dview_def mock_dok_def
        map_of_AList_delete distinct_delete)
next
  case 9 then show ?case
    by (auto simp: mock_ops_def mock_defs mock_dview_def mock_dok_def distinct_fst_filter
        map_of_filter_key[of "\<lambda>k. \<not> prefix _ k"])
next
  case 10 then show ?case by (simp add: mock_ops_def mock_defs Let_def)
next
  case 11 then show ?case by (simp add: mock_ops_def mock_defs Let_def)
next
  case 12 then show ?case by (simp add: mock_ops_def mock_defs)
next
  case 13 then show ?case by (simp add: mock_ops_def mock_defs)
next
  case 14 then show ?case by (simp add: mock_ops_def mock_ahead_seek_fwd)
next
  case 15 then show ?case by (simp add: mock_ops_def mock_ahead_seek_rev)
next
  case 16 then show ?case by (simp add: mock_ops_def mock_ahead_rewind)
next
  case 17 then show ?case
    by (simp add: mock_ops_def mock_defs mock_ahead_def map_tl[symmetric] drop_Suc drop_tl)
next
  case 18 then show ?case by (simp add: mock_ops_def mock_defs mock_ahead_Nil)
next
  case 19 then show ?case by (auto simp: mock_ops_def mock_defs dest: mock_ahead_Cons)
next
  case 20 then show ?case
    by (auto simp: mock_ops_def mock_defs mock_ahead_Nil dest: mock_ahead_Cons split: list.splits)
next
  case 21 then show ?case by (auto simp: mock_ops_def mock_defs Let_def dest: mock_ahead_Cons)
qed

interpretation mocks: badger_scan mock_ops mock_dview mock_dok "\<lambda>t. mock_dview (txn_db t)"
  "\<lambda>t. mock_dok (txn_db t)" mock_writable mock_ahead mi_opt
  by unfold_locales (simp add: mock_ops_def mock_ahead_rewind)

end
