(* ===== verification/GoStrings.thy ===== *)
theory GoStrings
  imports SloopPrelude
begin

text \<open>
  The functions of Go's \<open>strings\<close>, \<open>strconv\<close>, \<open>fmt\<close> and \<open>sort\<close> packages that the program
  calls, over byte strings: \<open>strings.Split\<close> with a one-byte separator, \<open>TrimRight\<close>,
  \<open>Contains\<close>, \<open>LastIndex\<close> with a one-byte separator, decimal formatting and
  \<open>strconv.ParseInt(s, 10, 64)\<close>, \<open>fmt.Sprintf("%012d")\<close>. \<open>strings.HasPrefix(s, p)\<close> is the library's
  \<open>prefix p s\<close>, \<open>sort.Strings\<close> is the library's \<open>sort\<close>. The lemmas give the round trips
  and the order facts the key format relies on.
\<close>

section \<open>Splitting and joining\<close>

fun split_on :: "char \<Rightarrow> string \<Rightarrow> string list" where
  "split_on c [] = [[]]"
| "split_on c (x # xs) =
     (if x = c then [] # split_on c xs
      else (case split_on c xs of [] \<Rightarrow> [[x]] | y # ys \<Rightarrow> (x # y) # ys))"

fun join_with :: "char \<Rightarrow> string list \<Rightarrow> string" where
  "join_with c [] = []"
| "join_with c [s] = s"
| "join_with c (s # t # ss) = s @ c # join_with c (t # ss)"

lemma split_on_nonempty [simp]: "split_on c s \<noteq> []"
  by (induction s) (auto split: list.splits)

lemma split_on_no_sep: "c \<notin> set s \<Longrightarrow> split_on c s = [s]"
  by (induction s) auto

lemma split_on_append_sep: "c \<notin> set a \<Longrightarrow> split_on c (a @ c # b) = a # split_on c b"
  by (induction a) auto

lemma split_on_parts: "\<forall>p \<in> set (split_on c s). c \<notin> set p"
  by (induction s) (auto split: list.splits)

lemma join_with_Cons: "ss \<noteq> [] \<Longrightarrow> join_with c (s # ss) = s @ c # join_with c ss"
  by (cases ss) auto

lemma join_split: "join_with c (split_on c s) = s"
proof (induction s)
  case (Cons x xs)
  then show ?case
    by (cases "split_on c xs"; cases "tl (split_on c xs)") (auto simp: join_with_Cons)
qed simp

lemma split_join:
  "ss \<noteq> [] \<Longrightarrow> \<forall>p \<in> set ss. c \<notin> set p \<Longrightarrow> split_on c (join_with c ss) = ss"
  by (induction c ss rule: join_with.induct)
     (auto simp: split_on_no_sep split_on_append_sep)

text \<open>\<open>strings.TrimRight(s, cutset)\<close> with a one-byte cutset.\<close>

definition trim_right :: "char \<Rightarrow> string \<Rightarrow> string" where
  [go_defs]: "trim_right c s = rev (dropWhile (\<lambda>x. x = c) (rev s))"

text \<open>\<open>strings.Contains(s, sub)\<close>: \<open>sub\<close> occurs in \<open>s\<close> as consecutive bytes.\<close>

fun contains_str :: "string \<Rightarrow> string \<Rightarrow> bool" where
  "contains_str [] sub = (sub = [])"
| "contains_str (x # xs) sub = (prefix sub (x # xs) \<or> contains_str xs sub)"

lemma contains_str_iff: "contains_str s sub \<longleftrightarrow> (\<exists>a b. s = a @ sub @ b)"
proof (induction s)
  case (Cons x xs)
  show ?case
  proof
    assume "contains_str (x # xs) sub"
    then consider "prefix sub (x # xs)" | "contains_str xs sub" by auto
    then show "\<exists>a b. x # xs = a @ sub @ b"
    proof cases
      case 1
      then show ?thesis by (metis append_Nil prefix_def)
    next
      case 2
      then show ?thesis using Cons by (metis append_Cons)
    qed
  next
    assume "\<exists>a b. x # xs = a @ sub @ b"
    then obtain a b where ab: "x # xs = a @ sub @ b" by blast
    show "contains_str (x # xs) sub"
    proof (cases a)
      case Nil
      then show ?thesis using ab by (metis append_Nil contains_str.simps(2) prefix_def)
    next
      case (Cons y ys)
      then show ?thesis using ab Cons.IH by auto
    qed
  qed
qed auto

text \<open>\<open>strings.LastIndex(s, c)\<close> with a one-byte pattern: \<open>None\<close> is the result -1.\<close>

fun last_index :: "char \<Rightarrow> string \<Rightarrow> nat option" where
  "last_index c [] = None"
| "last_index c (x # xs) =
     (case last_index c xs of
        Some i \<Rightarrow> Some (Suc i)
      | None \<Rightarrow> if x = c then Some 0 else None)"

lemma last_index_None: "last_index c s = None \<longleftrightarrow> c \<notin> set s"
  by (induction s) (auto split: option.splits)

lemma last_index_Some:
  "last_index c s = Some i \<longleftrightarrow>
     i < length s \<and> s ! i = c \<and> c \<notin> set (drop (Suc i) s)"
proof (induction s arbitrary: i)
  case (Cons x xs)
  show ?case
  proof (cases "last_index c xs")
    case None
    then show ?thesis
      using last_index_None[of c xs] by (cases i) (auto dest: in_set_dropD)
  next
    case (Some j)
    then have "c \<in> set xs" by (metis last_index_None option.distinct(1))
    then show ?thesis using Some Cons[of "i - 1"] by (cases i) auto
  qed
qed simp

section \<open>Decimal numbers\<close>

definition digit_char :: "nat \<Rightarrow> char" where
  [go_defs]: "digit_char d = char_of (48 + d)"

definition is_digit :: "char \<Rightarrow> bool" where
  [go_defs]: "is_digit c \<longleftrightarrow> 48 \<le> (of_char c :: nat) \<and> (of_char c :: nat) \<le> 57"

definition digit_val :: "char \<Rightarrow> nat" where
  [go_defs]: "digit_val c = of_char c - 48"

fun nat_digits :: "nat \<Rightarrow> string" where
  "nat_digits n =
     (if n < 10 then [digit_char n] else nat_digits (n div 10) @ [digit_char (n mod 10)])"

declare nat_digits.simps [simp del]

text \<open>\<open>%d\<close> and \<open>%v\<close> of a signed integer.\<close>

definition format_int :: "int \<Rightarrow> string" where
  [go_defs]: "format_int i = (if i < 0 then CHR ''-'' # nat_digits (nat (- i)) else nat_digits (nat i))"

text \<open>\<open>%012d\<close> of an unsigned integer: at least twelve digits, zeros in front.\<close>

definition format_012d :: "nat \<Rightarrow> string" where
  [go_defs]: "format_012d n = (let s = nat_digits n in replicate (12 - length s) CHR ''0'' @ s)"

fun parse_digits :: "string \<Rightarrow> nat \<Rightarrow> string \<Rightarrow> nat res" where
  "parse_digits orig n [] = Ok n"
| "parse_digits orig n (c # cs) =
     (if \<not> is_digit c then Err (NumSyntax orig)
      else let n' = 10 * n + digit_val c in
        if 2 ^ 64 \<le> n' then Err (NumRange orig) else parse_digits orig n' cs)"

text \<open>\<open>strconv.ParseInt(s, 10, 64)\<close>.\<close>

definition parse_int64 :: "string \<Rightarrow> int res" where
  "parse_int64 s =
     (let neg = (s \<noteq> [] \<and> hd s = CHR ''-'');
          body = (if s \<noteq> [] \<and> (hd s = CHR ''-'' \<or> hd s = CHR ''+'') then tl s else s)
      in if body = [] then Err (NumSyntax s)
         else bind_res (parse_digits s 0 body) (\<lambda>un.
           if \<not> neg \<and> 2 ^ 63 \<le> un then Err (NumRange s)
           else if neg \<and> 2 ^ 63 < un then Err (NumRange s)
           else Ok (if neg then - int un else int un)))"

lemma parse_int64_no_panic [simp]: "parse_int64 s \<noteq> Panic m"
proof -
  have "parse_digits t n cs \<noteq> Panic m'" for t n cs m'
    by (induction t n cs rule: parse_digits.induct) (auto simp: Let_def)
  then show ?thesis
    by (cases "parse_digits s 0 s"; cases "parse_digits s 0 (tl s)")
       (auto simp: parse_int64_def Let_def)
qed

lemma digit_char_values [go_eval]:
  "char_of (48::nat) = CHR ''0''" "char_of (49::nat) = CHR ''1''" "char_of (50::nat) = CHR ''2''"
  "char_of (51::nat) = CHR ''3''" "char_of (52::nat) = CHR ''4''" "char_of (53::nat) = CHR ''5''"
  "char_of (54::nat) = CHR ''6''" "char_of (55::nat) = CHR ''7''" "char_of (56::nat) = CHR ''8''"
  "char_of (57::nat) = CHR ''9''"
  by code_simp+

lemma replicate_eval [go_eval]:
  "replicate (numeral k) x = x # replicate (pred_numeral k) x"
  by (simp add: numeral_eq_Suc)

lemma nat_digits_eval [go_eval]:
  "nat_digits (numeral k) =
     (if numeral k < (10::nat) then [digit_char (numeral k)]
      else nat_digits (numeral k div 10) @ [digit_char (numeral k mod 10)])"
  "nat_digits 0 = [digit_char 0]" "nat_digits (Suc 0) = [digit_char (Suc 0)]"
  by (simp_all add: nat_digits.simps[of "numeral k"] nat_digits.simps[of 0] nat_digits.simps[of "Suc 0"])

lemma of_char_digit_char: "d < 10 \<Longrightarrow> (of_char (digit_char d) :: nat) = 48 + d"
  by (simp add: digit_char_def)

lemma is_digit_digit_char [simp]: "d < 10 \<Longrightarrow> is_digit (digit_char d)"
  by (simp add: is_digit_def of_char_digit_char)

lemma digit_val_digit_char [simp]: "d < 10 \<Longrightarrow> digit_val (digit_char d) = d"
  by (simp add: digit_val_def of_char_digit_char)

lemma nat_digits_nonempty [simp]: "nat_digits n \<noteq> []"
  by (subst nat_digits.simps) simp

lemma nat_digits_are_digits: "\<forall>c \<in> set (nat_digits n). is_digit c"
proof (induction n rule: nat_digits.induct)
  case (1 n)
  then show ?case by (subst nat_digits.simps) auto
qed

definition dec_val :: "string \<Rightarrow> nat" where
  "dec_val s = foldl (\<lambda>n c. 10 * n + digit_val c) 0 s"

lemma foldl_dec: "foldl (\<lambda>n c. 10 * n + digit_val c) a s = a * 10 ^ length s + dec_val s"
proof (induction s arbitrary: a)
  case (Cons c s)
  show ?case
    using Cons[of "10 * a + digit_val c"] Cons[of "digit_val c"]
    by (simp add: dec_val_def algebra_simps)
qed (simp add: dec_val_def)

lemma dec_val_Nil [simp]: "dec_val [] = 0"
  by (simp add: dec_val_def)

lemma dec_val_Cons: "dec_val (c # s) = digit_val c * 10 ^ length s + dec_val s"
  using foldl_dec[of "digit_val c" s] by (simp add: dec_val_def)

lemma dec_val_append: "dec_val (s @ t) = dec_val s * 10 ^ length t + dec_val t"
  using foldl_dec[of "dec_val s" t] by (simp add: dec_val_def)

lemma dec_val_less: "\<forall>c \<in> set s. is_digit c \<Longrightarrow> dec_val s < 10 ^ length s"
proof (induction s)
  case (Cons c s)
  then have "digit_val c \<le> 9" and IH: "dec_val s < 10 ^ length s"
    by (auto simp: digit_val_def is_digit_def)
  then have "digit_val c * 10 ^ length s \<le> 9 * 10 ^ length s" by (intro mult_le_mono1)
  with IH have "digit_val c * 10 ^ length s + dec_val s < 9 * 10 ^ length s + 10 ^ length s"
    by (rule add_le_less_mono[rotated])
  then show ?case by (simp add: dec_val_Cons)
qed simp

lemma dec_val_zeros [simp]: "dec_val (replicate k CHR ''0'' @ s) = dec_val s"
  by (induction k) (auto simp: dec_val_Cons digit_val_def)

lemma dec_val_nat_digits [simp]: "dec_val (nat_digits n) = n"
proof (induction n rule: nat_digits.induct)
  case (1 n)
  show ?case
  proof (cases "n < 10")
    case True
    then show ?thesis by (subst nat_digits.simps) (simp add: dec_val_Cons)
  next
    case False
    then show ?thesis using 1
      by (subst nat_digits.simps) (simp add: dec_val_append dec_val_Cons)
  qed
qed

lemma parse_digits_ok:
  assumes "\<forall>c \<in> set s. is_digit c" and "a * 10 ^ length s + dec_val s < 2 ^ 64"
  shows "parse_digits t a s = Ok (a * 10 ^ length s + dec_val s)"
  using assms
proof (induction s arbitrary: a)
  case (Cons c s)
  have eq: "a * 10 ^ length (c # s) + dec_val (c # s)
      = (10 * a + digit_val c) * 10 ^ length s + dec_val s"
    by (simp add: dec_val_Cons algebra_simps)
  have "10 * a + digit_val c \<le> (10 * a + digit_val c) * 10 ^ length s" by simp
  then have "10 * a + digit_val c < 2 ^ 64"
    using Cons.prems(2) unfolding eq by linarith
  then show ?case
    using Cons.IH[of "10 * a + digit_val c"] Cons.prems unfolding eq by (simp add: Let_def)
qed simp

lemma digit_not_sign: "is_digit c \<Longrightarrow> c \<noteq> CHR ''-'' \<and> c \<noteq> CHR ''+'' \<and> c \<noteq> CHR ''/''"
  by (auto simp: is_digit_def)

text \<open>A string of digits whose value fits parses to its value.\<close>

lemma parse_int64_digits:
  assumes "s \<noteq> []" "\<forall>c \<in> set s. is_digit c" "dec_val s < 2 ^ 63"
  shows "parse_int64 s = Ok (int (dec_val s))"
proof -
  have "is_digit (hd s)" using assms by simp
  then have "hd s \<noteq> CHR ''-''" "hd s \<noteq> CHR ''+''" using digit_not_sign by auto
  moreover have "parse_digits s 0 s = Ok (dec_val s)"
    using parse_digits_ok[of s 0 s] assms by simp
  ultimately show ?thesis using assms by (simp add: parse_int64_def)
qed

lemma parse_format_int:
  assumes "- (2 ^ 63) \<le> i" "i < 2 ^ 63"
  shows "parse_int64 (format_int i) = Ok i"
proof (cases "i < 0")
  case True
  then have "nat (- i) \<le> 2 ^ 63" using assms by simp
  moreover have "parse_digits s 0 (nat_digits (nat (- i))) = Ok (nat (- i))" for s
    using parse_digits_ok[of "nat_digits (nat (- i))" 0 s] nat_digits_are_digits assms by simp
  ultimately show ?thesis using True by (simp add: parse_int64_def format_int_def)
next
  case False
  then show ?thesis
    using assms parse_int64_digits[of "nat_digits (nat i)"] nat_digits_are_digits
    by (simp add: format_int_def)
qed

lemma format_int_chars: "c \<in> set (format_int i) \<Longrightarrow> c = CHR ''-'' \<or> is_digit c"
  using nat_digits_are_digits by (auto simp: format_int_def split: if_splits)

lemma format_int_no_slash: "CHR ''/'' \<notin> set (format_int i)"
  using format_int_chars digit_not_sign by fastforce

lemma length_nat_digits_le: "n < 10 ^ k \<Longrightarrow> 0 < k \<Longrightarrow> length (nat_digits n) \<le> k"
proof (induction n arbitrary: k rule: nat_digits.induct)
  case (1 n)
  show ?case
  proof (cases "n < 10")
    case True
    then show ?thesis using 1 by (subst nat_digits.simps) simp
  next
    case False
    obtain j where k: "k = Suc j" using 1 by (cases k) auto
    have "0 < j" using False 1 k by (cases j) auto
    moreover have "n div 10 < 10 ^ j" using 1 k by (simp add: less_mult_imp_div_less mult.commute)
    ultimately show ?thesis using 1(1)[OF False, of j] False k by (subst nat_digits.simps) simp
  qed
qed

lemma format_012d_digits: "\<forall>c \<in> set (format_012d n). is_digit c"
  using nat_digits_are_digits by (auto simp: format_012d_def Let_def is_digit_def)

lemma format_012d_nonempty [simp]: "format_012d n \<noteq> []"
  by (simp add: format_012d_def Let_def)

lemma dec_val_format_012d [simp]: "dec_val (format_012d n) = n"
  by (simp add: format_012d_def Let_def)

lemma length_format_012d: "n < 10 ^ 12 \<Longrightarrow> length (format_012d n) = 12"
  using length_nat_digits_le[of n 12] by (simp add: format_012d_def Let_def)

lemma parse_format_012d: "n < 2 ^ 63 \<Longrightarrow> parse_int64 (format_012d n) = Ok (int n)"
  using parse_int64_digits[of "format_012d n"] format_012d_digits by simp

text \<open>Equally long digit strings are ordered as their values: lexicographic is numeric.\<close>

lemma digits_less_iff:
  assumes "length s = length t" "\<forall>c \<in> set s. is_digit c" "\<forall>c \<in> set t. is_digit c"
  shows "s < t \<longleftrightarrow> dec_val s < dec_val t"
  using assms
proof (induction s t rule: list_induct2)
  case Nil
  then show ?case by simp
next
  case (Cons x xs y ys)
  have bs: "dec_val xs < 10 ^ length ys" "dec_val ys < 10 ^ length ys"
    using dec_val_less[of xs] dec_val_less[of ys] Cons by auto
  have ord: "x < y \<longleftrightarrow> digit_val x < digit_val y"
    using Cons.prems by (auto simp: less_char_def digit_val_def is_digit_def)
  have step: "digit_val a * 10 ^ length ys + u < digit_val b * 10 ^ length ys + v"
    if "digit_val a < digit_val b" "u < 10 ^ length ys" for a b u v
  proof -
    have "Suc (digit_val a) * 10 ^ length ys \<le> digit_val b * 10 ^ length ys"
      using that by (intro mult_le_mono1) simp
    then show ?thesis using that by simp
  qed
  have IH: "xs < ys \<longleftrightarrow> dec_val xs < dec_val ys" using Cons by simp
  consider "x < y" | "x = y" | "y < x" by fastforce
  then show ?case
  proof cases
    case 1
    then show ?thesis using step[of x y "dec_val xs" "dec_val ys"] bs ord Cons.hyps
      by (simp add: dec_val_Cons)
  next
    case 2
    then show ?thesis using IH Cons.hyps by (simp add: dec_val_Cons)
  next
    case 3
    then have "digit_val y < digit_val x" using ord Cons.prems
      by (auto simp: less_char_def digit_val_def is_digit_def)
    then show ?thesis using step[of y x "dec_val ys" "dec_val xs"] bs 3 Cons.hyps
      by (auto simp: dec_val_Cons dest: less_asym)
  qed
qed

lemma format_012d_less_iff:
  "m < 10 ^ 12 \<Longrightarrow> n < 10 ^ 12 \<Longrightarrow> format_012d m < format_012d n \<longleftrightarrow> m < n"
  using digits_less_iff[of "format_012d m" "format_012d n"] format_012d_digits length_format_012d
  by simp

lemma format_012d_le_iff:
  "m < 10 ^ 12 \<Longrightarrow> n < 10 ^ 12 \<Longrightarrow> format_012d m \<le> format_012d n \<longleftrightarrow> m \<le> n"
  using format_012d_less_iff[of n m] by (meson not_less)

lemma format_012d_inj: "format_012d m = format_012d n \<longleftrightarrow> m = n"
  using dec_val_format_012d by metis

end
