(* ===== verification/CommonUtil.thy ===== *)
theory CommonUtil
  imports GoStrings
begin

text \<open>
  \<open>pkg/sloop/common/utilities.go\<close>: the parser of database keys and the small list and
  integer helpers.
\<close>

text \<open>
  \<open>ParseKey\<close> returns an error and the parts, both: the parts are also returned when the
  key is rejected.
\<close>

definition ParseKey :: "string \<Rightarrow> gerror option \<times> string list" where
  "ParseKey key =
    (let parts = split_on CHR ''/'' key
     in if length parts \<noteq> 7 then (Some (Errorf (''key should have 6 parts: '' @ key)), parts)
        else if parts ! 0 \<noteq> [] then (Some (Errorf (''key should start with /: '' @ key)), parts)
        else (None, parts))"

fun Contains :: "string list \<Rightarrow> string \<Rightarrow> bool" where
  "Contains [] elem = False"
| "Contains (str # strs) elem = (if str = elem then True else Contains strs elem)"

definition Max_int :: "int \<Rightarrow> int \<Rightarrow> int" where
  "Max_int x y = (if x < y then y else x)"

lemma Contains_iff: "Contains xs e \<longleftrightarrow> e \<in> set xs"
  by (induction xs) auto

lemma Max_int_eq: "Max_int x y = max x y"
  by (simp add: Max_int_def)

lemma seven_parts:
  "length (xs :: string list) = 7 \<longleftrightarrow> (\<exists>a b c d e f g. xs = [a, b, c, d, e, f, g])"
  by (auto simp: length_Suc_conv numeral_eq_Suc)

text \<open>A key is accepted exactly when it is six slash-free parts, each behind a slash.\<close>

lemma ParseKey_ok_iff:
  "ParseKey key = (None, parts) \<longleftrightarrow>
     (\<exists>b c d e f g. parts = [[], b, c, d, e, f, g]
        \<and> key = CHR ''/'' # b @ CHR ''/'' # c @ CHR ''/'' # d @ CHR ''/'' # e @ CHR ''/'' # f @ CHR ''/'' # g
        \<and> CHR ''/'' \<notin> set b \<union> set c \<union> set d \<union> set e \<union> set f \<union> set g)"
  (is "?L \<longleftrightarrow> ?R")
proof
  assume ?L
  then have sp: "split_on CHR ''/'' key = parts" and "length parts = 7" and "parts ! 0 = []"
    by (auto simp: ParseKey_def Let_def split: if_splits)
  then obtain b c d e f g where p: "parts = [[], b, c, d, e, f, g]"
    by (auto simp: seven_parts)
  have "key = join_with CHR ''/'' parts" using sp join_split by metis
  moreover have "\<forall>q \<in> set parts. CHR ''/'' \<notin> set q" using sp split_on_parts by metis
  ultimately show ?R using p by auto
next
  assume ?R
  then show ?L by (auto simp: ParseKey_def Let_def split_on_no_sep split_on_append_sep)
qed

lemma ParseKey_parts: "snd (ParseKey key) = split_on CHR ''/'' key"
  by (auto simp: ParseKey_def Let_def)

lemma ParseKey_cases:
  obtains parts e where "ParseKey key = (Some e, parts)"
  | b c d e f g where "ParseKey key = (None, [[], b, c, d, e, f, g])"
proof (cases "ParseKey key")
  case (Pair err parts)
  then show ?thesis using that ParseKey_ok_iff[of key parts] by (cases err) blast+
qed

end
