(* ===== verification/DbUtil.thy ===== *)
theory DbUtil
  imports Badgerwrap CommonUtil
begin

text \<open>
  \<open>pkg/sloop/common/db_utilities.go\<close> and \<open>partition_utilities.go\<close>: counting, listing and
  deleting keys, and the histogram of keys per partition and table. The counters are
  unsigned 64-bit integers in the code; they count keys one by one, so they are naturals here.
\<close>

section \<open>Loops that collect\<close>

text \<open>
  A loop over an iterator whose body breaks or returns an error of the enclosing function:
  the final state, or the error or panic; \<open>None\<close> when the loop does not end.
\<close>

definition item_loop ::
  "('db, 'txn, 'it) badger \<Rightarrow> ('it \<Rightarrow> bool) \<Rightarrow> (store_item \<Rightarrow> 's \<Rightarrow> ('s, 's res) flow) \<Rightarrow> 'it \<Rightarrow> 's
     \<Rightarrow> 's res option" where
  "item_loop B guard f it s =
    map_option (case_sum Ok id) (iter_loop guard (it_Next B) (on_item B f) it s)"

text \<open>The loops of this theory never return from their bodies.\<close>

lemma item_loop_fold:
  assumes "iter_loop guard (it_Next B) (on_item B (\<lambda>im s. Continue (g im s))) it s
    = Some (list_loop (\<lambda>kv s. Continue (g \<lparr>item_key = fst kv, item_value = snd kv\<rparr> s)) xs s :: 's + 's res)"
  shows "item_loop B guard (\<lambda>im s. Continue (g im s)) it s
    = Some (Ok (fold (\<lambda>kv. g \<lparr>item_key = fst kv, item_value = snd kv\<rparr>) xs s))"
  unfolding item_loop_def assms list_loop_fold by simp

section \<open>Deleting keys\<close>

fun delete_all ::
  "('db, 'txn, 'it) badger \<Rightarrow> string list \<Rightarrow> nat \<Rightarrow> 'txn \<Rightarrow> gerror option \<times> nat \<times> 'txn" where
  "delete_all B [] n txn = (None, n, txn)"
| "delete_all B (key # keys) n txn =
     (case tx_Delete B txn key of
        (None, txn') \<Rightarrow> delete_all B keys (n + 1) txn'
      | (Some e, txn') \<Rightarrow> (Some e, n, txn'))"

definition deleteKeys ::
  "('db, 'txn, 'it) badger \<Rightarrow> 'db \<Rightarrow> string list \<Rightarrow> gerror option \<times> nat \<times> 'db" where
  "deleteKeys B db keysForDelete =
    (let (err, deleted, txn) = delete_all B keysForDelete 0 (db_NewTxn B db False);
         (commitErr, db') = db_EndTxn B db txn (err = None)
     in ((case err of Some e \<Rightarrow> Some e | None \<Rightarrow> commitErr), deleted, db'))"

definition add_to_batch :: "nat \<Rightarrow> string \<Rightarrow> string list \<Rightarrow> (string list, 'r) flow" where
  "add_to_batch deletionBatchSize keyToDel keysThisBatch =
    (let keysThisBatch' = keysThisBatch @ [keyToDel]
     in if length keysThisBatch' = deletionBatchSize then Break keysThisBatch'
        else Continue keysThisBatch')"

text \<open>The keys of one batch, read through an iterator that also shows badger's internal keys.\<close>

definition keys_batch ::
  "('db, 'txn, 'it) badger \<Rightarrow> string \<Rightarrow> nat \<Rightarrow> 'txn \<Rightarrow> string list res option" where
  "keys_batch B keyPrefix deletionBatchSize txn =
    item_loop B
      (\<lambda>i. it_ValidForPrefix B i keyPrefix \<or> it_ValidForPrefix B i (''!badger!move'' @ keyPrefix))
      (\<lambda>im. add_to_batch deletionBatchSize (item_key im))
      (it_Rewind B (tx_NewIterator B txn (DefaultIteratorOptions\<lparr>opt_InternalAccess := True\<rparr>))) []"

text \<open>
  The outer loop ends only when enough keys are deleted: an empty batch starts the next
  round on the same store. The value is the error, the two counts and the store.
\<close>

partial_function (option) DeleteKeysWithPrefix_from ::
  "nat \<Rightarrow> ('db, 'txn, 'it) badger \<Rightarrow> string \<Rightarrow> 'db \<Rightarrow> nat \<Rightarrow> nat
     \<Rightarrow> (gerror option \<times> nat \<times> nat \<times> 'db) res option" where
  "DeleteKeysWithPrefix_from numOfKeysDeleted B keyPrefix db deletionBatchSize numOfKeysToDelete =
    (if numOfKeysDeleted < numOfKeysToDelete then
       Option.bind (db_View B db (keys_batch B keyPrefix deletionBatchSize)) (\<lambda>batch.
         case batch of
           Ok keysThisBatch \<Rightarrow>
             if 0 < length keysThisBatch then
               (case deleteKeys B db keysThisBatch of
                  (Some e, n, db') \<Rightarrow>
                    Some (Ok (Some e, numOfKeysDeleted + n, numOfKeysToDelete, db'))
                | (None, n, db') \<Rightarrow>
                    DeleteKeysWithPrefix_from (numOfKeysDeleted + n) B keyPrefix db' deletionBatchSize
                      numOfKeysToDelete)
             else DeleteKeysWithPrefix_from numOfKeysDeleted B keyPrefix db deletionBatchSize
               numOfKeysToDelete
         | Err e \<Rightarrow> Some (Err e)
         | Panic m \<Rightarrow> Some (Panic m))
     else Some (Ok (None, numOfKeysDeleted, numOfKeysToDelete, db)))"

text \<open>Each turn of the loop first makes room for a batch, which panics for a negative size.\<close>

definition DeleteKeysWithPrefix ::
  "('db, 'txn, 'it) badger \<Rightarrow> string \<Rightarrow> 'db \<Rightarrow> int \<Rightarrow> nat
     \<Rightarrow> (gerror option \<times> nat \<times> nat \<times> 'db) res option" where
  "DeleteKeysWithPrefix B keyPrefix db deletionBatchSize numOfKeysToDelete =
    (if 0 < numOfKeysToDelete \<and> deletionBatchSize < 0 then Some (Panic ''makeslice: cap out of range'')
     else DeleteKeysWithPrefix_from 0 B keyPrefix db (nat deletionBatchSize) numOfKeysToDelete)"

section \<open>Counting and listing keys\<close>

definition prefix_opts :: "string \<Rightarrow> iter_opts" where
  "prefix_opts keyPrefix =
    (if length keyPrefix \<noteq> 0 then DefaultIteratorOptions\<lparr>opt_Prefix := keyPrefix\<rparr>
     else DefaultIteratorOptions)"

definition GetTotalKeyCount :: "('db, 'txn, 'it) badger \<Rightarrow> 'db \<Rightarrow> string \<Rightarrow> nat res option" where
  "GetTotalKeyCount B db keyPrefix = db_View B db (\<lambda>txn.
    item_loop B (\<lambda>i. it_ValidForPrefix B i keyPrefix) (\<lambda>im totalKeyCount. Continue (totalKeyCount + 1))
      (it_Rewind B (tx_NewIterator B txn (prefix_opts keyPrefix))) 0)"

definition GetKeysForPrefix :: "('db, 'txn, 'it) badger \<Rightarrow> 'db \<Rightarrow> string \<Rightarrow> string list res option" where
  "GetKeysForPrefix B db keyPrefix = db_View B db (\<lambda>txn.
    item_loop B (\<lambda>i. it_ValidForPrefix B i keyPrefix) (\<lambda>im keys. Continue (keys @ [item_key im]))
      (it_Rewind B (tx_NewIterator B txn (prefix_opts keyPrefix))) [])"

section \<open>The histogram of partitions\<close>

record SloopKey =
  sk_TableName :: string
  sk_PartitionID :: string

definition GetSloopKey :: "store_item \<Rightarrow> SloopKey res" where
  "GetSloopKey item =
    (let (err, parts) = ParseKey (item_key item)
     in case err of
          Some e \<Rightarrow> Err e
        | None \<Rightarrow> Ok \<lparr>sk_TableName = parts ! 1, sk_PartitionID = parts ! 2\<rparr>)"

record PartitionInfo =
  pi_TotalKeyCount :: nat
  pi_TableNameToKeyCountMap :: "(string \<times> nat) list"

definition map_count :: "(string \<times> nat) list \<Rightarrow> string \<Rightarrow> nat" where
  "map_count m k = (case map_of m k of None \<Rightarrow> 0 | Some n \<Rightarrow> n)"

definition info_of :: "(string \<times> PartitionInfo) list \<Rightarrow> string \<Rightarrow> PartitionInfo" where
  "info_of m p = (case map_of m p of None \<Rightarrow> \<lparr>pi_TotalKeyCount = 0, pi_TableNameToKeyCountMap = []\<rparr> | Some i \<Rightarrow> i)"

definition count_key ::
  "store_item \<Rightarrow> (string \<times> PartitionInfo) list \<times> nat \<Rightarrow> (string \<times> PartitionInfo) list \<times> nat" where
  "count_key item = (\<lambda>(m, tot).
    case GetSloopKey item of
      Ok sloopKey \<Rightarrow>
        let p = sk_PartitionID sloopKey; t = sk_TableName sloopKey; i = info_of m p
        in (AList.update p (i\<lparr>pi_TotalKeyCount := pi_TotalKeyCount i + 1,
              pi_TableNameToKeyCountMap :=
                AList.update t (map_count (pi_TableNameToKeyCountMap i) t + 1) (pi_TableNameToKeyCountMap i)\<rparr>) m,
            tot + 1)
    | _ \<Rightarrow> (m, tot))"

definition GetPartitionsInfo ::
  "('db, 'txn, 'it) badger \<Rightarrow> 'db \<Rightarrow> ((string \<times> PartitionInfo) list \<times> nat) res option" where
  "GetPartitionsInfo B db = db_View B db (\<lambda>txn.
    item_loop B (it_Valid B) (\<lambda>im s. Continue (count_key im s))
      (it_Rewind B (tx_NewIterator B txn DefaultIteratorOptions)) ([], 0))"

definition GetSortedPartitionIDs :: "(string \<times> PartitionInfo) list \<Rightarrow> string list" where
  "GetSortedPartitionIDs partitionsInfoMap = sort (map fst partitionsInfoMap)"

section \<open>Lemmas\<close>

lemma list_loop_batch:
  "list_loop (\<lambda>x. add_to_batch n (g x)) xs acc
    = (Inl (acc @ map g (if length acc < n then take (n - length acc) xs else xs)) :: string list + 'r)"
  by (induction xs arbitrary: acc) (auto simp: add_to_batch_def Let_def take_Cons' Suc_diff_Suc)

lemma sort_partition_ids_set: "set (GetSortedPartitionIDs m) = fst ` set m"
  by (simp add: GetSortedPartitionIDs_def)

text \<open>The table and partition of a key, and how the histogram counts them.\<close>

definition key_id :: "string \<Rightarrow> (string \<times> string) option" where
  "key_id k = (case GetSloopKey \<lparr>item_key = k, item_value = []\<rparr> of
     Ok sk \<Rightarrow> Some (sk_TableName sk, sk_PartitionID sk) | _ \<Rightarrow> None)"

lemma GetSloopKey_cases:
  "(case GetSloopKey im of Ok sk \<Rightarrow> f sk | Err e \<Rightarrow> d | Panic x \<Rightarrow> d)
    = (case key_id (item_key im) of
         None \<Rightarrow> d | Some (t, p) \<Rightarrow> f \<lparr>sk_TableName = t, sk_PartitionID = p\<rparr>)"
  by (auto simp: key_id_def GetSloopKey_def split: prod.splits option.splits)

text \<open>What the histogram has to say about the keys it has seen.\<close>

definition hist_ok :: "string list \<Rightarrow> (string \<times> PartitionInfo) list \<times> nat \<Rightarrow> bool" where
  "hist_ok ks mt \<longleftrightarrow>
     distinct (map fst (fst mt))
     \<and> snd mt = length (filter (\<lambda>k. key_id k \<noteq> None) ks)
     \<and> (\<forall>p. p \<in> fst ` set (fst mt) \<longleftrightarrow> (\<exists>k \<in> set ks. \<exists>t. key_id k = Some (t, p)))
     \<and> (\<forall>p. pi_TotalKeyCount (info_of (fst mt) p) = length (filter (\<lambda>k. \<exists>t. key_id k = Some (t, p)) ks))
     \<and> (\<forall>p t. map_count (pi_TableNameToKeyCountMap (info_of (fst mt) p)) t
           = length (filter (\<lambda>k. key_id k = Some (t, p)) ks))
     \<and> sum_list (map (\<lambda>pi. pi_TotalKeyCount (snd pi)) (fst mt)) = snd mt"

lemma info_of_update:
  "info_of (AList.update p i m) q = (if q = p then i else info_of m q)"
  by (simp add: info_of_def map_of_AList_update)

lemma map_count_update:
  "map_count (AList.update t n m) u = (if u = t then n else map_count m u)"
  by (simp add: map_count_def map_of_AList_update)

lemma sum_update:
  "distinct (map fst m) \<Longrightarrow>
     sum_list (map (\<lambda>pi. pi_TotalKeyCount (snd pi)) (AList.update p i m)) + pi_TotalKeyCount (info_of m p)
       = sum_list (map (\<lambda>pi. pi_TotalKeyCount (snd pi)) m) + pi_TotalKeyCount i"
proof (induction m)
  case (Cons qi m)
  have "map_of m p = None" if "fst qi = p"
    using Cons.prems that by (simp add: map_of_eq_None_iff)
  then show ?case using Cons by (cases qi) (auto simp: info_of_def split: option.splits)
qed (simp add: info_of_def)

lemma sum_incr:
  "distinct (map fst m) \<Longrightarrow> pi_TotalKeyCount i = Suc (pi_TotalKeyCount (info_of m p)) \<Longrightarrow>
     sum_list (map (\<lambda>pi. pi_TotalKeyCount (snd pi)) (AList.update p i m))
       = Suc (sum_list (map (\<lambda>pi. pi_TotalKeyCount (snd pi)) m))"
  using sum_update[of m p i] by simp

lemma hist_ok_step:
  assumes "hist_ok ks mt"
  shows "hist_ok (ks @ [item_key im]) (count_key im mt)"
proof (cases "key_id (item_key im)")
  case None
  then show ?thesis
    using assms by (cases mt) (auto simp: hist_ok_def count_key_def GetSloopKey_cases)
next
  case (Some tp)
  obtain t p where tp: "tp = (t, p)" by (cases tp)
  obtain m n where mt: "mt = (m, n)" by (cases mt)
  have "distinct (map fst m)" using assms by (simp add: hist_ok_def mt)
  note sum = sum_incr[OF this]
  show ?thesis
    using assms Some unfolding tp mt hist_ok_def count_key_def GetSloopKey_cases
    by (auto simp: sum Let_def info_of_update map_count_update distinct_update update_conv dom_update)
qed

lemma hist_ok_fold:
  "hist_ok ks mt \<Longrightarrow> hist_ok (ks @ map fst xs)
     (fold (\<lambda>kv. count_key \<lparr>item_key = fst kv, item_value = snd kv\<rparr>) xs mt)"
proof (induction xs arbitrary: ks mt)
  case (Cons kv xs)
  then show ?case
    using Cons.IH[OF hist_ok_step[OF Cons.prems, of "\<lparr>item_key = fst kv, item_value = snd kv\<rparr>"]] by simp
qed simp

lemma hist_ok_empty: "hist_ok [] ([], 0)"
  by (simp add: hist_ok_def info_of_def map_count_def)

section \<open>On a store that meets the contract\<close>

abbreviation keys_of :: "(string \<rightharpoonup> string) \<Rightarrow> string list" where
  "keys_of m \<equiv> sorted_list_of_set (dom m)"

text \<open>The keys with a prefix come before every other key: nothing sorts below the prefix.\<close>

definition prefix_first :: "string \<Rightarrow> (string \<rightharpoonup> string) \<Rightarrow> bool" where
  "prefix_first p m \<longleftrightarrow> takeWhile (prefix p) (keys_of m) = filter (prefix p) (keys_of m)"

lemma prefix_first_Nil [simp]: "prefix_first [] m"
  by (simp add: prefix_first_def)

lemma prefix_first_items:
  "prefix_first p m \<Longrightarrow> takeWhile (\<lambda>kv. prefix p (fst kv)) (items_of m)
     = filter (\<lambda>kv. prefix p (fst kv)) (items_of m)"
  by (simp add: prefix_first_def items_of_def takeWhile_map filter_map comp_def)

lemma prefix_opts_simps:
  "plain_opts (prefix_opts p)" "\<not> opt_Reverse (prefix_opts p)" "opt_Prefix (prefix_opts p) = p"
  by (simp_all add: prefix_opts_def plain_opts_def DefaultIteratorOptions_def)

lemma default_opts_simps:
  "plain_opts DefaultIteratorOptions" "\<not> opt_Reverse DefaultIteratorOptions"
  "opt_Prefix DefaultIteratorOptions = []"
  by (simp_all add: plain_opts_def DefaultIteratorOptions_def)

lemma fold_append_keys: "fold (\<lambda>kv ks. ks @ [fst kv]) xs acc = acc @ map fst xs"
  by (induction xs arbitrary: acc) auto

lemma fold_count: "fold (\<lambda>kv n. n + 1) xs (m::nat) = m + length xs" "fold (\<lambda>kv. Suc) xs m = m + length xs"
  by (induction xs arbitrary: m) auto

context badger_store
begin

lemma total_key_count:
  assumes "dok d" "prefix_first p (dview d)"
  shows "GetTotalKeyCount B d p = Some (Ok (length (filter (prefix p) (keys_of (dview d)))))"
proof -
  have t: "tok (db_NewTxn B d True)" "tview (db_NewTxn B d True) = dview d" using newtxn assms(1) by auto
  show ?thesis
    unfolding GetTotalKeyCount_def db_View_def
    by (rule trans[OF item_loop_fold[OF scan_rewind_prefix[OF t(1) prefix_opts_simps]]])
       (simp_all add: t prefix_first_items[OF assms(2)] fold_count items_of_filter[of "prefix p"])
qed

lemma keys_for_prefix:
  assumes "dok d" "prefix_first p (dview d)"
  shows "GetKeysForPrefix B d p = Some (Ok (filter (prefix p) (keys_of (dview d))))"
proof -
  have t: "tok (db_NewTxn B d True)" "tview (db_NewTxn B d True) = dview d" using newtxn assms(1) by auto
  show ?thesis
    unfolding GetKeysForPrefix_def db_View_def
    by (rule trans[OF item_loop_fold[OF scan_rewind_prefix[OF t(1) prefix_opts_simps]]])
       (simp_all add: t prefix_first_items[OF assms(2)] fold_append_keys items_of_filter[of "prefix p"]
         comp_def)
qed

lemma partitions_info:
  assumes "dok d"
  shows "\<exists>r. GetPartitionsInfo B d = Some (Ok r) \<and> hist_ok (keys_of (dview d)) r"
proof -
  have t: "tok (db_NewTxn B d True)" "tview (db_NewTxn B d True) = dview d" using newtxn assms(1) by auto
  have "GetPartitionsInfo B d = Some (Ok (fold
      (\<lambda>kv. count_key \<lparr>item_key = fst kv, item_value = snd kv\<rparr>) (items_of (dview d)) ([], 0)))"
    unfolding GetPartitionsInfo_def db_View_def
    by (rule trans[OF item_loop_fold[OF scan_all[OF t(1) default_opts_simps]]]) (simp add: t)
  moreover have "hist_ok (keys_of (dview d)) (fold
      (\<lambda>kv. count_key \<lparr>item_key = fst kv, item_value = snd kv\<rparr>) (items_of (dview d)) ([], 0))"
    using hist_ok_fold[OF hist_ok_empty, of "items_of (dview d)"] by (simp add: items_of_keys)
  ultimately show ?thesis by blast
qed

lemma delete_all_ok:
  assumes "tok t" "writable t" "[] \<notin> set ks"
  shows "\<exists>t'. delete_all B ks n t = (None, n + length ks, t') \<and> tok t' \<and> writable t'
    \<and> tview t' = tview t |` (- set ks)"
  using assms
proof (induction ks arbitrary: n t)
  case (Cons k ks)
  obtain t1 where t1: "tx_Delete B t k = (None, t1)" "tok t1" "writable t1" "tview t1 = (tview t)(k := None)"
    using delete[of t k] Cons.prems by auto
  then show ?case
    using Cons.IH[OF t1(2,3), of "n + 1"] Cons.prems(3)
    by (auto simp: restrict_map_def fun_eq_iff)
qed (simp add: restrict_map_def)

lemma deleteKeys_ok:
  assumes "dok d" "[] \<notin> set ks" "deleteKeys B d ks = (err, n, d')"
  shows "n = length ks \<and> dok d'
    \<and> dview d' = (if err = None then dview d |` (- set ks) else dview d)"
proof -
  have t: "tok (db_NewTxn B d False)" "writable (db_NewTxn B d False)"
    "tview (db_NewTxn B d False) = dview d" using newtxn assms(1) by auto
  obtain t' where "delete_all B ks 0 (db_NewTxn B d False) = (None, length ks, t')"
    "tok t'" "writable t'" "tview t' = dview d |` (- set ks)"
    using delete_all_ok[OF t(1,2) assms(2), of 0] t(3) by auto
  then show ?thesis
    using assms(3) commit[OF assms(1), of t'] by (auto simp: deleteKeys_def split: prod.splits)
qed

end

section \<open>Deleting by prefix\<close>

text \<open>The guard of the batch loop, and when it lets the matching keys through: they come first.\<close>

definition del_match :: "string \<Rightarrow> string \<Rightarrow> bool" where
  "del_match p k \<longleftrightarrow> prefix p k \<or> prefix (''!badger!move'' @ p) k"

definition del_first :: "string \<Rightarrow> (string \<rightharpoonup> string) \<Rightarrow> bool" where
  "del_first p m \<longleftrightarrow> (\<forall>k \<in> dom m. \<forall>l \<in> dom m. del_match p k \<and> \<not> del_match p l \<longrightarrow> k < l)"

definition del_batch :: "nat \<Rightarrow> string list \<Rightarrow> string list" where
  "del_batch n ks = (if 0 < n then take n ks else ks)"

lemma del_batch_nonempty: "ks \<noteq> [] \<Longrightarrow> del_batch n ks \<noteq> []"
  by (auto simp: del_batch_def)

lemma set_del_batch: "set (del_batch n ks) \<subseteq> set ks"
  by (auto simp: del_batch_def dest: in_set_takeD)

lemma del_first_takeWhile:
  assumes "finite (dom m)" "del_first p m"
  shows "takeWhile (del_match p) (keys_of m) = filter (del_match p) (keys_of m)"
proof (rule takeWhile_eq_filter)
  show "sorted_wrt (\<lambda>a b. del_match p b \<longrightarrow> del_match p a) (keys_of m)"
    by (rule sorted_wrt_mono_rel[OF _ sorted_sorted_list_of_set])
       (use assms in \<open>auto simp: del_first_def dest!: leD\<close>)
qed

lemma keys_of_delete:
  assumes "finite (dom m)"
  shows "keys_of (m |` (- set ks)) = filter (\<lambda>k. k \<notin> set ks) (keys_of m)"
  using assms by (intro sorted_distinct_set_unique) (auto simp: sorted_wrt_filter)

lemma filter_notin_length:
  "distinct xs \<Longrightarrow> distinct ys \<Longrightarrow> set ys \<subseteq> set xs \<Longrightarrow>
     length ys + length (filter (\<lambda>x. x \<notin> set ys) xs) = length xs"
proof -
  assume a: "distinct xs" "distinct ys" "set ys \<subseteq> set xs"
  have "length (filter (\<lambda>x. x \<in> set ys) xs) = card (set ys)"
    using a by (simp add: distinct_length_filter Int_absorb1 Int_commute Collect_mem_eq)
  then show ?thesis
    using a(2) sum_length_filter_compl[of "\<lambda>x. x \<in> set ys" xs] by (simp add: distinct_card)
qed

context badger_scan
begin

lemma keys_batch_eq:
  assumes "tok t"
  shows "keys_batch B p n t
    = Some (Ok (del_batch n (takeWhile (del_match p) (keys_of (tview t)))))"
proof -
  have "takeWhile (\<lambda>kv. prefix p (fst kv) \<or> prefix (''!badger!move'' @ p) (fst kv)) (items_of (tview t))
      = map (\<lambda>k. (k, the (tview t k))) (takeWhile (del_match p) (keys_of (tview t)))"
    by (simp add: items_of_def takeWhile_map comp_def del_match_def[abs_def])
  then show ?thesis
    unfolding keys_batch_def item_loop_def
    by (subst scan_keys[OF assms]) (simp_all add: DefaultIteratorOptions_def list_loop_batch del_batch_def comp_def take_map)
qed

lemma delete_round:
  assumes "dok d" "p \<noteq> []" "del_first p (dview d)" "n < tot"
    and "n + length (filter (del_match p) (keys_of (dview d))) = tot"
  obtains b err d1 where
    "db_View B d (keys_batch B p bs) = Some (Ok b)" "b \<noteq> []"
    "deleteKeys B d b = (err, length b, d1)" "dok d1"
    "err = None \<Longrightarrow> del_first p (dview d1)
       \<and> n + length b + length (filter (del_match p) (keys_of (dview d1))) = tot
       \<and> (\<forall>k. (if del_match p k then None else dview d1 k) = (if del_match p k then None else dview d k))"
proof -
  have t: "tok (db_NewTxn B d True)" "tview (db_NewTxn B d True) = dview d" using newtxn assms(1) by auto
  have fin: "finite (dom (dview d))" using finite_view[OF t(1)] t(2) by simp
  define ks where "ks = filter (del_match p) (keys_of (dview d))"
  define b where "b = del_batch bs ks"
  have view: "db_View B d (keys_batch B p bs) = Some (Ok b)"
    by (simp add: db_View_def keys_batch_eq t b_def ks_def del_first_takeWhile[OF fin assms(3)])
  have ne: "b \<noteq> []" using del_batch_nonempty[of ks bs] assms(4,5) by (auto simp: b_def ks_def)
  have sub: "set b \<subseteq> set ks" by (simp add: b_def set_del_batch)
  have dist: "distinct ks" "distinct b" by (simp_all add: ks_def b_def del_batch_def)
  have m: "k \<in> set b \<Longrightarrow> del_match p k" for k using sub by (auto simp: ks_def)
  have "[] \<notin> set b" using m[of "[]"] assms(2) by (auto simp: del_match_def)
  moreover obtain err n' d1 where del: "deleteKeys B d b = (err, n', d1)" by (metis prod_cases3)
  ultimately have d1: "n' = length b" "dok d1"
    "err = None \<Longrightarrow> dview d1 = dview d |` (- set b)"
    using deleteKeys_ok[OF assms(1)] by (auto split: if_splits)
  have len: "length b + length (filter (\<lambda>k. k \<notin> set b) ks) = length ks"
    using filter_notin_length[OF dist sub] .
  have left: "filter (del_match p) (keys_of (dview d |` (- set b))) = filter (\<lambda>k. k \<notin> set b) ks"
    by (simp only: keys_of_delete[OF fin] ks_def filter_filter conj_commute)
  show ?thesis
  proof (rule that[OF view ne])
    show "deleteKeys B d b = (err, length b, d1)" using del d1(1) by simp
    show "dok d1" by (rule d1(2))
    show "del_first p (dview d1)
       \<and> n + length b + length (filter (del_match p) (keys_of (dview d1))) = tot
       \<and> (\<forall>k. (if del_match p k then None else dview d1 k) = (if del_match p k then None else dview d k))"
      if "err = None"
      using d1(3)[OF that] assms(3,5) len left m
      by (auto simp: del_first_def restrict_map_def ks_def[symmetric] domIff split: if_splits)
  qed
qed

text \<open>
  The outer loop ends, and deletes exactly the matching keys, when it is asked to delete as
  many as there are and they come first.
\<close>

lemma delete_from:
  assumes "dok d" "p \<noteq> []" "del_first p (dview d)"
    and "n + length (filter (del_match p) (keys_of (dview d))) = tot"
  shows "\<exists>err m d'. DeleteKeysWithPrefix_from n B p d bs tot = Some (Ok (err, m, tot, d')) \<and> dok d'
    \<and> (err = None \<longrightarrow> m = tot \<and> (\<forall>k. dview d' k = (if del_match p k then None else dview d k)))"
  using assms
proof (induction "tot - n" arbitrary: n d rule: less_induct)
  case less
  show ?case
  proof (cases "n < tot")
    case False
    then have "length (filter (del_match p) (keys_of (dview d))) = 0" using less.prems(4) by linarith
    then have "filter (del_match p) (keys_of (dview d)) = []" by (simp only: length_0_conv)
    moreover have "finite (dom (dview d))"
      using newtxn[OF less.prems(1), of True] finite_view by metis
    ultimately have "\<forall>k \<in> dom (dview d). \<not> del_match p k"
      by (auto simp: filter_empty_conv)
    then have "dview d k = (if del_match p k then None else dview d k)" for k
      by (cases "dview d k") auto
    then show ?thesis
      using False less.prems by (subst DeleteKeysWithPrefix_from.simps) auto
  next
    case True
    obtain b err d1 where r: "db_View B d (keys_batch B p bs) = Some (Ok b)" "b \<noteq> []"
      "deleteKeys B d b = (err, length b, d1)" "dok d1"
      "err = None \<Longrightarrow> del_first p (dview d1)
         \<and> n + length b + length (filter (del_match p) (keys_of (dview d1))) = tot
         \<and> (\<forall>k. (if del_match p k then None else dview d1 k) = (if del_match p k then None else dview d k))"
      using delete_round[OF less.prems(1-3) True less.prems(4)] by metis
    show ?thesis
    proof (cases err)
      case (Some e)
      then show ?thesis
        using True r(1-4) by (subst DeleteKeysWithPrefix_from.simps) simp
    next
      case None
      have "tot - (n + length b) < tot - n" using True r(2) by (simp add: diff_less_mono2)
      from less.hyps[OF this r(4) less.prems(2)] r(5)[OF None]
      show ?thesis
        using True r(1-3) None by (subst DeleteKeysWithPrefix_from.simps) auto
    qed
  qed
qed

text \<open>The loop never ends when the smallest key does not match and keys are to be deleted.\<close>

lemma delete_diverges:
  assumes "dok d" "n < tot" "takeWhile (del_match p) (keys_of (dview d)) = []"
  shows "DeleteKeysWithPrefix_from n B p d bs tot = None"
proof -
  have t: "tok (db_NewTxn B d True)" "tview (db_NewTxn B d True) = dview d" using newtxn assms(1) by auto
  have view: "db_View B d (keys_batch B p bs) = Some (Ok [])"
    by (simp add: db_View_def keys_batch_eq t assms(3) del_batch_def)
  have no: "\<not> (n' = n \<and> B' = B \<and> p' = p \<and> d' = d \<and> bs' = bs \<and> tot' = tot)"
    if "DeleteKeysWithPrefix_from n' B' p' d' bs' tot' = Some y" for n' B' p' d' bs' tot' y
  proof (rule DeleteKeysWithPrefix_from.raw_induct[OF _ that, where P =
      "\<lambda>n' B' p' d' bs' tot' y. \<not> (n' = n \<and> B' = B \<and> p' = p \<and> d' = d \<and> bs' = bs \<and> tot' = tot)"])
    fix f n' B' p' d' bs' tot' y
    assume IH: "\<And>n' B' p' d' bs' tot' y. f n' B' p' d' bs' tot' = Some y \<Longrightarrow>
        \<not> (n' = n \<and> B' = B \<and> p' = p \<and> d' = d \<and> bs' = bs \<and> tot' = tot)"
      and body: "(if n' < tot' then
       Option.bind (db_View B' d' (keys_batch B' p' bs')) (\<lambda>batch.
         case batch of
           Ok ks \<Rightarrow>
             if 0 < length ks then
               (case deleteKeys B' d' ks of
                  (Some e, m, db') \<Rightarrow> Some (Ok (Some e, n' + m, tot', db'))
                | (None, m, db') \<Rightarrow> f (n' + m) B' p' db' bs' tot')
             else f n' B' p' d' bs' tot'
         | Err e \<Rightarrow> Some (Err e)
         | Panic m \<Rightarrow> Some (Panic m))
     else Some (Ok (None, n', tot', d'))) = Some y"
    show "\<not> (n' = n \<and> B' = B \<and> p' = p \<and> d' = d \<and> bs' = bs \<and> tot' = tot)"
      using IH[of n' B' p' d' bs' tot' y] body view assms(2) by auto
  qed
  show ?thesis
  proof (cases "DeleteKeysWithPrefix_from n B p d bs tot")
    case (Some y)
    then show ?thesis using no[OF Some] by simp
  qed
qed

end

section \<open>Properties\<close>

text \<open>
  The histogram counts what is in the store. On any store that meets the contract
  \<open>GetPartitionsInfo\<close> ends; its total is the number of keys that parse, it has an entry
  for exactly the partitions that occur, each entry's table counters are the numbers of
  keys of that table and partition, and the entries' totals add up to the total.
\<close>

lemma partitions_info_counts_keys:
  assumes "badger_store B dview dok tview tok writable ahead iopts" "dok d"
  shows "\<exists>m n. GetPartitionsInfo B d = Some (Ok (m, n))
    \<and> n = length (filter (\<lambda>k. key_id k \<noteq> None) (keys_of (dview d)))
    \<and> sum_list (map (\<lambda>pi. pi_TotalKeyCount (snd pi)) m) = n
    \<and> (\<forall>p. p \<in> set (GetSortedPartitionIDs m)
          \<longleftrightarrow> (\<exists>k \<in> set (keys_of (dview d)). \<exists>t. key_id k = Some (t, p)))
    \<and> (\<forall>p t. map_count (pi_TableNameToKeyCountMap (info_of m p)) t
          = length (filter (\<lambda>k. key_id k = Some (t, p)) (keys_of (dview d))))"
  using badger_store.partitions_info[OF assms]
  by (auto simp: hist_ok_def sort_partition_ids_set simp del: sum_list_eq_0_iff)

lemma partitions_info_counts_keys_witness:
  "\<exists>m n. GetPartitionsInfo mock_ops \<lparr>mock_data = [(''/watch/1/a/b/c/2'', ''v''), (''bad'', ''w'')]\<rparr> = Some (Ok (m, n))
    \<and> sum_list (map (\<lambda>pi. pi_TotalKeyCount (snd pi)) m) = n"
  using partitions_info_counts_keys[OF mock.badger_store_axioms,
      of "\<lparr>mock_data = [(''/watch/1/a/b/c/2'', ''v''), (''bad'', ''w'')]\<rparr>"]
  by (auto simp: mock_dok_def)



text \<open>
  Deleting by prefix never returns when the smallest key does not match. The loop
  rewinds to the first key instead of seeking to the prefix, so one key of a table that
  sorts before the prefix makes every batch empty and the count never grows.
\<close>

lemma delete_keys_with_prefix_diverges:
  assumes "badger_scan B dview dok tview tok writable ahead iopts" "dok d"
    and "0 < n" "0 \<le> batchSize" "\<forall>l \<in> dom (dview d). k \<le> l" "k \<in> dom (dview d)" "\<not> del_match p k"
  shows "DeleteKeysWithPrefix B p d batchSize n = None"
proof -
  have st: "badger_store B dview dok tview tok writable ahead iopts"
    using assms(1) by (rule badger_scan.axioms(1))
  have "finite (dom (dview d))"
    using badger_store.newtxn[OF st assms(2), of True] badger_store.finite_view[OF st] by metis
  then have "keys_of (dview d) = k # sorted_list_of_set (dom (dview d) - {k})"
    using sorted_list_of_set_nonempty[of "dom (dview d)"] assms(5,6)
      Min_eqI[of "dom (dview d)" k] by (metis empty_iff)
  then show ?thesis
    unfolding DeleteKeysWithPrefix_def
    using badger_scan.delete_diverges[OF assms(1-3)] assms(4,7) by simp
qed

lemma delete_keys_with_prefix_diverges_witness:
  "DeleteKeysWithPrefix mock_ops ''/b'' \<lparr>mock_data = [(''/b'', ''v''), (''/a/1'', ''w'')]\<rparr> 10 1 = None"
  by (rule delete_keys_with_prefix_diverges[OF mocks.badger_scan_axioms, where k = "''/a/1''"])
     (auto simp: mock_dok_def mock_dview_def del_match_def less_char_def split: if_splits)

end
