(* ===== verification/GoTime.thy ===== *)
theory GoTime
  imports GoStrings
begin

text \<open>
  Go's \<open>time.Time\<close> and \<open>time.Duration\<close> as the program uses them. A time is an instant
  (nanoseconds since the Unix epoch, an unbounded integer: Go's own range of about 292
  billion years is never left) together with its location. \<open>==\<close> on two times compares
  the location pointers too, while \<open>Equal\<close>, \<open>Before\<close> and \<open>After\<close> compare instants only;
  so a location is \<open>UTC\<close> or a zone with an identity and a fixed offset in seconds.
  Zones whose offset changes over the year are not modelled. A duration is an integer
  number of nanoseconds; \<open>Sub\<close> saturates at the 64-bit limits as Go documents.
\<close>

datatype location = UTC | Zone nat int

datatype gotime = Time (tns: int) (tloc: location)

definition Nanosecond :: int where [go_defs]: "Nanosecond = 1"
definition Second :: int where [go_defs]: "Second = 1000000000"
definition Minute :: int where [go_defs]: "Minute = 60000000000"
definition Hour :: int where [go_defs]: "Hour = 3600000000000"

text \<open>Two's complement conversion to 64 bits, signed and unsigned.\<close>

definition wrap_int64 :: "int \<Rightarrow> int" where
  [go_defs]: "wrap_int64 x = (x + 2 ^ 63) mod 2 ^ 64 - 2 ^ 63"

definition to_uint64 :: "int \<Rightarrow> nat" where
  [go_defs]: "to_uint64 x = nat (x mod 2 ^ 64)"

definition wrap_int32 :: "int \<Rightarrow> int" where
  [go_defs]: "wrap_int32 x = (x + 2 ^ 31) mod 2 ^ 32 - 2 ^ 31"

text \<open>\<open>time.Time{}\<close>: the first of January of year 1, UTC.\<close>

definition zero_ns :: int where
  [go_defs]: "zero_ns = - 62135596800 * 1000000000"

definition zero_time :: gotime where
  [go_defs]: "zero_time = Time zero_ns UTC"

definition IsZero :: "gotime \<Rightarrow> bool" where
  [go_defs]: "IsZero t \<longleftrightarrow> tns t = zero_ns"

definition time_Add :: "gotime \<Rightarrow> int \<Rightarrow> gotime" where
  [go_defs]: "time_Add t d = Time (tns t + d) (tloc t)"

definition time_Sub :: "gotime \<Rightarrow> gotime \<Rightarrow> int" where
  [go_defs]: "time_Sub t u = max (- (2 ^ 63)) (min (2 ^ 63 - 1) (tns t - tns u))"

definition time_Before :: "gotime \<Rightarrow> gotime \<Rightarrow> bool" where
  [go_defs]: "time_Before t u \<longleftrightarrow> tns t < tns u"

definition time_After :: "gotime \<Rightarrow> gotime \<Rightarrow> bool" where
  [go_defs]: "time_After t u \<longleftrightarrow> tns u < tns t"

definition time_Equal :: "gotime \<Rightarrow> gotime \<Rightarrow> bool" where
  [go_defs]: "time_Equal t u \<longleftrightarrow> tns t = tns u"

definition time_UTC :: "gotime \<Rightarrow> gotime" where
  [go_defs]: "time_UTC t = Time (tns t) UTC"

text \<open>\<open>t.Unix()\<close>, \<open>t.UnixNano()\<close> (which wraps outside 1678 to 2262) and \<open>time.Unix(s, n)\<close>, whose location is the local one.\<close>

definition Unix :: "gotime \<Rightarrow> int" where
  [go_defs]: "Unix t = tns t div 1000000000"

definition UnixNano :: "gotime \<Rightarrow> int" where
  [go_defs]: "UnixNano t = wrap_int64 (tns t)"

definition time_Unix :: "location \<Rightarrow> int \<Rightarrow> int \<Rightarrow> gotime" where
  [go_defs]: "time_Unix loc s n = Time (s * 1000000000 + n) loc"

text \<open>\<open>t.Round(d)\<close>: to the nearest multiple of \<open>d\<close> since the zero time, halfway values up.\<close>

definition time_Round :: "gotime \<Rightarrow> int \<Rightarrow> gotime" where
  [go_defs]: "time_Round t d =
    (if d \<le> 0 then t
     else let r = (tns t - zero_ns) mod d
          in if r + r < d then time_Add t (- r) else time_Add t (d - r))"

fun loc_offset :: "location \<Rightarrow> int" where
  "loc_offset UTC = 0"
| "loc_offset (Zone i off) = off"

text \<open>
  \<open>time.Date(t.Year(), t.Month(), t.Day(), t.Hour(), 0, 0, 0, t.Location())\<close> (unit 3600) and
  the same without the hour (unit 86400): the civil time of \<open>t\<close> in its location with the
  lower fields zeroed.
\<close>

definition date_trunc :: "int \<Rightarrow> gotime \<Rightarrow> gotime" where
  [go_defs]: "date_trunc unit t =
    (let off = loc_offset (tloc t); civil = Unix t + off
     in Time ((civil - civil mod unit - off) * 1000000000) (tloc t))"

lemma wrap_int64_id: "- (2 ^ 63) \<le> x \<Longrightarrow> x < 2 ^ 63 \<Longrightarrow> wrap_int64 x = x"
  by (simp add: wrap_int64_def)

lemma wrap_int64_range: "- (2 ^ 63) \<le> wrap_int64 x \<and> wrap_int64 x < 2 ^ 63"
  by (simp add: wrap_int64_def)

lemma wrap_int32_id: "- (2 ^ 31) \<le> x \<Longrightarrow> x < 2 ^ 31 \<Longrightarrow> wrap_int32 x = x"
  by (simp add: wrap_int32_def)

lemma wrap_int32_range: "- (2 ^ 31) \<le> wrap_int32 x \<and> wrap_int32 x < 2 ^ 31"
  by (simp add: wrap_int32_def)

lemma to_uint64_id: "0 \<le> x \<Longrightarrow> x < 2 ^ 64 \<Longrightarrow> to_uint64 x = nat x"
  by (simp add: to_uint64_def)

lemma Unix_bounds: "Unix t * 1000000000 \<le> tns t" "tns t < (Unix t + 1) * 1000000000"
  unfolding Unix_def by (presburger, presburger)

lemma time_Round_minute: "tns (time_Round t Minute) mod Minute = 0"
proof -
  define r where "r = (tns t - zero_ns) mod Minute"
  have "zero_ns mod Minute = 0" by (simp add: zero_ns_def Minute_def)
  then have "r mod Minute = tns t mod Minute"
    by (metis r_def mod_mod_trivial mod_diff_right_eq diff_zero)
  then have "(tns t - r) mod Minute = 0"
    by (simp add: mod_eq_dvd_iff dvd_diff_commute flip: dvd_eq_mod_eq_0)
  then have "(tns t - r) mod Minute = 0" "(tns t + (Minute - r)) mod Minute = 0"
    by (simp_all add: algebra_simps) (metis add_diff_eq mod_add_self2 add.commute)
  then show ?thesis
    unfolding time_Round_def Let_def r_def[symmetric] by (simp add: time_Add_def Minute_def)
qed

lemma time_Round_near:
  assumes "0 < d"
  shows "2 * \<bar>tns (time_Round t d) - tns t\<bar> \<le> d"
proof -
  define r where "r = (tns t - zero_ns) mod d"
  have "0 \<le> r" "r < d" using assms by (simp_all add: r_def)
  then show ?thesis
    using assms unfolding time_Round_def Let_def r_def[symmetric] by (auto simp: time_Add_def)
qed

end
