(* ===== verification/Partition.thy ===== *)
theory Partition
  imports GoTime
begin

text \<open>
  \<open>pkg/sloop/store/untyped/partition.go\<close>: partition identifiers. The package variable
  \<open>partitionDuration\<close> is the first argument \<open>pd\<close> (nanoseconds) of the functions that read
  it; a value that is neither an hour nor a day makes them panic, as in the code.
\<close>

definition GetPartitionId :: "int \<Rightarrow> gotime \<Rightarrow> string res" where
  "GetPartitionId pd timestamp =
    (if pd = Hour then
       let rounded = date_trunc 3600 timestamp in Ok (format_012d (to_uint64 (Unix rounded)))
     else if pd = 24 * Hour then
       let rounded = date_trunc 86400 timestamp in Ok (format_012d (to_uint64 (Unix rounded)))
     else Panic ''Invalid partition duration'')"

definition GetTimeForPartition :: "string \<Rightarrow> gotime res" where
  "GetTimeForPartition partitionId =
    bind_res (parse_int64 partitionId) (\<lambda>partInt. Ok (time_UTC (time_Unix UTC partInt 0)))"

definition GetTimeRangeForPartition :: "int \<Rightarrow> string \<Rightarrow> (gotime \<times> gotime) res" where
  "GetTimeRangeForPartition pd partitionId =
    bind_res (GetTimeForPartition partitionId) (\<lambda>oldestTime.
      if pd = Hour then Ok (oldestTime, time_Add oldestTime Hour)
      else if pd = 24 * Hour then Ok (oldestTime, time_Add oldestTime (24 * Hour))
      else Panic ''Invalid partition duration'')"

text \<open>
  The age is the truncated quotient of two durations, converted to a float: the model
  keeps the integer. The code also returns -1 beside the error.
\<close>

definition GetAgeOfPartitionInHours :: "gotime \<Rightarrow> string \<Rightarrow> int res" where
  "GetAgeOfPartitionInHours now partitionId =
    bind_res (GetTimeForPartition partitionId) (\<lambda>timeForPartition.
      let d = time_Sub now timeForPartition
      in Ok (sgn d * (\<bar>d\<bar> div (60 * 60 * 1000000000))))"

text \<open>The two durations \<open>OpenStore\<close> accepts.\<close>

definition valid_pd :: "int \<Rightarrow> bool" where
  "valid_pd pd \<longleftrightarrow> pd = Hour \<or> pd = 24 * Hour"

definition pd_secs :: "int \<Rightarrow> int" where
  [go_defs]: "pd_secs pd = pd div 1000000000"

lemma pd_secs_values: "valid_pd pd \<Longrightarrow> pd_secs pd = 3600 \<or> pd_secs pd = 86400"
  by (auto simp: valid_pd_def pd_secs_def Hour_def)

lemma pd_secs_pos: "valid_pd pd \<Longrightarrow> 0 < pd_secs pd"
  using pd_secs_values by fastforce

lemma pd_secs_mult: "valid_pd pd \<Longrightarrow> pd = pd_secs pd * 1000000000"
  by (auto simp: valid_pd_def pd_secs_def Hour_def)

text \<open>The start, in Unix seconds, of the partition of a second.\<close>

definition part_start :: "int \<Rightarrow> int \<Rightarrow> int" where
  "part_start pd s = s - s mod pd_secs pd"

lemma part_start_le: "valid_pd pd \<Longrightarrow> part_start pd s \<le> s"
  using pd_secs_pos by (simp add: part_start_def)

lemma part_start_gt: "valid_pd pd \<Longrightarrow> s < part_start pd s + pd_secs pd"
  using pd_secs_pos[of pd] by (simp add: part_start_def)

lemma part_start_nonneg: "valid_pd pd \<Longrightarrow> 0 \<le> s \<Longrightarrow> 0 \<le> part_start pd s"
  using pd_secs_pos[of pd] by (simp add: part_start_def zmod_le_nonneg_dividend)

lemma part_start_mod: "part_start pd s mod pd_secs pd = 0"
  by (simp add: part_start_def)

lemma part_start_aligned: "s mod pd_secs pd = 0 \<Longrightarrow> part_start pd s = s"
  by (simp add: part_start_def)

lemma part_start_mono: "valid_pd pd \<Longrightarrow> s \<le> t \<Longrightarrow> part_start pd s \<le> part_start pd t"
proof -
  assume "valid_pd pd" "s \<le> t"
  moreover have "part_start pd x = pd_secs pd * (x div pd_secs pd)" for x
    by (simp add: part_start_def minus_mod_eq_mult_div)
  ultimately show ?thesis
    using pd_secs_pos[of pd] zdiv_mono1[of s t "pd_secs pd"] by simp
qed

lemma GetPartitionId_panic: "\<not> valid_pd pd \<Longrightarrow> GetPartitionId pd t = Panic ''Invalid partition duration''"
  by (simp add: GetPartitionId_def valid_pd_def)

lemma GetPartitionId_utc:
  assumes "valid_pd pd" "tloc t = UTC"
  shows "GetPartitionId pd t = Ok (format_012d (to_uint64 (part_start pd (Unix t))))"
  using assms
  by (auto simp: GetPartitionId_def valid_pd_def part_start_def date_trunc_def Let_def
      Unix_def pd_secs_def Hour_def)

lemma GetPartitionId_valid: "valid_pd pd \<Longrightarrow> \<exists>p. GetPartitionId pd t = Ok p"
  by (auto simp: GetPartitionId_def valid_pd_def Let_def)

lemma GetTimeForPartition_no_panic [simp]: "GetTimeForPartition p \<noteq> Panic m"
  by (simp add: GetTimeForPartition_def bind_res_Panic_iff)

lemma GetTimeForPartition_Ok_iff:
  "GetTimeForPartition p = Ok t \<longleftrightarrow> (\<exists>s. parse_int64 p = Ok s \<and> t = Time (s * 1000000000) UTC)"
  by (auto simp: GetTimeForPartition_def bind_res_Ok_iff time_UTC_def time_Unix_def)

lemma GetTimeRangeForPartition_Ok_iff:
  assumes "valid_pd pd"
  shows "GetTimeRangeForPartition pd p = Ok (lo, hi) \<longleftrightarrow>
    (\<exists>s. parse_int64 p = Ok s \<and> lo = Time (s * 1000000000) UTC \<and> hi = time_Add lo pd)"
  using assms
  by (auto simp: GetTimeRangeForPartition_def bind_res_Ok_iff GetTimeForPartition_Ok_iff valid_pd_def)

lemma parse_partition_id:
  "valid_pd pd \<Longrightarrow> 0 \<le> s \<Longrightarrow> s < 2 ^ 63 \<Longrightarrow>
     parse_int64 (format_012d (to_uint64 (part_start pd s))) = Ok (part_start pd s)"
  using part_start_nonneg[of pd s] part_start_le[of pd s]
  by (simp add: parse_format_012d to_uint64_id)

section \<open>Properties\<close>

text \<open>
  C13: a partition identifier contains the time it was made from. For a UTC time from
  1970 on, \<open>GetTimeRangeForPartition\<close> of \<open>GetPartitionId\<close> is a range of one partition
  duration that starts at a multiple of the duration and contains the time.
\<close>

theorem partition_contains_time:
  assumes "valid_pd pd" "tloc t = UTC" "0 \<le> Unix t" "Unix t < 2 ^ 63"
  shows "\<exists>p lo hi. GetPartitionId pd t = Ok p \<and> GetTimeRangeForPartition pd p = Ok (lo, hi)
    \<and> tns lo \<le> tns t \<and> tns t < tns hi \<and> tns hi = tns lo + pd \<and> tns lo mod pd = 0"
proof -
  let ?s = "part_start pd (Unix t)"
  have rng: "GetTimeRangeForPartition pd (format_012d (to_uint64 ?s))
      = Ok (Time (?s * 1000000000) UTC, Time (?s * 1000000000 + pd) UTC)"
    using parse_partition_id[OF assms(1,3,4)]
    by (simp add: GetTimeRangeForPartition_Ok_iff[OF assms(1)] time_Add_def)
  have lo: "?s * 1000000000 \<le> tns t"
    using part_start_le[OF assms(1), of "Unix t"] Unix_bounds(1)[of t] by linarith
  have "Unix t + 1 \<le> ?s + pd_secs pd" using part_start_gt[OF assms(1), of "Unix t"] by simp
  then have "(Unix t + 1) * 1000000000 \<le> (?s + pd_secs pd) * 1000000000"
    by (intro mult_right_mono) auto
  then have "(Unix t + 1) * 1000000000 \<le> ?s * 1000000000 + pd"
    by (simp add: algebra_simps flip: pd_secs_mult[OF assms(1)])
  then have hi: "tns t < ?s * 1000000000 + pd" using Unix_bounds(2)[of t] by linarith
  have "?s * 1000000000 mod pd = 0"
    using part_start_mod[of pd "Unix t"] pd_secs_mult[OF assms(1)]
    by (metis mult_mod_left mult_zero_left)
  then show ?thesis using rng lo hi GetPartitionId_utc[OF assms(1,2)] by auto
qed

theorem partition_contains_time_witness:
  "\<exists>p lo hi. GetPartitionId Hour (Time 1546398245000000006 UTC) = Ok p
    \<and> GetTimeRangeForPartition Hour p = Ok (lo, hi)
    \<and> tns lo \<le> 1546398245000000006 \<and> 1546398245000000006 < tns hi
    \<and> tns hi = tns lo + Hour \<and> tns lo mod Hour = 0"
  using partition_contains_time[of Hour "Time 1546398245000000006 UTC"]
  by (simp add: valid_pd_def Unix_def)

text \<open>
  Partition identifiers sort as times. Up to ten to the twelfth seconds (the year
  33658) the twelve-digit identifiers of two UTC times compare as strings exactly as the
  starts of their partitions compare as numbers, so the badger key order is the time
  order.
\<close>

lemma partition_ids_sort_as_times:
  assumes "valid_pd pd" "tloc t = UTC" "tloc u = UTC"
    and "0 \<le> Unix t" "Unix t < 10 ^ 12" "0 \<le> Unix u" "Unix u < 10 ^ 12"
    and "GetPartitionId pd t = Ok p" "GetPartitionId pd u = Ok q"
  shows "(p < q \<longleftrightarrow> part_start pd (Unix t) < part_start pd (Unix u))
    \<and> (tns t \<le> tns u \<longrightarrow> p \<le> q) \<and> length p = 12"
proof -
  let ?s = "part_start pd (Unix t)" and ?r = "part_start pd (Unix u)"
  have bs: "0 \<le> ?s" "?s < 10 ^ 12" "0 \<le> ?r" "?r < 10 ^ 12"
    using assms part_start_nonneg[OF assms(1)] part_start_le[OF assms(1), of "Unix t"]
      part_start_le[OF assms(1), of "Unix u"] by auto
  have p: "p = format_012d (nat ?s)" and q: "q = format_012d (nat ?r)"
    using assms bs GetPartitionId_utc[of pd t] GetPartitionId_utc[of pd u]
    by (simp_all add: to_uint64_id)
  have "tns t \<le> tns u \<Longrightarrow> ?s \<le> ?r"
    by (rule part_start_mono[OF assms(1)]) (simp add: Unix_def zdiv_mono1)
  then show ?thesis
    using bs unfolding p q
    by (auto simp: format_012d_less_iff format_012d_le_iff length_format_012d nat_mono)
qed

lemma partition_ids_sort_as_times_witness:
  "(''001564074000'' < ''001564077600'' \<longleftrightarrow> part_start Hour 1564074001 < part_start Hour 1564077601)
    \<and> ''001564074000'' \<le> ''001564077600''
    \<and> length ''001564074000'' = 12"
proof -
  have a: "GetPartitionId Hour (Time 1564074001000000000 UTC) = Ok ''001564074000''"
    and b: "GetPartitionId Hour (Time 1564077601000000000 UTC) = Ok ''001564077600''"
    by (simp_all add: GetPartitionId_def go_defs go_eval Let_def)
  show ?thesis
    using partition_ids_sort_as_times[OF _ _ _ _ _ _ _ a b] by (simp add: valid_pd_def Unix_def)
qed

end
