(* ===== verification/TypedKeys.thy ===== *)
theory TypedKeys
  imports Partition CommonUtil
begin

text \<open>
  The keys of the four tables: \<open>watchtable.go\<close>, \<open>watchactivitytable.go\<close>, \<open>eventcounttable.go\<close>
  and \<open>resourcesummarytable.go\<close> of \<open>pkg/sloop/store/typed\<close>. Every key type has a table name, a
  parser, a printer and a partition setter; the generic table code (theory \<open>TypedTable\<close>) takes
  them as the record \<open>key_ops\<close> and relies on the laws of the locale \<open>table_key\<close>, which each key
  type satisfies (the interpretations \<open>wtk\<close>, \<open>wak\<close>, \<open>eck\<close> and \<open>rsk\<close>).

  \<open>Parse\<close> fills in its receiver. Every caller parses into a fresh key and discards it when
  \<open>Parse\<close> fails, so the model returns the key or the error.
\<close>

record 'k key_ops =
  k_TableName :: string
  k_Parse :: "string \<Rightarrow> 'k res"
  k_String :: "'k \<Rightarrow> string"
  k_SetPartitionId :: "'k \<Rightarrow> string \<Rightarrow> 'k"
  k_PartitionId :: "'k \<Rightarrow> string"

definition k_ValidateKey :: "'k key_ops \<Rightarrow> string \<Rightarrow> unit res" where
  "k_ValidateKey K key = bind_res (k_Parse K key) (\<lambda>_. Ok ())"

text \<open>\<open>fmt.Sprintf("/%v/%v...")\<close>: each part behind a slash.\<close>

definition slashed :: "string list \<Rightarrow> string" where
  "slashed parts = concat (map (\<lambda>p. CHR ''/'' # p) parts)"

lemma slashed_simps: "slashed [] = []" "slashed (p # ps) = CHR ''/'' # p @ slashed ps"
  by (simp_all add: slashed_def)

lemma ParseKey_slashed:
  assumes "\<forall>p \<in> {b, c, d, e, f, g}. CHR ''/'' \<notin> set p"
  shows "ParseKey (slashed [b, c, d, e, f, g]) = (None, [[], b, c, d, e, f, g])"
  using assms by (simp add: ParseKey_ok_iff slashed_simps)

text \<open>
  The common part of the four \<open>Parse\<close> methods: split, check the table name, hand on the five
  remaining parts.
\<close>

definition parse_table_key ::
  "string \<Rightarrow> string \<Rightarrow> (string \<Rightarrow> string \<Rightarrow> string \<Rightarrow> string \<Rightarrow> string \<Rightarrow> 'k res) \<Rightarrow> 'k res" where
  "parse_table_key name key mk =
    (let (err, parts) = ParseKey key
     in case err of
          Some e \<Rightarrow> Err e
        | None \<Rightarrow>
            if parts ! 1 \<noteq> name
            then Err (Errorf (''Second part of key ('' @ key @ '') should be '' @ name))
            else mk (parts ! 2) (parts ! 3) (parts ! 4) (parts ! 5) (parts ! 6))"

lemma parse_table_key_slashed:
  "\<forall>p \<in> {name, c, d, e, f, g}. CHR ''/'' \<notin> set p \<Longrightarrow>
     parse_table_key name (slashed [name, c, d, e, f, g]) mk = mk c d e f g"
  by (simp add: parse_table_key_def ParseKey_slashed)

lemma parse_table_key_OkE:
  assumes "parse_table_key name key mk = Ok k"
  obtains c d e f g where "key = slashed [name, c, d, e, f, g]" "mk c d e f g = Ok k"
    "\<forall>p \<in> {name, c, d, e, f, g}. CHR ''/'' \<notin> set p"
proof (cases key rule: ParseKey_cases)
  case (1 parts e)
  then show ?thesis using assms by (simp add: parse_table_key_def)
next
  case (2 b c d e f g)
  have "b = name" "mk c d e f g = Ok k"
    using assms 2 by (simp_all add: parse_table_key_def split: if_splits)
  moreover have "key = slashed [b, c, d, e, f, g]" "\<forall>p \<in> {b, c, d, e, f, g}. CHR ''/'' \<notin> set p"
    using 2 ParseKey_ok_iff[of key "[[], b, c, d, e, f, g]"] by (simp_all add: slashed_simps)
  ultimately show ?thesis using that by blast
qed

lemma parse_table_key_Panic:
  "(\<And>c d e f g. mk c d e f g \<noteq> Panic m) \<Longrightarrow> parse_table_key name key mk \<noteq> Panic m"
  by (auto simp: parse_table_key_def split: prod.splits option.splits)

section \<open>The watch table's key\<close>

record WatchTableKey =
  wk_PartitionId :: string
  wk_Kind :: string
  wk_Namespace :: string
  wk_Name :: string
  wk_Timestamp :: gotime

definition NewWatchTableKey :: "string \<Rightarrow> string \<Rightarrow> string \<Rightarrow> string \<Rightarrow> gotime \<Rightarrow> WatchTableKey" where
  "NewWatchTableKey partitionId kind namespace name timestamp =
    \<lparr>wk_PartitionId = partitionId, wk_Kind = kind, wk_Namespace = namespace, wk_Name = name,
     wk_Timestamp = timestamp\<rparr>"

definition NewWatchTableKeyComparator :: "string \<Rightarrow> string \<Rightarrow> string \<Rightarrow> gotime \<Rightarrow> WatchTableKey" where
  "NewWatchTableKeyComparator kind namespace name timestamp =
    \<lparr>wk_PartitionId = [], wk_Kind = kind, wk_Namespace = namespace, wk_Name = name,
     wk_Timestamp = timestamp\<rparr>"

definition WatchTableKey_TableName :: string where
  "WatchTableKey_TableName = ''watch''"

definition WatchTableKey_Parse :: "string \<Rightarrow> WatchTableKey res" where
  "WatchTableKey_Parse key =
    parse_table_key WatchTableKey_TableName key (\<lambda>part kind ns name ts.
      case parse_int64 ts of
        Ok tsint \<Rightarrow> Ok \<lparr>wk_PartitionId = part, wk_Kind = kind, wk_Namespace = ns, wk_Name = name,
                       wk_Timestamp = time_UTC (time_Unix UTC 0 tsint)\<rparr>
      | Err e \<Rightarrow> Err (Wrapped e (''Failed to parse timestamp from key: '' @ key))
      | Panic m \<Rightarrow> Panic m)"

definition WatchTableKey_SetPartitionId :: "WatchTableKey \<Rightarrow> string \<Rightarrow> WatchTableKey" where
  "WatchTableKey_SetPartitionId k newPartitionId = k\<lparr>wk_PartitionId := newPartitionId\<rparr>"

definition IsNameAlreadyDelimited :: "WatchTableKey \<Rightarrow> bool" where
  "IsNameAlreadyDelimited k =
    (wk_Name k \<noteq> [] \<and> (last (wk_Name k) = CHR ''.'' \<or> last (wk_Name k) = CHR ''/''))"

definition WatchTableKey_String :: "WatchTableKey \<Rightarrow> string" where
  "WatchTableKey_String k =
    (if wk_Name k = [] \<and> IsZero (wk_Timestamp k) then
       slashed [WatchTableKey_TableName, wk_PartitionId k, wk_Kind k, wk_Namespace k, []]
     else if IsZero (wk_Timestamp k) then
       (if IsNameAlreadyDelimited k then
          slashed [WatchTableKey_TableName, wk_PartitionId k, wk_Kind k, wk_Namespace k, wk_Name k]
        else
          slashed [WatchTableKey_TableName, wk_PartitionId k, wk_Kind k, wk_Namespace k, wk_Name k, []])
     else
       slashed [WatchTableKey_TableName, wk_PartitionId k, wk_Kind k, wk_Namespace k, wk_Name k,
                format_int (UnixNano (wk_Timestamp k))])"

definition watch_key_ops :: "WatchTableKey key_ops" where
  "watch_key_ops = \<lparr>k_TableName = WatchTableKey_TableName, k_Parse = WatchTableKey_Parse,
     k_String = WatchTableKey_String, k_SetPartitionId = WatchTableKey_SetPartitionId,
     k_PartitionId = wk_PartitionId\<rparr>"

section \<open>The watch activity table's key\<close>

record WatchActivityKey =
  wa_PartitionId :: string
  wa_Kind :: string
  wa_Namespace :: string
  wa_Name :: string
  wa_Uid :: string

definition NewWatchActivityKey :: "string \<Rightarrow> string \<Rightarrow> string \<Rightarrow> string \<Rightarrow> string \<Rightarrow> WatchActivityKey" where
  "NewWatchActivityKey partitionId kind namespace name uid =
    \<lparr>wa_PartitionId = partitionId, wa_Kind = kind, wa_Namespace = namespace, wa_Name = name, wa_Uid = uid\<rparr>"

definition NewWatchActivityKeyComparator :: "string \<Rightarrow> string \<Rightarrow> string \<Rightarrow> string \<Rightarrow> WatchActivityKey" where
  "NewWatchActivityKeyComparator kind namespace name uid =
    \<lparr>wa_PartitionId = [], wa_Kind = kind, wa_Namespace = namespace, wa_Name = name, wa_Uid = uid\<rparr>"

definition WatchActivityKey_TableName :: string where
  "WatchActivityKey_TableName = ''watchactivity''"

definition WatchActivityKey_Parse :: "string \<Rightarrow> WatchActivityKey res" where
  "WatchActivityKey_Parse key =
    parse_table_key WatchActivityKey_TableName key (\<lambda>part kind ns name uid.
      Ok \<lparr>wa_PartitionId = part, wa_Kind = kind, wa_Namespace = ns, wa_Name = name, wa_Uid = uid\<rparr>)"

definition WatchActivityKey_String :: "WatchActivityKey \<Rightarrow> string" where
  "WatchActivityKey_String k =
    slashed [WatchActivityKey_TableName, wa_PartitionId k, wa_Kind k, wa_Namespace k, wa_Name k, wa_Uid k]"

definition WatchActivityKey_SetPartitionId :: "WatchActivityKey \<Rightarrow> string \<Rightarrow> WatchActivityKey" where
  "WatchActivityKey_SetPartitionId k newPartitionId = k\<lparr>wa_PartitionId := newPartitionId\<rparr>"

definition activity_key_ops :: "WatchActivityKey key_ops" where
  "activity_key_ops = \<lparr>k_TableName = WatchActivityKey_TableName, k_Parse = WatchActivityKey_Parse,
     k_String = WatchActivityKey_String, k_SetPartitionId = WatchActivityKey_SetPartitionId,
     k_PartitionId = wa_PartitionId\<rparr>"

section \<open>The event count table's key\<close>

record EventCountKey =
  ec_PartitionId :: string
  ec_Kind :: string
  ec_Namespace :: string
  ec_Name :: string
  ec_Uid :: string

definition NewEventCountKey :: "int \<Rightarrow> gotime \<Rightarrow> string \<Rightarrow> string \<Rightarrow> string \<Rightarrow> string \<Rightarrow> EventCountKey res" where
  "NewEventCountKey pd timestamp kind namespace name uid =
    bind_res (GetPartitionId pd timestamp) (\<lambda>partitionId.
      Ok \<lparr>ec_PartitionId = partitionId, ec_Kind = kind, ec_Namespace = namespace, ec_Name = name, ec_Uid = uid\<rparr>)"

definition NewEventCountKeyComparator :: "string \<Rightarrow> string \<Rightarrow> string \<Rightarrow> string \<Rightarrow> EventCountKey" where
  "NewEventCountKeyComparator kind namespace name uid =
    \<lparr>ec_PartitionId = [], ec_Kind = kind, ec_Namespace = namespace, ec_Name = name, ec_Uid = uid\<rparr>"

definition EventCountKey_TableName :: string where
  "EventCountKey_TableName = ''eventcount''"

definition EventCountKey_Parse :: "string \<Rightarrow> EventCountKey res" where
  "EventCountKey_Parse key =
    parse_table_key EventCountKey_TableName key (\<lambda>part kind ns name uid.
      Ok \<lparr>ec_PartitionId = part, ec_Kind = kind, ec_Namespace = ns, ec_Name = name, ec_Uid = uid\<rparr>)"

definition EventCountKey_String :: "EventCountKey \<Rightarrow> string" where
  "EventCountKey_String k =
    (if ec_Uid k = [] then
       slashed [EventCountKey_TableName, ec_PartitionId k, ec_Kind k, ec_Namespace k, ec_Name k]
     else
       slashed [EventCountKey_TableName, ec_PartitionId k, ec_Kind k, ec_Namespace k, ec_Name k, ec_Uid k])"

definition EventCountKey_SetPartitionId :: "EventCountKey \<Rightarrow> string \<Rightarrow> EventCountKey" where
  "EventCountKey_SetPartitionId k newPartitionId = k\<lparr>ec_PartitionId := newPartitionId\<rparr>"

definition event_key_ops :: "EventCountKey key_ops" where
  "event_key_ops = \<lparr>k_TableName = EventCountKey_TableName, k_Parse = EventCountKey_Parse,
     k_String = EventCountKey_String, k_SetPartitionId = EventCountKey_SetPartitionId,
     k_PartitionId = ec_PartitionId\<rparr>"

section \<open>The resource summary table's key\<close>

record ResourceSummaryKey =
  rk_PartitionId :: string
  rk_Kind :: string
  rk_Namespace :: string
  rk_Name :: string
  rk_Uid :: string

definition NewResourceSummaryKey ::
  "int \<Rightarrow> gotime \<Rightarrow> string \<Rightarrow> string \<Rightarrow> string \<Rightarrow> string \<Rightarrow> ResourceSummaryKey res" where
  "NewResourceSummaryKey pd timestamp kind namespace name uid =
    bind_res (GetPartitionId pd timestamp) (\<lambda>partitionId.
      Ok \<lparr>rk_PartitionId = partitionId, rk_Kind = kind, rk_Namespace = namespace, rk_Name = name, rk_Uid = uid\<rparr>)"

definition NewResourceSummaryKeyComparator :: "string \<Rightarrow> string \<Rightarrow> string \<Rightarrow> string \<Rightarrow> ResourceSummaryKey" where
  "NewResourceSummaryKeyComparator kind namespace name uid =
    \<lparr>rk_PartitionId = [], rk_Kind = kind, rk_Namespace = namespace, rk_Name = name, rk_Uid = uid\<rparr>"

definition ResourceSummaryKey_TableName :: string where
  "ResourceSummaryKey_TableName = ''ressum''"

definition ResourceSummaryKey_Parse :: "string \<Rightarrow> ResourceSummaryKey res" where
  "ResourceSummaryKey_Parse key =
    parse_table_key ResourceSummaryKey_TableName key (\<lambda>part kind ns name uid.
      Ok \<lparr>rk_PartitionId = part, rk_Kind = kind, rk_Namespace = ns, rk_Name = name, rk_Uid = uid\<rparr>)"

definition ResourceSummaryKey_String :: "ResourceSummaryKey \<Rightarrow> string" where
  "ResourceSummaryKey_String k =
    (if rk_Uid k = [] then
       slashed [ResourceSummaryKey_TableName, rk_PartitionId k, rk_Kind k, rk_Namespace k, rk_Name k]
     else
       slashed [ResourceSummaryKey_TableName, rk_PartitionId k, rk_Kind k, rk_Namespace k, rk_Name k, rk_Uid k])"

definition ResourceSummaryKey_SetPartitionId :: "ResourceSummaryKey \<Rightarrow> string \<Rightarrow> ResourceSummaryKey" where
  "ResourceSummaryKey_SetPartitionId k newPartitionId = k\<lparr>rk_PartitionId := newPartitionId\<rparr>"

definition ressum_key_ops :: "ResourceSummaryKey key_ops" where
  "ressum_key_ops = \<lparr>k_TableName = ResourceSummaryKey_TableName, k_Parse = ResourceSummaryKey_Parse,
     k_String = ResourceSummaryKey_String, k_SetPartitionId = ResourceSummaryKey_SetPartitionId,
     k_PartitionId = rk_PartitionId\<rparr>"

lemmas table_names = WatchTableKey_TableName_def WatchActivityKey_TableName_def
  EventCountKey_TableName_def ResourceSummaryKey_TableName_def

lemmas key_ops_defs = watch_key_ops_def activity_key_ops_def event_key_ops_def ressum_key_ops_def

section \<open>The contract of a key type\<close>

definition slash_free :: "string list \<Rightarrow> bool" where
  "slash_free ps \<longleftrightarrow> (\<forall>p \<in> set ps. CHR ''/'' \<notin> set p)"

text \<open>
  \<open>wf\<close> are the keys that can be stored. A stored key parses back; whatever parses lies below
  \<open>/table/partition/\<close>; setting the partition sets it and leaves the key storable.
\<close>

locale table_key =
  fixes K :: "'k key_ops" and wf :: "'k \<Rightarrow> bool"
  assumes parse_string: "wf k \<Longrightarrow> k_Parse K (k_String K k) = Ok k"
    and parse_below: "k_Parse K s = Ok k \<Longrightarrow>
        (\<exists>r. s = slashed [k_TableName K, k_PartitionId K k] @ CHR ''/'' # r)
          \<and> CHR ''/'' \<notin> set (k_PartitionId K k)"
    and parse_no_panic: "k_Parse K s \<noteq> Panic m"
    and name_slash_free: "CHR ''/'' \<notin> set (k_TableName K)"
    and set_part: "k_PartitionId K (k_SetPartitionId K k p) = p"
    and set_part_twice: "k_SetPartitionId K (k_SetPartitionId K k p) q = k_SetPartitionId K k q"
    and set_part_wf: "wf k \<Longrightarrow> CHR ''/'' \<notin> set p \<Longrightarrow> wf (k_SetPartitionId K k p)"
begin

lemma validate_ok_iff: "k_ValidateKey K s = Ok () \<longleftrightarrow> (\<exists>k. k_Parse K s = Ok k)"
  by (auto simp: k_ValidateKey_def bind_res_Ok_iff)

lemma validate_no_panic: "k_ValidateKey K s \<noteq> Panic m"
  by (simp add: k_ValidateKey_def bind_res_Panic_iff parse_no_panic)

lemma validate_string: "wf k \<Longrightarrow> k_ValidateKey K (k_String K k) = Ok ()"
  using parse_string validate_ok_iff by blast

lemma string_inj: "wf k \<Longrightarrow> wf l \<Longrightarrow> k_String K k = k_String K l \<longleftrightarrow> k = l"
  using parse_string by (metis res.inject(1))

lemma parse_table_prefix: "k_Parse K s = Ok k \<Longrightarrow> prefix (slashed [k_TableName K] @ ''/'') s"
  using parse_below[of s k] by (auto simp: prefix_def slashed_simps)

text \<open>Keys of one table are ordered by their partitions, when the identifiers are numbers.\<close>

lemma partition_order:
  assumes "k_Parse K s = Ok k" "k_Parse K t = Ok l" "s \<le> t"
    and "\<forall>c \<in> set (k_PartitionId K k). is_digit c" "\<forall>c \<in> set (k_PartitionId K l). is_digit c"
  shows "k_PartitionId K k \<le> k_PartitionId K l"
proof -
  have slash_less: "CHR ''/'' < c" if "is_digit c" for c
    using that by (simp add: is_digit_def less_char_def)
  have ord: "p @ CHR ''/'' # u \<le> q @ CHR ''/'' # v \<Longrightarrow> p \<le> q"
    if "\<forall>c \<in> set p. CHR ''/'' < c" "\<forall>c \<in> set q. CHR ''/'' < c" for p q u v
    using that
  proof (induction p arbitrary: q)
    case (Cons a p)
    then show ?case by (cases q) auto
  qed simp
  obtain u v where "s = slashed [k_TableName K] @ CHR ''/'' # k_PartitionId K k @ CHR ''/'' # u"
    "t = slashed [k_TableName K] @ CHR ''/'' # k_PartitionId K l @ CHR ''/'' # v"
    using parse_below[OF assms(1)] parse_below[OF assms(2)] by (auto simp: slashed_simps)
  then have "k_PartitionId K k @ CHR ''/'' # u \<le> k_PartitionId K l @ CHR ''/'' # v"
    using assms(3) by (simp add: prefix_le_append)
  then show ?thesis using ord assms(4,5) slash_less by blast
qed

end

section \<open>The four key types meet it\<close>

definition watch_key_wf :: "WatchTableKey \<Rightarrow> bool" where
  "watch_key_wf k \<longleftrightarrow> slash_free [wk_PartitionId k, wk_Kind k, wk_Namespace k, wk_Name k]
     \<and> \<not> IsZero (wk_Timestamp k) \<and> tloc (wk_Timestamp k) = UTC
     \<and> - (2 ^ 63) \<le> tns (wk_Timestamp k) \<and> tns (wk_Timestamp k) < 2 ^ 63"

definition activity_key_wf :: "WatchActivityKey \<Rightarrow> bool" where
  "activity_key_wf k \<longleftrightarrow>
     slash_free [wa_PartitionId k, wa_Kind k, wa_Namespace k, wa_Name k, wa_Uid k]"

definition event_key_wf :: "EventCountKey \<Rightarrow> bool" where
  "event_key_wf k \<longleftrightarrow>
     slash_free [ec_PartitionId k, ec_Kind k, ec_Namespace k, ec_Name k, ec_Uid k] \<and> ec_Uid k \<noteq> []"

definition ressum_key_wf :: "ResourceSummaryKey \<Rightarrow> bool" where
  "ressum_key_wf k \<longleftrightarrow>
     slash_free [rk_PartitionId k, rk_Kind k, rk_Namespace k, rk_Name k, rk_Uid k] \<and> rk_Uid k \<noteq> []"

lemmas key_wf_defs = watch_key_wf_def activity_key_wf_def event_key_wf_def ressum_key_wf_def
  slash_free_def

interpretation wtk: table_key watch_key_ops watch_key_wf
proof (unfold_locales, goal_cases)
  case (1 k)
  obtain p kd ns nm ts where k: "k = \<lparr>wk_PartitionId = p, wk_Kind = kd, wk_Namespace = ns, wk_Name = nm, wk_Timestamp = ts\<rparr>"
    by (cases k)
  obtain n where ts: "ts = Time n UTC" "- (2 ^ 63) \<le> n" "n < 2 ^ 63" "\<not> IsZero ts"
    using 1 k by (cases ts) (auto simp: key_wf_defs)
  have "parse_int64 (format_int (UnixNano ts)) = Ok n"
    using ts by (simp add: UnixNano_def wrap_int64_id parse_format_int)
  then show ?case
    using 1 ts format_int_no_slash
    by (simp add: key_ops_defs WatchTableKey_Parse_def WatchTableKey_String_def k key_wf_defs
        parse_table_key_slashed table_names time_UTC_def time_Unix_def)
next
  case (2 s k)
  then show ?case
    by (auto simp: key_ops_defs WatchTableKey_Parse_def slashed_simps
        elim!: parse_table_key_OkE split: res.splits)
next
  case (3 s m)
  then show ?case
    by (auto simp: key_ops_defs WatchTableKey_Parse_def intro!: parse_table_key_Panic split: res.splits)
next
  case 4 then show ?case by (simp add: key_ops_defs table_names)
next
  case 5 then show ?case by (simp add: key_ops_defs WatchTableKey_SetPartitionId_def)
next
  case 6 then show ?case by (simp add: key_ops_defs WatchTableKey_SetPartitionId_def)
next
  case 7 then show ?case by (simp add: key_ops_defs WatchTableKey_SetPartitionId_def key_wf_defs)
qed

interpretation wak: table_key activity_key_ops activity_key_wf
proof (unfold_locales, goal_cases)
  case (2 s k)
  then show ?case
    by (auto simp: key_ops_defs WatchActivityKey_Parse_def slashed_simps elim!: parse_table_key_OkE)
qed (auto simp: key_ops_defs WatchActivityKey_Parse_def WatchActivityKey_String_def WatchActivityKey_SetPartitionId_def
    key_wf_defs table_names parse_table_key_slashed parse_table_key_Panic)

interpretation eck: table_key event_key_ops event_key_wf
proof (unfold_locales, goal_cases)
  case (2 s k)
  then show ?case
    by (auto simp: key_ops_defs EventCountKey_Parse_def slashed_simps elim!: parse_table_key_OkE)
qed (auto simp: key_ops_defs EventCountKey_Parse_def EventCountKey_String_def EventCountKey_SetPartitionId_def
    key_wf_defs table_names parse_table_key_slashed parse_table_key_Panic)

interpretation rsk: table_key ressum_key_ops ressum_key_wf
proof (unfold_locales, goal_cases)
  case (2 s k)
  then show ?case
    by (auto simp: key_ops_defs ResourceSummaryKey_Parse_def slashed_simps elim!: parse_table_key_OkE)
qed (auto simp: key_ops_defs ResourceSummaryKey_Parse_def ResourceSummaryKey_String_def ResourceSummaryKey_SetPartitionId_def
    key_wf_defs table_names parse_table_key_slashed parse_table_key_Panic)

end
