(* ===== verification/TypedTable.thy ===== *)
theory TypedTable
  imports DbUtil TypedKeys
begin

text \<open>
  \<open>pkg/sloop/store/typed/tabletemplate.go\<close> and what genny generates from it (\<open>watchtablegen.go\<close>
  and its three siblings): a table over the store. The type parameters of the template are the
  arguments \<open>B\<close> (the store), \<open>K\<close> (the key type's methods) and \<open>C\<close> (the protobuf codec of the value
  type, which is not part of the repository). \<open>pd\<close> is the partition duration. A function whose loop
  may not end returns an option; a function that may panic returns a result.
\<close>

record 'v codec =
  c_Marshal :: "'v \<Rightarrow> string res"
  c_Unmarshal :: "string \<Rightarrow> 'v res"

definition OpenTable :: "'k key_ops \<Rightarrow> string" where
  "OpenTable K = k_TableName K"

section \<open>Single rows\<close>

definition tbl_Set ::
  "('db, 'txn, 'it) badger \<Rightarrow> 'k key_ops \<Rightarrow> 'v codec \<Rightarrow> 'txn \<Rightarrow> string \<Rightarrow> 'v \<Rightarrow> unit res \<times> 'txn" where
  "tbl_Set B K C txn key val =
    (case k_ValidateKey K key of
       Err e \<Rightarrow> (Err (Wrapped e (''invalid key for table '' @ OpenTable K @ '': '' @ key)), txn)
     | Panic m \<Rightarrow> (Panic m, txn)
     | Ok _ \<Rightarrow>
        (case c_Marshal C val of
           Err e \<Rightarrow> (Err (Wrapped e (''protobuf marshal for table '' @ OpenTable K @ '' failed'')), txn)
         | Panic m \<Rightarrow> (Panic m, txn)
         | Ok outb \<Rightarrow>
            (case tx_Set B txn key outb of
               (Some e, txn') \<Rightarrow> (Err (Wrapped e (''set for table '' @ OpenTable K @ '' failed'')), txn')
             | (None, txn') \<Rightarrow> (Ok (), txn'))))"

definition tbl_Get ::
  "('db, 'txn, 'it) badger \<Rightarrow> 'k key_ops \<Rightarrow> 'v codec \<Rightarrow> 'txn \<Rightarrow> string \<Rightarrow> 'v res" where
  "tbl_Get B K C txn key =
    (case k_ValidateKey K key of
       Err e \<Rightarrow> Err (Wrapped e (''invalid key for table '' @ OpenTable K @ '': '' @ key))
     | Panic m \<Rightarrow> Panic m
     | Ok _ \<Rightarrow>
        (case tx_Get B txn key of
           Err e \<Rightarrow> if e = ErrKeyNotFound then Err e
                    else Err (Wrapped e (''get failed for table '' @ OpenTable K))
         | Panic m \<Rightarrow> Panic m
         | Ok im \<Rightarrow>
            bind_res
              (map_err (\<lambda>e. Wrapped e (''value copy failed for table '' @ OpenTable K)) (im_ValueCopy B im))
              (\<lambda>valueBytes.
                map_err (\<lambda>e. Wrapped e (''protobuf unmarshal failed for table '' @ OpenTable K
                    @ '' on value length '' @ format_int (int (length valueBytes))))
                  (c_Unmarshal C valueBytes))))"

section \<open>The first and the last key\<close>

text \<open>\<open>string(rune(255))\<close> is the UTF-8 encoding of U+00FF: two bytes.\<close>

definition rune255 :: string where
  "rune255 = [CHR 0xC3, CHR 0xBF]"

definition table_prefix :: "'k key_ops \<Rightarrow> string" where
  "table_prefix K = ''/'' @ OpenTable K @ ''/''"

definition current_key :: "('db, 'txn, 'it) badger \<Rightarrow> 'it \<Rightarrow> string res" where
  "current_key B it =
    (case it_Item B it of None \<Rightarrow> Panic ''nil item'' | Some im \<Rightarrow> Ok (item_key im))"

definition GetMinKey :: "('db, 'txn, 'it) badger \<Rightarrow> 'k key_ops \<Rightarrow> 'txn \<Rightarrow> (bool \<times> string) res" where
  "GetMinKey B K txn =
    (let keyPrefix = table_prefix K;
         iterOpt = DefaultIteratorOptions\<lparr>opt_Prefix := keyPrefix\<rparr>;
         iterator = it_Seek B (tx_NewIterator B txn iterOpt) keyPrefix
     in if \<not> it_ValidForPrefix B iterator keyPrefix then Ok (False, [])
        else bind_res (current_key B iterator) (\<lambda>k. Ok (True, k)))"

definition GetMaxKey :: "('db, 'txn, 'it) badger \<Rightarrow> 'k key_ops \<Rightarrow> 'txn \<Rightarrow> (bool \<times> string) res" where
  "GetMaxKey B K txn =
    (let keyPrefix = table_prefix K;
         iterOpt = DefaultIteratorOptions\<lparr>opt_Prefix := keyPrefix, opt_Reverse := True\<rparr>;
         iterator = it_Seek B (tx_NewIterator B txn iterOpt) (keyPrefix @ rune255)
     in if \<not> it_Valid B iterator then Ok (False, [])
        else bind_res (current_key B iterator) (\<lambda>k. Ok (True, k)))"

text \<open>A key that does not parse makes the program panic.\<close>

definition key_partition :: "'k key_ops \<Rightarrow> bool \<times> string \<Rightarrow> (bool \<times> string) res" where
  "key_partition K okkey =
    (case okkey of (ok, keyStr) \<Rightarrow>
       if \<not> ok then Ok (False, [])
       else (case k_Parse K keyStr of
               Ok k \<Rightarrow> Ok (True, k_PartitionId K k)
             | Err e \<Rightarrow> Panic (''invalid key in table: '' @ OpenTable K @ '' key: '' @ keyStr)
             | Panic m \<Rightarrow> Panic m))"

definition GetMinPartition :: "('db, 'txn, 'it) badger \<Rightarrow> 'k key_ops \<Rightarrow> 'txn \<Rightarrow> (bool \<times> string) res" where
  "GetMinPartition B K txn = bind_res (GetMinKey B K txn) (key_partition K)"

definition GetMaxPartition :: "('db, 'txn, 'it) badger \<Rightarrow> 'k key_ops \<Rightarrow> 'txn \<Rightarrow> (bool \<times> string) res" where
  "GetMaxPartition B K txn = bind_res (GetMaxKey B K txn) (key_partition K)"

definition GetMinMaxPartitions ::
  "('db, 'txn, 'it) badger \<Rightarrow> 'k key_ops \<Rightarrow> 'txn \<Rightarrow> (bool \<times> string \<times> string) res" where
  "GetMinMaxPartitions B K txn =
    bind_res (GetMinPartition B K txn) (\<lambda>(minPartitionOk, minPar).
      if \<not> minPartitionOk then Ok (False, [], [])
      else bind_res (GetMaxPartition B K txn) (\<lambda>(maxPartitionOk, maxPar).
        Ok (maxPartitionOk, minPar, maxPar)))"

section \<open>Lists of partitions\<close>

text \<open>
  The loop \<open>for curPar := ...; curPar <= maxPar\<close> of both partition lists. The list collected
  so far is returned beside the error.
\<close>

partial_function (option) partition_walk ::
  "int \<Rightarrow> string \<Rightarrow> string \<Rightarrow> string list \<Rightarrow> (string list \<times> gerror option) res option" where
  "partition_walk pd curPar maxPar resources =
    (if curPar \<le> maxPar then
       (case parse_int64 curPar of
          Err e \<Rightarrow> Some (Ok (resources @ [curPar], Some (Wrapped e (''failed to get partition:'' @ curPar))))
        | Panic m \<Rightarrow> Some (Panic m)
        | Ok partInt \<Rightarrow>
            (case GetPartitionId pd (time_Add (time_UTC (time_Unix UTC partInt 0)) pd) of
               Ok nextPar \<Rightarrow> partition_walk pd nextPar maxPar (resources @ [curPar])
             | Err e \<Rightarrow> Some (Err e)
             | Panic m \<Rightarrow> Some (Panic m)))
     else Some (Ok (resources, None)))"

definition GetUniquePartitionList ::
  "('db, 'txn, 'it) badger \<Rightarrow> 'k key_ops \<Rightarrow> int \<Rightarrow> 'txn \<Rightarrow> (string list \<times> gerror option) res option" where
  "GetUniquePartitionList B K pd txn =
    (case GetMinMaxPartitions B K txn of
       Ok (ok, minPar, maxPar) \<Rightarrow>
         if ok then partition_walk pd minPar maxPar [] else Some (Ok ([], None))
     | Err e \<Rightarrow> Some (Err e)
     | Panic m \<Rightarrow> Some (Panic m))"

definition GetPartitionsFromTimeRange ::
  "int \<Rightarrow> gotime \<Rightarrow> gotime \<Rightarrow> (string list \<times> gerror option) res option" where
  "GetPartitionsFromTimeRange pd startTime endTime =
    (case GetPartitionId pd startTime of
       Ok startPartition \<Rightarrow>
         (case GetPartitionId pd endTime of
            Ok endPartition \<Rightarrow> partition_walk pd startPartition endPartition []
          | Err e \<Rightarrow> Some (Err e)
          | Panic m \<Rightarrow> Some (Panic m))
     | Err e \<Rightarrow> Some (Err e)
     | Panic m \<Rightarrow> Some (Panic m))"

section \<open>The previous key\<close>

text \<open>
  Both functions take pointers to the key and to the comparator and write partitions into
  them, so they return the two keys beside the result. \<open>None\<close> stands for the result "not found".
\<close>

definition getLastMatchingKeyInPartition ::
  "('db, 'txn, 'it) badger \<Rightarrow> 'k key_ops \<Rightarrow> 'txn \<Rightarrow> string \<Rightarrow> 'k \<Rightarrow> 'k \<Rightarrow> 'k option res \<times> 'k \<times> 'k" where
  "getLastMatchingKeyInPartition B K txn curPartition curKey keyComparator =
    (let itr = tx_NewIterator B txn (DefaultIteratorOptions\<lparr>opt_Reverse := True\<rparr>);
         oldKey = k_String K curKey;
         curKey' = k_SetPartitionId K curKey curPartition;
         keyComparator' = k_SetPartitionId K keyComparator curPartition;
         itr1 = it_Seek B itr (k_String K curKey' @ rune255);
         itr2 = (if it_Valid B itr1 \<and> current_key B itr1 = Ok oldKey then it_Next B itr1 else itr1)
     in (if it_ValidForPrefix B itr2 (k_String K keyComparator')
         then bind_res (current_key B itr2) (\<lambda>s. bind_res (k_Parse K s) (\<lambda>k. Ok (Some k)))
         else Ok None, curKey', keyComparator'))"

text \<open>The error message of the last case leaves out the printed comparator.\<close>

fun previous_key_in ::
  "('db, 'txn, 'it) badger \<Rightarrow> 'k key_ops \<Rightarrow> 'txn \<Rightarrow> string \<Rightarrow> string list \<Rightarrow> 'k \<Rightarrow> 'k \<Rightarrow> 'k res \<times> 'k \<times> 'k" where
  "previous_key_in B K txn currentPartition [] key keyComparator =
    (Err (Errorf (''failed to get any previous key in table:'' @ OpenTable K @ '', for key:'' @ k_String K key)),
     key, keyComparator)"
| "previous_key_in B K txn currentPartition (prePart # parts) key keyComparator =
    (if prePart > currentPartition then previous_key_in B K txn currentPartition parts key keyComparator
     else (case getLastMatchingKeyInPartition B K txn prePart key keyComparator of
             (Ok (Some prevKey), key', keyComparator') \<Rightarrow> (Ok prevKey, key', keyComparator')
           | (Ok None, key', keyComparator') \<Rightarrow>
               previous_key_in B K txn currentPartition parts key' keyComparator'
           | (Err e, key', keyComparator') \<Rightarrow>
               (Err (Wrapped e (''Failure getting previous key for '' @ k_String K key'
                 @ '', for partition id:'' @ prePart)), key', keyComparator')
           | (Panic m, key', keyComparator') \<Rightarrow> (Panic m, key', keyComparator')))"

definition GetPreviousKey ::
  "('db, 'txn, 'it) badger \<Rightarrow> 'k key_ops \<Rightarrow> int \<Rightarrow> 'txn \<Rightarrow> 'k \<Rightarrow> 'k \<Rightarrow> ('k res \<times> 'k \<times> 'k) option" where
  "GetPreviousKey B K pd txn key keyComparator =
    map_option (\<lambda>r. case r of
        Ok (partitionList, None) \<Rightarrow>
          previous_key_in B K txn (k_PartitionId K key) (rev partitionList) key keyComparator
      | Ok (partitionList, Some e) \<Rightarrow>
          (Err (Wrapped e (''failed to get partition list from table:'' @ OpenTable K)), key, keyComparator)
      | Err e \<Rightarrow> (Err e, key, keyComparator)
      | Panic m \<Rightarrow> (Panic m, key, keyComparator))
    (GetUniquePartitionList B K pd txn)"

section \<open>Reading a time range\<close>

text \<open>The statistics without the elapsed time.\<close>

record RangeReadStats =
  rs_TableName :: string
  rs_PartitionCount :: int
  rs_RowsVisitedCount :: int
  rs_RowsPassedKeyPredicateCount :: int
  rs_RowsPassedValuePredicateCount :: int

definition no_stats :: RangeReadStats where
  "no_stats = \<lparr>rs_TableName = [], rs_PartitionCount = 0, rs_RowsVisitedCount = 0,
     rs_RowsPassedKeyPredicateCount = 0, rs_RowsPassedValuePredicateCount = 0\<rparr>"

text \<open>
  The result is the map of rows (an association list with distinct keys) and the statistics.
  Some callers pass a key predicate that records what it sees, so a predicate carries a state,
  which is part of the result; \<open>None\<close> is the nil predicate.
\<close>

type_synonym 'p keypred = "(string \<Rightarrow> 'p \<Rightarrow> bool \<times> 'p) option"
type_synonym ('k, 'v, 'p) rows = "('k \<times> 'v) list \<times> RangeReadStats \<times> 'p"
type_synonym ('k, 'v, 'p) rr_result = "(('k, 'v, 'p) rows \<times> gerror option) res"

definition range_row ::
  "('db, 'txn, 'it) badger \<Rightarrow> 'k key_ops \<Rightarrow> 'v codec \<Rightarrow> 'p keypred \<Rightarrow> ('v \<Rightarrow> bool) option \<Rightarrow>
     store_item \<Rightarrow> ('k, 'v, 'p) rows \<Rightarrow> (('k, 'v, 'p) rows, ('k, 'v, 'p) rr_result) flow" where
  "range_row B K C keyPredicateFn valPredicateFn im = (\<lambda>(resources, stats, ps).
    let stats1 = stats\<lparr>rs_RowsVisitedCount := rs_RowsVisitedCount stats + 1\<rparr>;
        (keep, ps1) = (case keyPredicateFn of None \<Rightarrow> (True, ps) | Some f \<Rightarrow> f (item_key im) ps)
    in if \<not> keep then Continue (resources, stats1, ps1)
       else case k_Parse K (item_key im) of
         Err e \<Rightarrow> Return (Ok (([], stats1, ps1), Some e))
       | Panic m \<Rightarrow> Return (Panic m)
       | Ok key \<Rightarrow>
         let stats2 = stats1\<lparr>rs_RowsPassedKeyPredicateCount := rs_RowsPassedKeyPredicateCount stats1 + 1\<rparr>
         in case bind_res (im_ValueCopy B im) (c_Unmarshal C) of
              Err e \<Rightarrow> Return (Ok (([], stats2, ps1), Some e))
            | Panic m \<Rightarrow> Return (Panic m)
            | Ok retValue \<Rightarrow>
                if (case valPredicateFn of None \<Rightarrow> False | Some f \<Rightarrow> \<not> f retValue)
                then Continue (resources, stats2, ps1)
                else Continue (AList.update key retValue resources,
                  stats2\<lparr>rs_RowsPassedValuePredicateCount := rs_RowsPassedValuePredicateCount stats2 + 1\<rparr>, ps1))"

definition seek_string :: "'k key_ops \<Rightarrow> 'k option \<Rightarrow> string \<Rightarrow> string" where
  "seek_string K keyPrefix currentPartition =
    (case keyPrefix of
       None \<Rightarrow> ''/'' @ OpenTable K @ ''/'' @ currentPartition @ ''/''
     | Some k \<Rightarrow> k_String K (k_SetPartitionId K k currentPartition))"

fun range_partitions ::
  "('db, 'txn, 'it) badger \<Rightarrow> 'k key_ops \<Rightarrow> 'v codec \<Rightarrow> 'txn \<Rightarrow> 'k option \<Rightarrow> 'p keypred \<Rightarrow> ('v \<Rightarrow> bool) option \<Rightarrow>
     string list \<Rightarrow> ('k, 'v, 'p) rows \<Rightarrow> (('k, 'v, 'p) rows + ('k, 'v, 'p) rr_result) option" where
  "range_partitions B K C txn keyPrefix kp vp [] s = Some (Inl s)"
| "range_partitions B K C txn keyPrefix kp vp (currentPartition # parts) s =
    (let seekStr = seek_string K keyPrefix currentPartition;
         itr = tx_NewIterator B txn (DefaultIteratorOptions\<lparr>opt_Prefix := seekStr\<rparr>)
     in Option.bind
          (iter_loop (\<lambda>i. it_ValidForPrefix B i seekStr) (it_Next B) (on_item B (range_row B K C kp vp))
            (it_Seek B itr seekStr) s)
          (\<lambda>r. case r of
             Inl s' \<Rightarrow> range_partitions B K C txn
               (map_option (\<lambda>k. k_SetPartitionId K k currentPartition) keyPrefix) kp vp parts s'
           | Inr out \<Rightarrow> Some (Inr out)))"

definition RangeRead ::
  "('db, 'txn, 'it) badger \<Rightarrow> 'k key_ops \<Rightarrow> 'v codec \<Rightarrow> int \<Rightarrow> 'txn \<Rightarrow> 'k option \<Rightarrow> 'p keypred \<Rightarrow> 'p \<Rightarrow>
     ('v \<Rightarrow> bool) option \<Rightarrow> gotime \<Rightarrow> gotime \<Rightarrow> ('k, 'v, 'p) rr_result option" where
  "RangeRead B K C pd txn keyPrefix keyPredicateFn ps valPredicateFn startTime endTime =
    Option.bind (GetPartitionsFromTimeRange pd startTime endTime) (\<lambda>r. case r of
      Ok (partitionList, err) \<Rightarrow>
        (let stats = no_stats\<lparr>rs_PartitionCount := int (length partitionList)\<rparr>
         in case err of
              Some e \<Rightarrow> Some (Ok (([], stats, ps),
                Some (Wrapped e (''failed to get partitions from table:'' @ OpenTable K))))
            | None \<Rightarrow>
                map_option (\<lambda>q. case q of
                    Inl (resources, stats', ps') \<Rightarrow>
                      Ok ((resources, stats'\<lparr>rs_TableName := k_TableName K\<rparr>, ps'), None)
                  | Inr out \<Rightarrow> out)
                (range_partitions B K C txn keyPrefix keyPredicateFn valPredicateFn partitionList ([], stats, ps)))
    | Err e \<Rightarrow> Some (Err e)
    | Panic m \<Rightarrow> Some (Panic m))"

fun ValPredicateFns :: "('v \<Rightarrow> bool) list \<Rightarrow> 'v \<Rightarrow> bool" where
  "ValPredicateFns [] result = True"
| "ValPredicateFns (thisFn # valFn) result = (if \<not> thisFn result then False else ValPredicateFns valFn result)"

fun KeyPredicateFns :: "(string \<Rightarrow> bool) list \<Rightarrow> string \<Rightarrow> bool" where
  "KeyPredicateFns [] result = True"
| "KeyPredicateFns (thisFn # keyFn) result = (if \<not> thisFn result then False else KeyPredicateFns keyFn result)"

section \<open>All keys of the latest partitions\<close>

fun all_keys_loop ::
  "('db, 'txn, 'it) badger \<Rightarrow> 'k key_ops \<Rightarrow> 'db \<Rightarrow> int \<Rightarrow> string \<Rightarrow> string list \<Rightarrow> 'k \<Rightarrow> int \<Rightarrow> string list
     \<Rightarrow> string list res option" where
  "all_keys_loop B K db maxNumberOfKeys keyPrefix [] key cnt keys = Some (Ok keys)"
| "all_keys_loop B K db maxNumberOfKeys keyPrefix (prePart # parts) key cnt keys =
    (let key' = k_SetPartitionId K key prePart;
         keyValue = trim_right CHR ''/'' (k_String K key') @ keyPrefix
     in Option.bind (GetKeysForPrefix B db keyValue) (\<lambda>r. case r of
          Ok ks \<Rightarrow>
            let keys' = keys @ ks; cnt' = cnt + int (length keys')
            in if maxNumberOfKeys \<le> cnt' then Some (Ok keys')
               else all_keys_loop B K db maxNumberOfKeys keyPrefix parts key' cnt' keys'
        | Err e \<Rightarrow> Some (Err e)
        | Panic m \<Rightarrow> Some (Panic m)))"

definition GetAllKeysForGivenPartitions ::
  "('db, 'txn, 'it) badger \<Rightarrow> 'k key_ops \<Rightarrow> int \<Rightarrow> 'db \<Rightarrow> 'k \<Rightarrow> int \<Rightarrow> int \<Rightarrow> string \<Rightarrow> string list res option" where
  "GetAllKeysForGivenPartitions B K pd db key maxNumberOfKeys lookBack keyPrefix =
    Option.bind (db_View B db (GetUniquePartitionList B K pd)) (\<lambda>r. case r of
      Ok (partitionList, err) \<Rightarrow>
        all_keys_loop B K db maxNumberOfKeys keyPrefix (take (nat lookBack) (rev partitionList)) key 0 []
    | Err e \<Rightarrow> Some (Err e)
    | Panic m \<Rightarrow> Some (Panic m))"

section \<open>Walking over partitions\<close>

text \<open>The identifier of the partition that starts at a second.\<close>

definition pid :: "int \<Rightarrow> string" where
  "pid s = format_012d (nat s)"

lemma next_partition:
  assumes "valid_pd pd" "0 \<le> s" "s mod pd_secs pd = 0" "s + pd_secs pd < 10 ^ 12"
  shows "parse_int64 (pid s) = Ok s"
    and "GetPartitionId pd (time_Add (time_UTC (time_Unix UTC s 0)) pd) = Ok (pid (s + pd_secs pd))"
proof -
  have n: "nat s < 2 ^ 63" using assms(4) pd_secs_pos[OF assms(1)] by simp
  show "parse_int64 (pid s) = Ok s"
    using parse_format_012d[OF n] assms(2) by (simp add: pid_def)
  let ?t = "time_Add (time_UTC (time_Unix UTC s 0)) pd"
  have u: "Unix ?t = s + pd_secs pd"
    using pd_secs_mult[OF assms(1)]
    by (simp add: time_Add_def time_UTC_def time_Unix_def Unix_def)
  have "part_start pd (s + pd_secs pd) = s + pd_secs pd"
    using assms(3) by (intro part_start_aligned) simp
  then show "GetPartitionId pd ?t = Ok (pid (s + pd_secs pd))"
    using GetPartitionId_utc[OF assms(1), of ?t] u assms(2,4) pd_secs_pos[OF assms(1)]
    by (simp add: time_Add_def time_UTC_def time_Unix_def pid_def to_uint64_id)
qed

lemma pid_le_iff: "0 \<le> s \<Longrightarrow> s < 10 ^ 12 \<Longrightarrow> 0 \<le> t \<Longrightarrow> t < 10 ^ 12 \<Longrightarrow> pid s \<le> pid t \<longleftrightarrow> s \<le> t"
  by (simp add: pid_def format_012d_le_iff nat_le_eq_zle)

lemma pid_inj: "0 \<le> s \<Longrightarrow> 0 \<le> t \<Longrightarrow> pid s = pid t \<longleftrightarrow> s = t"
  by (auto simp: pid_def format_012d_inj)

text \<open>The starts of the partitions from \<open>s\<close> to \<open>t\<close>.\<close>

definition part_starts :: "int \<Rightarrow> int \<Rightarrow> int \<Rightarrow> int list" where
  "part_starts pd s t = map (\<lambda>i. s + int i * pd_secs pd) [0..<nat ((t - s) div pd_secs pd + 1)]"

lemma part_starts_empty: "valid_pd pd \<Longrightarrow> t < s \<Longrightarrow> part_starts pd s t = []"
  using pd_secs_pos[of pd] div_neg_pos_less0[of "t - s" "pd_secs pd"] by (simp add: part_starts_def)

lemma part_starts_Cons:
  assumes "valid_pd pd" "s \<le> t"
  shows "part_starts pd s t = s # part_starts pd (s + pd_secs pd) t"
proof -
  let ?d = "pd_secs pd"
  have d: "0 < ?d" using pd_secs_pos assms(1) .
  define q where "q = (t - s) div ?d"
  have "0 \<le> q" using assms(2) d by (simp add: q_def pos_imp_zdiv_nonneg_iff)
  moreover have "(t - (s + ?d)) div ?d = q - 1"
    using d div_add_self2[of ?d "t - s - ?d"] by (simp add: q_def algebra_simps)
  ultimately have "nat (q + 1) = Suc (nat ((t - (s + ?d)) div ?d + 1))" by simp
  then show ?thesis
    by (simp add: part_starts_def q_def[symmetric] upt_conv_Cons map_Suc_upt[symmetric] algebra_simps
        del: upt_Suc)
qed

lemma set_part_starts:
  assumes "valid_pd pd"
  shows "set (part_starts pd s t) = {u. s \<le> u \<and> u \<le> t \<and> (u - s) mod pd_secs pd = 0}"
proof -
  let ?d = "pd_secs pd"
  have d: "0 < ?d" using pd_secs_pos assms .
  show ?thesis
  proof (intro equalityI subsetI)
    fix u assume "u \<in> set (part_starts pd s t)"
    then obtain i where i: "u = s + int i * ?d" "i \<in> {0..<nat ((t - s) div ?d + 1)}"
      by (auto simp only: part_starts_def set_map set_upt)
    have "int i \<le> (t - s) div ?d" using i(2) by (simp add: nat_less_iff zless_nat_eq_int_zless)
    then have "int i * ?d \<le> (t - s) div ?d * ?d" using d by (intro mult_right_mono) auto
    also have "\<dots> \<le> t - s" using d pos_mod_sign[of ?d "t - s"] by (simp add: minus_mod_eq_div_mult[symmetric])
    finally have "int i * ?d \<le> t - s" .
    then show "u \<in> {u. s \<le> u \<and> u \<le> t \<and> (u - s) mod ?d = 0}" using i d by simp
  next
    fix u assume "u \<in> {u. s \<le> u \<and> u \<le> t \<and> (u - s) mod ?d = 0}"
    then have u: "s \<le> u" "u \<le> t" "(u - s) mod ?d = 0" by auto
    define k where "k = (u - s) div ?d"
    have "u - s = k * ?d" using u(3) minus_mod_eq_div_mult[of "u - s" ?d] by (simp add: k_def)
    moreover have "0 \<le> k" using u d by (simp add: k_def pos_imp_zdiv_nonneg_iff)
    moreover have "k \<le> (t - s) div ?d" using u d by (simp add: k_def zdiv_mono1)
    ultimately have "u = s + int (nat k) * ?d" "nat k \<in> {0..<nat ((t - s) div ?d + 1)}" by auto
    then show "u \<in> set (part_starts pd s t)" unfolding part_starts_def set_map set_upt by (rule image_eqI)
  qed
qed

text \<open>The walk from one partition to another ends and collects the partitions in between.\<close>

lemma partition_walk_eq:
  assumes "valid_pd pd" "0 \<le> s" "s mod pd_secs pd = 0" "0 \<le> t" "t + pd_secs pd < 10 ^ 12"
    and "s < 10 ^ 12"
  shows "partition_walk pd (pid s) (pid t) acc = Some (Ok (acc @ map pid (part_starts pd s t), None))"
  using assms(2,3,6)
proof (induction "nat (t - s + pd_secs pd)" arbitrary: s acc rule: less_induct)
  case less
  have d: "0 < pd_secs pd" using pd_secs_pos assms(1) .
  show ?case
  proof (cases "s \<le> t")
    case True
    have "s + pd_secs pd < 10 ^ 12" using True assms(5) by simp
    note nx = next_partition[OF assms(1) less.prems(1,2) this]
    have "pid s \<le> pid t" using True less.prems assms(4,5) d by (simp add: pid_le_iff)
    moreover have "partition_walk pd (pid (s + pd_secs pd)) (pid t) (acc @ [pid s])
        = Some (Ok ((acc @ [pid s]) @ map pid (part_starts pd (s + pd_secs pd) t), None))"
      using less.prems True assms(5) d by (intro less.hyps) auto
    ultimately show ?thesis
      using nx part_starts_Cons[OF assms(1) True] by (subst partition_walk.simps) simp
  next
    case False
    then have "\<not> pid s \<le> pid t" using less.prems assms(4,5) d by (simp add: pid_le_iff)
    then show ?thesis
      using False part_starts_empty[OF assms(1), of t s] by (subst partition_walk.simps) simp
  qed
qed

lemma GetPartitionId_pid:
  assumes "valid_pd pd" "tloc t = UTC" "0 \<le> Unix t" "Unix t < 2 ^ 63"
  shows "GetPartitionId pd t = Ok (pid (part_start pd (Unix t)))"
  using assms part_start_nonneg[OF assms(1,3)] part_start_le[OF assms(1), of "Unix t"]
  by (simp add: GetPartitionId_utc pid_def to_uint64_id)

lemma time_range_walk:
  assumes "valid_pd pd" "tloc s = UTC" "tloc e = UTC"
    and "0 \<le> Unix s" "Unix s < 10 ^ 12" "0 \<le> Unix e" "Unix e + pd_secs pd < 10 ^ 12"
  shows "GetPartitionsFromTimeRange pd s e
    = Some (Ok (map pid (part_starts pd (part_start pd (Unix s)) (part_start pd (Unix e))), None))"
proof -
  let ?s = "part_start pd (Unix s)" and ?e = "part_start pd (Unix e)"
  have d: "0 < pd_secs pd" using pd_secs_pos assms(1) .
  have "GetPartitionId pd s = Ok (pid ?s)" "GetPartitionId pd e = Ok (pid ?e)"
    using assms d by (auto intro!: GetPartitionId_pid)
  moreover have "0 \<le> ?s" "?s < 10 ^ 12" "0 \<le> ?e" "?e + pd_secs pd < 10 ^ 12" "?s mod pd_secs pd = 0"
    using assms part_start_nonneg[OF assms(1)] part_start_le[OF assms(1), of "Unix s"]
      part_start_le[OF assms(1), of "Unix e"] part_start_mod by auto
  ultimately show ?thesis
    using partition_walk_eq[OF assms(1), of ?s ?e "[]"] by (simp add: GetPartitionsFromTimeRange_def)
qed

lemma sorted_part_starts: "valid_pd pd \<Longrightarrow> sorted_wrt (<) (part_starts pd s t)"
  using pd_secs_pos[of pd] by (simp add: part_starts_def sorted_wrt_map sorted_wrt_upt)

section \<open>The first and the last key of a table\<close>

text \<open>A table whose stored keys all parse, with partitions that are numbers.\<close>

definition table_parses :: "'k key_ops \<Rightarrow> (string \<rightharpoonup> string) \<Rightarrow> bool" where
  "table_parses K m \<longleftrightarrow> (\<forall>s \<in> dom m. prefix (table_prefix K) s \<longrightarrow>
     (\<exists>k. k_Parse K s = Ok k \<and> k_PartitionId K k \<noteq> [] \<and> (\<forall>c \<in> set (k_PartitionId K k). is_digit c)))"

definition table_keys :: "'k key_ops \<Rightarrow> (string \<rightharpoonup> string) \<Rightarrow> string list" where
  "table_keys K m = filter (prefix (table_prefix K)) (keys_of m)"

lemma table_prefix_slashed: "table_prefix K = slashed [k_TableName K] @ ''/''"
  by (simp add: table_prefix_def OpenTable_def slashed_simps)

lemma less_rune255: "is_digit c \<Longrightarrow> (c # r :: string) < rune255"
  by (simp add: rune255_def is_digit_def less_char_def)

context table_key
begin

lemma parsed_below_rune255:
  assumes "k_Parse K s = Ok k" "k_PartitionId K k \<noteq> []" "\<forall>c \<in> set (k_PartitionId K k). is_digit c"
  shows "s < table_prefix K @ rune255"
proof -
  obtain r where "s = slashed [k_TableName K, k_PartitionId K k] @ CHR ''/'' # r"
    using parse_below[OF assms(1)] by blast
  then have s: "s = table_prefix K @ (k_PartitionId K k @ CHR ''/'' # r)"
    by (simp add: table_prefix_slashed slashed_simps)
  show ?thesis unfolding s prefix_less_append
    using assms(2,3) by (cases "k_PartitionId K k") (auto simp: less_rune255)
qed

lemma table_keys_below_rune255:
  assumes "table_parses K m" "finite (dom m)"
  shows "filter (\<lambda>s. prefix (table_prefix K) s \<and> s < table_prefix K @ rune255) (keys_of m) = table_keys K m"
    and "table_prefix K @ rune255 \<notin> dom m"
proof -
  have *: "s < table_prefix K @ rune255" if "s \<in> dom m" "prefix (table_prefix K) s" for s
    using assms(1) that parsed_below_rune255 by (auto simp: table_parses_def)
  show "filter (\<lambda>s. prefix (table_prefix K) s \<and> s < table_prefix K @ rune255) (keys_of m) = table_keys K m"
    unfolding table_keys_def using * assms(2) by (intro filter_cong) auto
  show "table_prefix K @ rune255 \<notin> dom m" using * by fastforce
qed

end

lemma table_keys_order:
  assumes "s \<in> set (table_keys K m)"
  shows "hd (table_keys K m) \<le> s" "s \<le> last (table_keys K m)"
    "hd (table_keys K m) \<in> set (table_keys K m)" "last (table_keys K m) \<in> set (table_keys K m)"
proof -
  have ne: "table_keys K m \<noteq> []" using assms by auto
  have s: "s \<in> set (keys_of m)" "prefix (table_prefix K) s" using assms by (auto simp: table_keys_def)
  show "hd (table_keys K m) \<le> s" "s \<le> last (table_keys K m)"
    unfolding table_keys_def
    using sorted_filter_hd_le[of "keys_of m" s "prefix (table_prefix K)"]
      sorted_last_filter_ge[of "keys_of m" s "prefix (table_prefix K)"] s by simp_all
  show "hd (table_keys K m) \<in> set (table_keys K m)" "last (table_keys K m) \<in> set (table_keys K m)"
    using ne by simp_all
qed

context badger_store
begin

lemma min_key:
  assumes "tok t"
  shows "GetMinKey B K t = (case table_keys K (tview t) of [] \<Rightarrow> Ok (False, []) | s # r \<Rightarrow> Ok (True, s))"
proof -
  let ?o = "DefaultIteratorOptions\<lparr>opt_Prefix := table_prefix K\<rparr>"
  have o: "plain_opts ?o" "\<not> opt_Reverse ?o" "opt_Prefix ?o = table_prefix K"
    by (simp_all add: plain_opts_def DefaultIteratorOptions_def)
  show ?thesis
    using seek_first[OF assms o, OF table_keys_def[symmetric, of K "tview t"]]
    by (cases "table_keys K (tview t)") (simp_all add: GetMinKey_def Let_def current_key_def)
qed

lemma max_key:
  assumes "tok t" "table_key K wfk" "table_parses K (tview t)" "table_keys K (tview t) \<noteq> []"
  shows "GetMaxKey B K t = Ok (True, last (table_keys K (tview t)))"
proof -
  let ?o = "DefaultIteratorOptions\<lparr>opt_Prefix := table_prefix K, opt_Reverse := True\<rparr>"
  have o: "plain_opts ?o" "opt_Reverse ?o" "opt_Prefix ?o = table_prefix K"
    by (simp_all add: plain_opts_def DefaultIteratorOptions_def)
  note below = table_key.table_keys_below_rune255[OF assms(2,3) finite_view[OF assms(1)]]
  obtain ks k where ks: "table_keys K (tview t) = ks @ [k]" using assms(4) by (metis rev_exhaust)
  have run: "rev (filter (\<lambda>s. prefix (table_prefix K) s \<and> s < table_prefix K @ rune255) (keys_of (tview t)))
      = k # rev ks"
    using below(1) ks by simp
  show ?thesis
    using seek_last(2,3)[OF assms(1) o below(2) run]
    by (simp add: GetMaxKey_def Let_def current_key_def ks)
qed

end

section \<open>What the operations do on a store that meets the contract\<close>

text \<open>The codec's documented round trip.\<close>

definition codec_ok :: "'v codec \<Rightarrow> 'v \<Rightarrow> bool" where
  "codec_ok C v \<longleftrightarrow> (\<exists>b. c_Marshal C v = Ok b \<and> c_Unmarshal C b = Ok v)"

text \<open>The smallest and the largest partition of a table's keys.\<close>

definition table_partitions :: "'k key_ops \<Rightarrow> (string \<rightharpoonup> string) \<Rightarrow> string set" where
  "table_partitions K m = {k_PartitionId K k | s k. s \<in> set (table_keys K m) \<and> k_Parse K s = Ok k}"

context badger_store
begin

lemma tbl_Get_eq:
  assumes "tok t" "k_ValidateKey K key = Ok ()"
  shows "tbl_Get B K C t key = (case tview t key of
      None \<Rightarrow> Err ErrKeyNotFound
    | Some b \<Rightarrow> map_err (\<lambda>e. Wrapped e (''protobuf unmarshal failed for table '' @ OpenTable K
        @ '' on value length '' @ format_int (int (length b)))) (c_Unmarshal C b))"
  using assms by (simp add: tbl_Get_def get valuecopy split: option.splits)

lemma tbl_Get_cong:
  assumes "tok t" "tok t'" "tview t key = tview t' key"
  shows "tbl_Get B K C t key = tbl_Get B K C t' key"
  using assms by (simp add: tbl_Get_def get split: res.splits)

lemma tbl_Set_ok:
  assumes "tok t" "writable t" "k_ValidateKey K key = Ok ()" "key \<noteq> []" "c_Marshal C v = Ok b"
  shows "\<exists>t'. tbl_Set B K C t key v = (Ok (), t') \<and> tok t' \<and> writable t' \<and> tview t' = (tview t)(key \<mapsto> b)"
  using set[OF assms(1,2,4), of b] assms(3,5) by (auto simp: tbl_Set_def)

lemma table_keys_partitions:
  assumes "tok t" "table_parses K (tview t)" "s \<in> set (table_keys K (tview t))"
  obtains k where "k_Parse K s = Ok k" "\<forall>c \<in> set (k_PartitionId K k). is_digit c"
    "k_PartitionId K k \<in> table_partitions K (tview t)"
  using assms finite_view[OF assms(1)]
  by (auto simp: table_parses_def table_keys_def table_partitions_def) blast

lemma min_max_partitions:
  assumes "tok t" "table_key K wfk" "table_parses K (tview t)"
  shows "(table_partitions K (tview t) = {} \<and> GetMinMaxPartitions B K t = Ok (False, [], []))
    \<or> (\<exists>mn mx. GetMinMaxPartitions B K t = Ok (True, mn, mx)
        \<and> mn \<in> table_partitions K (tview t) \<and> mx \<in> table_partitions K (tview t)
        \<and> (\<forall>p \<in> table_partitions K (tview t). mn \<le> p \<and> p \<le> mx))"
proof (cases "table_keys K (tview t)")
  case Nil
  then show ?thesis
    using assms by (simp add: GetMinMaxPartitions_def GetMinPartition_def min_key key_partition_def table_partitions_def)
next
  case (Cons a r)
  let ?ks = "table_keys K (tview t)"
  have mem: "hd ?ks \<in> set ?ks" "last ?ks \<in> set ?ks" using Cons by auto
  obtain k where k: "k_Parse K (hd ?ks) = Ok k" "\<forall>c \<in> set (k_PartitionId K k). is_digit c"
    "k_PartitionId K k \<in> table_partitions K (tview t)"
    using table_keys_partitions[OF assms(1,3) mem(1)] .
  obtain l where l: "k_Parse K (last ?ks) = Ok l" "\<forall>c \<in> set (k_PartitionId K l). is_digit c"
    "k_PartitionId K l \<in> table_partitions K (tview t)"
    using table_keys_partitions[OF assms(1,3) mem(2)] .
  have ne: "?ks \<noteq> []" using Cons by simp
  have "GetMinMaxPartitions B K t = Ok (True, k_PartitionId K k, k_PartitionId K l)"
    using min_key[OF assms(1), of K] max_key[OF assms ne] k(1) l(1) Cons
    by (simp add: GetMinMaxPartitions_def GetMinPartition_def GetMaxPartition_def key_partition_def)
  moreover have "k_PartitionId K k \<le> p \<and> p \<le> k_PartitionId K l"
    if p: "p \<in> table_partitions K (tview t)" for p
  proof -
    obtain s q where sq: "s \<in> set ?ks" "k_Parse K s = Ok q" "p = k_PartitionId K q"
      using p by (auto simp: table_partitions_def)
    obtain q' where "k_Parse K s = Ok q'" "\<forall>c \<in> set (k_PartitionId K q'). is_digit c"
      using table_keys_partitions[OF assms(1,3) sq(1)] .
    then have "\<forall>c \<in> set (k_PartitionId K q). is_digit c" using sq(2) by simp
    then show ?thesis
      using table_key.partition_order[OF assms(2) k(1) sq(2) table_keys_order(1)[OF sq(1)] k(2)]
        table_key.partition_order[OF assms(2) sq(2) l(1) table_keys_order(2)[OF sq(1)] _ l(2)] sq(3) by simp
  qed
  ultimately show ?thesis using k(3) l(3) by blast
qed

end

section \<open>Reading a range\<close>

lemma fold_update_iff:
  assumes "\<And>x y. x \<in> set xs \<Longrightarrow> y \<in> set xs \<Longrightarrow> f x = f y \<Longrightarrow> g x = g y"
  shows "map_of (fold (\<lambda>x. AList.update (f x) (g x)) xs []) k = Some v
    \<longleftrightarrow> (\<exists>x \<in> set xs. f x = k \<and> g x = v)"
  using assms
proof (induction xs rule: rev_induct)
  case (snoc x xs)
  have IH: "map_of (fold (\<lambda>x. AList.update (f x) (g x)) xs []) k = Some v
      \<longleftrightarrow> (\<exists>x \<in> set xs. f x = k \<and> g x = v)"
    by (rule snoc.IH) (rule snoc.prems; simp)
  have same: "y \<in> set xs \<Longrightarrow> f y = f x \<Longrightarrow> g y = g x" for y by (rule snoc.prems) simp_all
  show ?case
  proof (cases "f x = k")
    case True
    then show ?thesis using same by (auto simp: map_of_AList_update)
  next
    case False
    then show ?thesis using IH by (auto simp: map_of_AList_update)
  qed
qed simp

text \<open>
  With a predicate that keeps no state: which rows pass, the key and the value of a row.
\<close>

definition keeps :: "unit keypred \<Rightarrow> string \<Rightarrow> bool" where
  "keeps kp s = (case kp of None \<Rightarrow> True | Some f \<Rightarrow> fst (f s ()))"

definition passes :: "'v codec \<Rightarrow> ('v \<Rightarrow> bool) option \<Rightarrow> string \<Rightarrow> bool" where
  "passes C vp b = (case vp of None \<Rightarrow> True | Some f \<Rightarrow> (\<forall>v. c_Unmarshal C b = Ok v \<longrightarrow> f v))"

fun ok_of :: "'a res \<Rightarrow> 'a" where
  "ok_of (Ok x) = x"
| "ok_of (Err e) = undefined"
| "ok_of (Panic m) = undefined"

definition row_ok :: "'k key_ops \<Rightarrow> 'v codec \<Rightarrow> ('k \<Rightarrow> bool) \<Rightarrow> string \<times> string \<Rightarrow> bool" where
  "row_ok K C wfk kv \<longleftrightarrow> (\<exists>k. wfk k \<and> fst kv = k_String K k) \<and> (\<exists>v. c_Unmarshal C (snd kv) = Ok v)"

definition put_row ::
  "'k key_ops \<Rightarrow> 'v codec \<Rightarrow> string \<times> string \<Rightarrow> ('k \<times> 'v) list \<Rightarrow> ('k \<times> 'v) list" where
  "put_row K C kv = AList.update (ok_of (k_Parse K (fst kv))) (ok_of (c_Unmarshal C (snd kv)))"

definition add_stats :: "int \<Rightarrow> int \<Rightarrow> int \<Rightarrow> RangeReadStats \<Rightarrow> RangeReadStats" where
  "add_stats a b c stats = stats\<lparr>rs_RowsVisitedCount := rs_RowsVisitedCount stats + a,
     rs_RowsPassedKeyPredicateCount := rs_RowsPassedKeyPredicateCount stats + b,
     rs_RowsPassedValuePredicateCount := rs_RowsPassedValuePredicateCount stats + c\<rparr>"

lemma add_stats_simps:
  "add_stats 0 0 0 st = st"
  "add_stats a b c (add_stats a' b' c' st) = add_stats (a' + a) (b' + b) (c' + c) st"
  by (simp_all add: add_stats_def)

definition selected :: "'v codec \<Rightarrow> unit keypred \<Rightarrow> ('v \<Rightarrow> bool) option \<Rightarrow> (string \<times> string) list \<Rightarrow> (string \<times> string) list" where
  "selected C kp vp xs = filter (\<lambda>kv. keeps kp (fst kv) \<and> passes C vp (snd kv)) xs"

definition rows_at :: "(string \<rightharpoonup> string) \<Rightarrow> string \<Rightarrow> (string \<times> string) list" where
  "rows_at m seekStr = filter (\<lambda>kv. prefix seekStr (fst kv)) (items_of m)"

context badger_store
begin

lemma range_row_eq:
  assumes "table_key K wfk" "row_ok K C wfk (s, b)"
  shows "range_row B K C kp vp \<lparr>item_key = s, item_value = b\<rparr> (resources, stats, ()) =
    Continue (if keeps kp s \<and> passes C vp b then put_row K C (s, b) resources else resources,
      add_stats 1 (if keeps kp s then 1 else 0) (if keeps kp s \<and> passes C vp b then 1 else 0) stats, ())"
proof -
  obtain k where k: "k_Parse K s = Ok k"
    using assms table_key.parse_string by (fastforce simp: row_ok_def)
  obtain v where v: "c_Unmarshal C b = Ok v" using assms(2) by (auto simp: row_ok_def)
  have keep: "(case kp of None \<Rightarrow> (True, ()) | Some f \<Rightarrow> f s ()) = (keeps kp s, ())"
    by (cases kp) (auto simp: keeps_def prod_eq_iff)
  show ?thesis
    unfolding range_row_def Let_def prod.case store_item.simps keep
    by (cases vp) (auto simp: k v valuecopy passes_def put_row_def add_stats_def)
qed

lemma range_rows_eq:
  assumes "table_key K wfk" "\<forall>kv \<in> set xs. row_ok K C wfk kv"
  shows "list_loop (\<lambda>kv. range_row B K C kp vp \<lparr>item_key = fst kv, item_value = snd kv\<rparr>) xs (res, stats, ())
    = Inl (fold (put_row K C) (selected C kp vp xs) res,
        add_stats (int (length xs)) (int (length (filter (\<lambda>kv. keeps kp (fst kv)) xs)))
          (int (length (selected C kp vp xs))) stats, ())"
  using assms(2)
proof (induction xs arbitrary: res stats)
  case Nil
  then show ?case by (simp add: selected_def add_stats_simps)
next
  case (Cons kv xs)
  obtain s b where kv: "kv = (s, b)" by (cases kv)
  show ?case
    using Cons range_row_eq[OF assms(1), of C s b kp vp res stats]
    by (simp add: kv selected_def add_stats_simps add.commute)
qed

end

context badger_store
begin

lemma range_partitions_eq:
  assumes "tok t" "table_key K wfk"
    and "\<forall>p \<in> set parts. \<forall>kv \<in> set (rows_at (tview t) (seek_string K pre p)). row_ok K C wfk kv"
  defines "xs \<equiv> concat (map (\<lambda>p. rows_at (tview t) (seek_string K pre p)) parts)"
  shows "range_partitions B K C t pre kp vp parts (res, stats, ())
    = Some (Inl (fold (put_row K C) (selected C kp vp xs) res,
        add_stats (int (length xs)) (int (length (filter (\<lambda>kv. keeps kp (fst kv)) xs)))
          (int (length (selected C kp vp xs))) stats, ()))"
  using assms(3) unfolding xs_def
proof (induction parts arbitrary: pre res stats)
  case Nil
  then show ?case by (simp add: selected_def add_stats_simps)
next
  case (Cons p parts)
  let ?pre = "map_option (\<lambda>k. k_SetPartitionId K k p) pre"
  have seek: "seek_string K ?pre = seek_string K pre"
    using table_key.set_part_twice[OF assms(2)] by (cases pre) (auto simp: seek_string_def fun_eq_iff)
  let ?o = "DefaultIteratorOptions\<lparr>opt_Prefix := seek_string K pre p\<rparr>"
  have o: "plain_opts ?o" "\<not> opt_Reverse ?o" "opt_Prefix ?o = seek_string K pre p"
    by (simp_all add: plain_opts_def DefaultIteratorOptions_def)
  have rows: "\<forall>kv \<in> set (rows_at (tview t) (seek_string K pre p)). row_ok K C wfk kv" using Cons.prems by simp
  show ?case
    using Cons.IH[of ?pre] Cons.prems
    by (simp add: Let_def scan_prefix[OF assms(1) o] rows_at_def[symmetric] range_rows_eq[OF assms(2) rows]
        seek selected_def add_stats_simps)
qed

end

lemma map_of_put_rows:
  assumes "table_key K wfk" "\<forall>kv \<in> set xs. row_ok K C wfk kv \<and> m (fst kv) = Some (snd kv)"
  shows "map_of (fold (put_row K C) xs []) k = Some v
    \<longleftrightarrow> (\<exists>b. wfk k \<and> (k_String K k, b) \<in> set xs \<and> c_Unmarshal C b = Ok v)"
proof -
  have row: "\<exists>l. wfk l \<and> fst kv = k_String K l \<and> ok_of (k_Parse K (fst kv)) = l" if "kv \<in> set xs" for kv
    using assms(2) that table_key.parse_string[OF assms(1)] by (fastforce simp: row_ok_def)
  have "map_of (fold (\<lambda>x. AList.update (ok_of (k_Parse K (fst x))) (ok_of (c_Unmarshal C (snd x)))) xs []) k = Some v
    \<longleftrightarrow> (\<exists>x \<in> set xs. ok_of (k_Parse K (fst x)) = k \<and> ok_of (c_Unmarshal C (snd x)) = v)"
  proof (rule fold_update_iff)
    fix x y assume xy: "x \<in> set xs" "y \<in> set xs"
      "ok_of (k_Parse K (fst x)) = ok_of (k_Parse K (fst y))"
    then have "fst x = fst y" using row[OF xy(1)] row[OF xy(2)] by auto
    then have "snd x = snd y" using assms(2) xy by (metis option.inject)
    then show "ok_of (c_Unmarshal C (snd x)) = ok_of (c_Unmarshal C (snd y))" by simp
  qed
  also have "\<dots> \<longleftrightarrow> (\<exists>b. wfk k \<and> (k_String K k, b) \<in> set xs \<and> c_Unmarshal C b = Ok v)"
  proof
    assume "\<exists>x \<in> set xs. ok_of (k_Parse K (fst x)) = k \<and> ok_of (c_Unmarshal C (snd x)) = v"
    then obtain x where x: "x \<in> set xs" "ok_of (k_Parse K (fst x)) = k" "ok_of (c_Unmarshal C (snd x)) = v" by blast
    then have "wfk k" "fst x = k_String K k" using row[OF x(1)] by auto
    moreover have "c_Unmarshal C (snd x) = Ok v" using assms(2) x by (auto simp: row_ok_def)
    ultimately show "\<exists>b. wfk k \<and> (k_String K k, b) \<in> set xs \<and> c_Unmarshal C b = Ok v"
      using x(1) by (metis prod.collapse)
  next
    assume "\<exists>b. wfk k \<and> (k_String K k, b) \<in> set xs \<and> c_Unmarshal C b = Ok v"
    then show "\<exists>x \<in> set xs. ok_of (k_Parse K (fst x)) = k \<and> ok_of (c_Unmarshal C (snd x)) = v"
      using table_key.parse_string[OF assms(1)] by force
  qed
  finally show ?thesis by (simp add: put_row_def[abs_def])
qed

section \<open>Properties\<close>

text \<open>
  C12: a row that was written is read back. In a writable transaction of any store that
  meets the contract, for a storable key and a value the codec round-trips, \<open>Set\<close> succeeds,
  \<open>Get\<close> of the key then returns the value, and \<open>Get\<close> of every other key of any table is
  unchanged.
\<close>

theorem set_then_get:
  assumes "badger_store B dview dok tview tok writable ahead iopts" "table_key K wfk"
    and "tok t" "writable t" "wfk k" "codec_ok C v"
  shows "\<exists>t'. tbl_Set B K C t (k_String K k) v = (Ok (), t') \<and> tok t' \<and> writable t'
    \<and> tbl_Get B K C t' (k_String K k) = Ok v
    \<and> (\<forall>key. key \<noteq> k_String K k \<longrightarrow> tbl_Get B L D t' key = tbl_Get B L D t key)"
proof -
  have v: "k_ValidateKey K (k_String K k) = Ok ()"
    using table_key.validate_string[OF assms(2,5)] .
  have ne: "k_String K k \<noteq> []"
    using table_key.parse_table_prefix[OF assms(2) table_key.parse_string[OF assms(2,5)]]
    by (auto simp: slashed_simps)
  obtain b where b: "c_Marshal C v = Ok b" "c_Unmarshal C b = Ok v"
    using assms(6) by (auto simp: codec_ok_def)
  obtain t' where t': "tbl_Set B K C t (k_String K k) v = (Ok (), t')" "tok t'" "writable t'"
    "tview t' = (tview t)(k_String K k \<mapsto> b)"
    using badger_store.tbl_Set_ok[OF assms(1,3,4) v ne b(1)] by blast
  have "tbl_Get B K C t' (k_String K k) = Ok v"
    using badger_store.tbl_Get_eq[OF assms(1) t'(2) v, of C] t'(4) b(2) by simp
  moreover have "tbl_Get B L D t' key = tbl_Get B L D t key" if "key \<noteq> k_String K k" for key
    using badger_store.tbl_Get_cong[OF assms(1) t'(2) assms(3), of key L D] t'(4) that by simp
  ultimately show ?thesis using t' by blast
qed

definition string_codec :: "string codec" where
  "string_codec = \<lparr>c_Marshal = Ok, c_Unmarshal = Ok\<rparr>"

theorem set_then_get_witness:
  "\<exists>t'. tbl_Set mock_ops activity_key_ops string_codec (mock_NewTxn mock_Open False)
        (WatchActivityKey_String (NewWatchActivityKey ''001546398000'' ''Pod'' ''ns'' ''n'' ''u'')) ''v'' = (Ok (), t')
    \<and> tbl_Get mock_ops activity_key_ops string_codec t'
        (WatchActivityKey_String (NewWatchActivityKey ''001546398000'' ''Pod'' ''ns'' ''n'' ''u'')) = Ok ''v''"
proof -
  let ?k = "NewWatchActivityKey ''001546398000'' ''Pod'' ''ns'' ''n'' ''u''"
  have "activity_key_wf ?k" by (simp add: key_wf_defs NewWatchActivityKey_def)
  moreover have "codec_ok string_codec ''v''" by (simp add: codec_ok_def string_codec_def)
  moreover have "k_String activity_key_ops ?k = WatchActivityKey_String ?k" by (simp add: activity_key_ops_def)
  ultimately show ?thesis
    using set_then_get[OF mock.badger_store_axioms wak.table_key_axioms, where t = "mock_NewTxn mock_Open False"
        and k = ?k and C = string_codec and v = "''v''" and L = activity_key_ops and D = string_codec]
    by (auto simp: mock_NewTxn_def mock_Open_def mock_dok_def mock_writable_def)
qed

text \<open>
  The smallest and the largest partition of a table. When every stored key below
  \<open>/table/\<close> parses and its partition is a number, \<open>GetMinMaxPartitions\<close> does not panic; it
  reports failure exactly when the table is empty, and otherwise the least and the greatest
  of the partitions of the stored keys.
\<close>

lemma min_max_partitions_correct:
  assumes "badger_store B dview dok tview tok writable ahead iopts" "table_key K wfk" "tok t"
    and "table_parses K (tview t)"
  shows "(table_partitions K (tview t) = {} \<and> GetMinMaxPartitions B K t = Ok (False, [], []))
    \<or> (\<exists>mn mx. GetMinMaxPartitions B K t = Ok (True, mn, mx)
        \<and> mn \<in> table_partitions K (tview t) \<and> mx \<in> table_partitions K (tview t)
        \<and> (\<forall>p \<in> table_partitions K (tview t). mn \<le> p \<and> p \<le> mx))"
  using badger_store.min_max_partitions[OF assms(1,3,2,4)] .

lemma min_max_partitions_correct_witness:
  "\<exists>mn mx. GetMinMaxPartitions mock_ops activity_key_ops
      (mock_NewTxn \<lparr>mock_data = [(''/watchactivity/001546398000/P/ns/n/u'', ''v'')]\<rparr> True) = Ok (True, mn, mx)"
proof -
  let ?t = "mock_NewTxn \<lparr>mock_data = [(''/watchactivity/001546398000/P/ns/n/u'', ''v'')]\<rparr> True"
  have p: "k_Parse activity_key_ops ''/watchactivity/001546398000/P/ns/n/u''
      = Ok \<lparr>wa_PartitionId = ''001546398000'', wa_Kind = ''P'', wa_Namespace = ''ns'', wa_Name = ''n'', wa_Uid = ''u''\<rparr>"
    by (simp add: activity_key_ops_def WatchActivityKey_Parse_def parse_table_key_def ParseKey_def
        WatchActivityKey_TableName_def)
  have "table_parses activity_key_ops (mock_dview (txn_db ?t))"
    using p by (simp add: table_parses_def mock_NewTxn_def mock_dview_def activity_key_ops_def go_defs)
  moreover have "''001546398000'' \<in> table_partitions activity_key_ops (mock_dview (txn_db ?t))"
    using p by (simp add: table_partitions_def mock_NewTxn_def mock_dview_def activity_key_ops_def
        table_keys_def table_prefix_def OpenTable_def WatchActivityKey_TableName_def)
  ultimately show ?thesis
    using min_max_partitions_correct[OF mock.badger_store_axioms wak.table_key_axioms, of ?t]
    by (auto simp: mock_NewTxn_def mock_dok_def)
qed

text \<open>A time is in a run of partitions when its own partition starts there.\<close>

lemma part_start_in_range_iff:
  assumes "valid_pd pd" "0 < pd_secs pd"
  shows "part_start pd s \<le> part_start pd u \<and> part_start pd u \<le> part_start pd e
    \<longleftrightarrow> part_start pd s \<le> u \<and> u < part_start pd e + pd_secs pd"
proof -
  let ?s = "part_start pd s" and ?e = "part_start pd e" and ?u = "part_start pd u"
  have mono: "?s \<le> u \<Longrightarrow> ?s \<le> ?u"
    using part_start_mono[OF assms(1), of ?s u] part_start_aligned[of ?s pd] part_start_mod by metis
  have "?u \<le> ?e" if "u < ?e + pd_secs pd"
  proof (rule ccontr)
    assume "\<not> ?u \<le> ?e"
    then have "0 < ?u - ?e" "?u - ?e < pd_secs pd" using that part_start_le[OF assms(1), of u] by auto
    moreover have "(?u - ?e) mod pd_secs pd = 0" using part_start_mod[of pd] by (metis mod_diff_eq diff_self mod_0)
    ultimately show False by simp
  qed
  then show ?thesis using mono part_start_le[OF assms(1), of u] part_start_gt[OF assms(1), of u] by auto
qed

text \<open>
  C5: the partitions of a time range. For UTC times from 1970 on the walk ends without an
  error or a panic, and its identifiers are in strictly ascending order and exactly those of
  the times between the start of the first time's partition and the end of the last one's, so
  every time in the range has its partition in the list and none outside is read.
\<close>

theorem time_range_partitions_exact:
  assumes "valid_pd pd" "tloc s = UTC" "tloc e = UTC"
    and "0 \<le> Unix s" "Unix s < 10 ^ 12" "0 \<le> Unix e" "Unix e + pd_secs pd < 10 ^ 12"
  shows "\<exists>ids. GetPartitionsFromTimeRange pd s e = Some (Ok (ids, None)) \<and> sorted_wrt (<) ids
    \<and> (\<forall>t p. tloc t = UTC \<and> 0 \<le> Unix t \<and> Unix t < 10 ^ 12 \<and> GetPartitionId pd t = Ok p \<longrightarrow>
         (p \<in> set ids \<longleftrightarrow> part_start pd (Unix s) \<le> Unix t \<and> Unix t < part_start pd (Unix e) + pd_secs pd))"
proof -
  let ?s = "part_start pd (Unix s)" and ?e = "part_start pd (Unix e)" and ?d = "pd_secs pd"
  let ?ids = "map pid (part_starts pd ?s ?e)"
  have d: "0 < ?d" using pd_secs_pos assms(1) .
  have bs: "0 \<le> ?s" "?e \<le> Unix e" "0 \<le> ?e"
    using part_start_nonneg part_start_le assms by auto
  have rng: "0 \<le> u \<and> u < 10 ^ 12" if "u \<in> set (part_starts pd ?s ?e)" for u
    using that bs assms(7) d by (auto simp: set_part_starts[OF assms(1)])
  have less: "pid u < pid v \<longleftrightarrow> u < v" if "0 \<le> u" "0 \<le> v" "u < 10 ^ 12" "v < 10 ^ 12" for u v
    using pid_le_iff[of v u] that by (metis not_le)
  have "sorted_wrt (<) ?ids"
    unfolding sorted_wrt_map using sorted_part_starts[OF assms(1)]
    by (rule sorted_wrt_mono_rel[rotated]) (use rng less in auto)
  moreover have "p \<in> set ?ids \<longleftrightarrow> ?s \<le> Unix t \<and> Unix t < ?e + ?d"
    if t: "tloc t = UTC \<and> 0 \<le> Unix t \<and> Unix t < 10 ^ 12 \<and> GetPartitionId pd t = Ok p" for t p
  proof -
    let ?u = "part_start pd (Unix t)"
    have p: "p = pid ?u" using t GetPartitionId_pid[OF assms(1), of t] by simp
    have u0: "0 \<le> ?u" using part_start_nonneg[OF assms(1)] t by simp
    have al: "(?u - ?s) mod ?d = 0" "(?e - ?u) mod ?d = 0"
      using part_start_mod[of pd] by (metis mod_diff_eq diff_self mod_0)+
    have "p \<in> set ?ids \<longleftrightarrow> ?u \<in> set (part_starts pd ?s ?e)"
      using p u0 rng pid_inj by (auto simp: image_iff)
    also have "\<dots> \<longleftrightarrow> ?s \<le> ?u \<and> ?u \<le> ?e" using al by (auto simp: set_part_starts[OF assms(1)])
    also have "\<dots> \<longleftrightarrow> ?s \<le> Unix t \<and> Unix t < ?e + ?d" by (rule part_start_in_range_iff[OF assms(1) d])
    finally show ?thesis .
  qed
  ultimately show ?thesis using time_range_walk[OF assms] by blast
qed

theorem time_range_partitions_exact_witness:
  "\<exists>ids. GetPartitionsFromTimeRange Hour (Time 1546398245000000006 UTC) (Time 1546405445000000000 UTC)
     = Some (Ok (ids, None)) \<and> sorted_wrt (<) ids"
  using time_range_partitions_exact[of Hour "Time 1546398245000000006 UTC" "Time 1546405445000000000 UTC"]
  by (auto simp: valid_pd_def Unix_def pd_secs_def Hour_def)

text \<open>What a range read returns, whatever the key table and the predicates.\<close>

lemma range_read_rows:
  assumes "badger_store B dview dok tview tok writable ahead iopts" "table_key K wfk" "tok t"
    and "valid_pd pd" "tloc s = UTC" "tloc e = UTC"
    and "0 \<le> Unix s" "Unix s < 10 ^ 12" "0 \<le> Unix e" "Unix e + pd_secs pd < 10 ^ 12"
    and "\<forall>p key b. tview t key = Some b \<and> prefix (seek_string K pre p) key \<longrightarrow> row_ok K C wfk (key, b)"
  shows "\<exists>ids rows stats. GetPartitionsFromTimeRange pd s e = Some (Ok (ids, None))
    \<and> RangeRead B K C pd t pre kp () vp s e = Some (Ok ((rows, stats, ()), None))
    \<and> rs_PartitionCount stats = int (length ids)
    \<and> (\<forall>k v. map_of rows k = Some v \<longleftrightarrow>
         (\<exists>p \<in> set ids. \<exists>b. wfk k \<and> prefix (seek_string K pre p) (k_String K k)
            \<and> tview t (k_String K k) = Some b \<and> c_Unmarshal C b = Ok v
            \<and> keeps kp (k_String K k) \<and> passes C vp b))
    \<and> distinct (map fst rows)"
proof -
  note walk = time_range_walk[OF assms(4-10)]
  let ?ids = "map pid (part_starts pd (part_start pd (Unix s)) (part_start pd (Unix e)))"
  let ?xs = "concat (map (\<lambda>p. rows_at (tview t) (seek_string K pre p)) ?ids)"
  have mem: "kv \<in> set (rows_at (tview t) q) \<longleftrightarrow> prefix q (fst kv) \<and> tview t (fst kv) = Some (snd kv)" for kv q
    using items_of_set[OF badger_store.finite_view[OF assms(1,3)]]
    by (cases kv) (auto simp: rows_at_def)
  have rows: "\<forall>p \<in> set ?ids. \<forall>kv \<in> set (rows_at (tview t) (seek_string K pre p)). row_ok K C wfk kv"
    using assms(11) mem by auto
  have in_sel: "kv \<in> set (selected C kp vp ?xs) \<longleftrightarrow> (\<exists>p \<in> set ?ids. prefix (seek_string K pre p) (fst kv)
      \<and> tview t (fst kv) = Some (snd kv) \<and> keeps kp (fst kv) \<and> passes C vp (snd kv))" for kv
    using mem by (auto simp: selected_def)
  have "\<forall>kv \<in> set (selected C kp vp ?xs). row_ok K C wfk kv \<and> tview t (fst kv) = Some (snd kv)"
    using in_sel assms(11) by auto
  note map = map_of_put_rows[OF assms(2) this]
  have "RangeRead B K C pd t pre kp () vp s e = Some (Ok ((fold (put_row K C) (selected C kp vp ?xs) [],
      (add_stats (int (length ?xs)) (int (length (filter (\<lambda>kv. keeps kp (fst kv)) ?xs)))
        (int (length (selected C kp vp ?xs))) (no_stats\<lparr>rs_PartitionCount := int (length ?ids)\<rparr>))
        \<lparr>rs_TableName := k_TableName K\<rparr>, ()), None))"
    unfolding RangeRead_def walk
    by (simp add: badger_store.range_partitions_eq[OF assms(1,3,2) rows] Let_def del: map_map)
  moreover have "map_of (fold (put_row K C) (selected C kp vp ?xs) []) k = Some v \<longleftrightarrow>
      (\<exists>p \<in> set ?ids. \<exists>b. wfk k \<and> prefix (seek_string K pre p) (k_String K k)
            \<and> tview t (k_String K k) = Some b \<and> c_Unmarshal C b = Ok v
            \<and> keeps kp (k_String K k) \<and> passes C vp b)" for k v
    unfolding map in_sel by auto
  moreover have "distinct (map fst (fold (put_row K C) xs ys))" if "distinct (map fst ys)" for xs ys
    using that by (induction xs arbitrary: ys) (simp_all add: put_row_def distinct_update)
  then have "distinct (map fst (fold (put_row K C) (selected C kp vp ?xs) []))" by simp
  ultimately show ?thesis
    unfolding walk by (intro exI conjI) (assumption | simp add: add_stats_def no_stats_def | blast)+
qed

text \<open>
  C4: a range read returns exactly the matching rows. If every stored key that a partition's
  seek string matches was printed from a storable key and its value decodes, \<open>RangeRead\<close>
  ends without an error, and its map holds a key with a value exactly when the key lies
  in a partition of the time range, starts with the seek string, is stored with bytes that
  decode to the value, and passes the key and the value predicate.
\<close>

theorem range_read_exact:
  assumes "badger_store B dview dok tview tok writable ahead iopts" "table_key K wfk" "tok t"
    and "valid_pd pd" "tloc s = UTC" "tloc e = UTC"
    and "0 \<le> Unix s" "Unix s < 10 ^ 12" "0 \<le> Unix e" "Unix e + pd_secs pd < 10 ^ 12"
    and "\<forall>p key b. tview t key = Some b \<and> prefix (seek_string K pre p) key \<longrightarrow> row_ok K C wfk (key, b)"
  shows "\<exists>ids rows stats. GetPartitionsFromTimeRange pd s e = Some (Ok (ids, None))
    \<and> RangeRead B K C pd t pre kp () vp s e = Some (Ok ((rows, stats, ()), None))
    \<and> rs_PartitionCount stats = int (length ids)
    \<and> (\<forall>k v. map_of rows k = Some v \<longleftrightarrow>
         (\<exists>p \<in> set ids. \<exists>b. wfk k \<and> prefix (seek_string K pre p) (k_String K k)
            \<and> tview t (k_String K k) = Some b \<and> c_Unmarshal C b = Ok v
            \<and> keeps kp (k_String K k) \<and> passes C vp b))"
  using range_read_rows[OF assms, of kp vp] by blast

theorem range_read_exact_witness:
  "\<exists>rows stats. RangeRead mock_ops activity_key_ops string_codec Hour
      (mock_NewTxn \<lparr>mock_data = [(''/watchactivity/001546398000/P/ns/n/u'', ''v'')]\<rparr> True)
      None None () None (Time 1546398245000000006 UTC) (Time 1546405445000000000 UTC)
    = Some (Ok ((rows, stats, ()), None))"
proof -
  let ?t = "mock_NewTxn \<lparr>mock_data = [(''/watchactivity/001546398000/P/ns/n/u'', ''v'')]\<rparr> True"
  let ?k = "NewWatchActivityKey ''001546398000'' ''P'' ''ns'' ''n'' ''u''"
  have k: "activity_key_wf ?k" "''/watchactivity/001546398000/P/ns/n/u'' = k_String activity_key_ops ?k"
    by (simp_all add: key_wf_defs NewWatchActivityKey_def activity_key_ops_def WatchActivityKey_String_def
        WatchActivityKey_TableName_def slashed_simps)
  have row: "row_ok activity_key_ops string_codec activity_key_wf
      (''/watchactivity/001546398000/P/ns/n/u'', ''v'')"
    unfolding row_ok_def fst_conv snd_conv
    by (intro conjI exI[of _ ?k] k) (simp add: string_codec_def)
  have view: "mock_dview (txn_db ?t) key = Some b \<Longrightarrow>
      key = ''/watchactivity/001546398000/P/ns/n/u'' \<and> b = ''v''" for key b
    by (simp add: mock_NewTxn_def mock_dview_def split: if_splits)
  have rows: "\<forall>p key b. mock_dview (txn_db ?t) key = Some b \<and> prefix (seek_string activity_key_ops None p) key
      \<longrightarrow> row_ok activity_key_ops string_codec activity_key_wf (key, b)"
    using view row by metis
  show ?thesis
    using range_read_exact[OF mock.badger_store_axioms wak.table_key_axioms, of ?t, OF _ _ _ _ _ _ _ _ rows,
        of Hour "Time 1546398245000000006 UTC" "Time 1546405445000000000 UTC"]
    by (fastforce simp: mock_dok_def mock_NewTxn_def valid_pd_def Unix_def pd_secs_def Hour_def)
qed

end
