(* ===== verification/Schema.thy ===== *)
theory Schema
  imports TypedTable
begin

text \<open>
  The messages of \<open>pkg/sloop/store/typed/schema.proto\<close>, as the structs of \<open>schema.pb.go\<close>, and the
  protobuf library that the program calls: its codec and its timestamp conversions are not part of
  the repository, so they are the fields of the record \<open>pb_lib\<close>, an argument of what uses them.
  Pointers to timestamps are options (a nil pointer is \<open>None\<close>); Go maps are association lists; a map that may be nil is an option of one.
\<close>

record pb_timestamp =
  pb_seconds :: int
  pb_nanos :: int

type_synonym WatchType = int

definition KubeWatchResult_ADD :: WatchType where [go_defs]: "KubeWatchResult_ADD = 0"
definition KubeWatchResult_UPDATE :: WatchType where [go_defs]: "KubeWatchResult_UPDATE = 1"
definition KubeWatchResult_DELETE :: WatchType where [go_defs]: "KubeWatchResult_DELETE = 2"

record KubeWatchResult =
  wr_Timestamp :: "pb_timestamp option"
  wr_Kind :: string
  wr_WatchType :: WatchType
  wr_Payload :: string

record ResourceSummary =
  rsum_FirstSeen :: "pb_timestamp option"
  rsum_LastSeen :: "pb_timestamp option"
  rsum_CreateTime :: "pb_timestamp option"
  rsum_DeletedAtEnd :: bool
  rsum_Relationships :: "string list"

record EventCounts =
  evc_MapReasonToCount :: "(string \<times> int) list option"

record ResourceEventCounts =
  rec_MapMinToEvents :: "(int \<times> EventCounts) list option"

record WatchActivity =
  act_NoChangeAt :: "int list"
  act_ChangedAt :: "int list"

record pb_lib =
  ptypes_Timestamp :: "pb_timestamp option \<Rightarrow> gotime res"
  ptypes_TimestampProto :: "gotime \<Rightarrow> pb_timestamp res"
  watch_codec :: "KubeWatchResult codec"
  ressum_codec :: "ResourceSummary codec"
  event_codec :: "ResourceEventCounts codec"
  activity_codec :: "WatchActivity codec"

end
