(* ===== verification/GenTables.thy ===== *)
theory GenTables
  imports Schema
begin

text \<open>
  The four generated files \<open>watchtablegen.go\<close>, \<open>eventcounttablegen.go\<close>, \<open>resourcesummarytablegen.go\<close>
  and \<open>watchactivitytablegen.go\<close>: the template of theory \<open>TypedTable\<close> at the four pairs of value and
  key type, as genny instantiates it. The generated files share one layout, line by line. \<open>P\<close> is
  the protobuf library, \<open>pd\<close> the partition duration.
\<close>

section \<open>\<open>watchtablegen.go\<close>\<close>

definition OpenKubeWatchResultTable :: string where
  "OpenKubeWatchResultTable = OpenTable watch_key_ops"

definition KubeWatchResultTable_Set where
  "KubeWatchResultTable_Set B P txn key val = tbl_Set B watch_key_ops (watch_codec P) txn key val"

definition KubeWatchResultTable_Get where
  "KubeWatchResultTable_Get B P txn key = tbl_Get B watch_key_ops (watch_codec P) txn key"

definition KubeWatchResultTable_GetMinKey where
  "KubeWatchResultTable_GetMinKey B txn = GetMinKey B watch_key_ops txn"

definition KubeWatchResultTable_GetMaxKey where
  "KubeWatchResultTable_GetMaxKey B txn = GetMaxKey B watch_key_ops txn"

definition KubeWatchResultTable_GetMinMaxPartitions where
  "KubeWatchResultTable_GetMinMaxPartitions B txn = GetMinMaxPartitions B watch_key_ops txn"

definition KubeWatchResultTable_GetMaxPartition where
  "KubeWatchResultTable_GetMaxPartition B txn = GetMaxPartition B watch_key_ops txn"

definition KubeWatchResultTable_GetMinPartition where
  "KubeWatchResultTable_GetMinPartition B txn = GetMinPartition B watch_key_ops txn"

definition KubeWatchResultTable_GetUniquePartitionList where
  "KubeWatchResultTable_GetUniquePartitionList B pd txn =
    GetUniquePartitionList B watch_key_ops pd txn"

definition KubeWatchResultTable_GetPreviousKey where
  "KubeWatchResultTable_GetPreviousKey B pd txn key keyComparator =
    GetPreviousKey B watch_key_ops pd txn key keyComparator"

definition KubeWatchResultTable_getLastMatchingKeyInPartition where
  "KubeWatchResultTable_getLastMatchingKeyInPartition B txn curPartition curKey keyComparator =
    getLastMatchingKeyInPartition B watch_key_ops txn curPartition curKey keyComparator"

definition KubeWatchResultTable_RangeRead where
  "KubeWatchResultTable_RangeRead B P pd txn keyPrefix keyPredicateFn ps valPredicateFn startTime endTime =
    RangeRead B watch_key_ops (watch_codec P) pd txn keyPrefix keyPredicateFn ps valPredicateFn startTime endTime"

definition KubeWatchResultTable_GetPartitionsFromTimeRange where
  "KubeWatchResultTable_GetPartitionsFromTimeRange pd startTime endTime =
    GetPartitionsFromTimeRange pd startTime endTime"

definition KubeWatchResult_ValPredicateFns :: "(KubeWatchResult \<Rightarrow> bool) list \<Rightarrow> KubeWatchResult \<Rightarrow> bool" where
  "KubeWatchResult_ValPredicateFns = ValPredicateFns"

definition KubeWatchResult_KeyPredicateFns :: "(string \<Rightarrow> bool) list \<Rightarrow> string \<Rightarrow> bool" where
  "KubeWatchResult_KeyPredicateFns = KeyPredicateFns"

definition KubeWatchResultTable_GetAllKeysForGivenPartitions where
  "KubeWatchResultTable_GetAllKeysForGivenPartitions B pd db key maxNumberOfKeys lookBack keyPrefix =
    GetAllKeysForGivenPartitions B watch_key_ops pd db key maxNumberOfKeys lookBack keyPrefix"

section \<open>\<open>eventcounttablegen.go\<close>\<close>

definition OpenResourceEventCountsTable :: string where
  "OpenResourceEventCountsTable = OpenTable event_key_ops"

definition ResourceEventCountsTable_Set where
  "ResourceEventCountsTable_Set B P txn key val =
    tbl_Set B event_key_ops (event_codec P) txn key val"

definition ResourceEventCountsTable_Get where
  "ResourceEventCountsTable_Get B P txn key = tbl_Get B event_key_ops (event_codec P) txn key"

definition ResourceEventCountsTable_GetMinKey where
  "ResourceEventCountsTable_GetMinKey B txn = GetMinKey B event_key_ops txn"

definition ResourceEventCountsTable_GetMaxKey where
  "ResourceEventCountsTable_GetMaxKey B txn = GetMaxKey B event_key_ops txn"

definition ResourceEventCountsTable_GetMinMaxPartitions where
  "ResourceEventCountsTable_GetMinMaxPartitions B txn = GetMinMaxPartitions B event_key_ops txn"

definition ResourceEventCountsTable_GetMaxPartition where
  "ResourceEventCountsTable_GetMaxPartition B txn = GetMaxPartition B event_key_ops txn"

definition ResourceEventCountsTable_GetMinPartition where
  "ResourceEventCountsTable_GetMinPartition B txn = GetMinPartition B event_key_ops txn"

definition ResourceEventCountsTable_GetUniquePartitionList where
  "ResourceEventCountsTable_GetUniquePartitionList B pd txn =
    GetUniquePartitionList B event_key_ops pd txn"

definition ResourceEventCountsTable_GetPreviousKey where
  "ResourceEventCountsTable_GetPreviousKey B pd txn key keyComparator =
    GetPreviousKey B event_key_ops pd txn key keyComparator"

definition ResourceEventCountsTable_getLastMatchingKeyInPartition where
  "ResourceEventCountsTable_getLastMatchingKeyInPartition B txn curPartition curKey keyComparator =
    getLastMatchingKeyInPartition B event_key_ops txn curPartition curKey keyComparator"

definition ResourceEventCountsTable_RangeRead where
  "ResourceEventCountsTable_RangeRead B P pd txn keyPrefix keyPredicateFn ps valPredicateFn startTime endTime =
    RangeRead B event_key_ops (event_codec P) pd txn keyPrefix keyPredicateFn ps valPredicateFn startTime endTime"

definition ResourceEventCountsTable_GetPartitionsFromTimeRange where
  "ResourceEventCountsTable_GetPartitionsFromTimeRange pd startTime endTime =
    GetPartitionsFromTimeRange pd startTime endTime"

definition ResourceEventCounts_ValPredicateFns :: "(ResourceEventCounts \<Rightarrow> bool) list \<Rightarrow> ResourceEventCounts \<Rightarrow> bool" where
  "ResourceEventCounts_ValPredicateFns = ValPredicateFns"

definition ResourceEventCounts_KeyPredicateFns :: "(string \<Rightarrow> bool) list \<Rightarrow> string \<Rightarrow> bool" where
  "ResourceEventCounts_KeyPredicateFns = KeyPredicateFns"

definition ResourceEventCountsTable_GetAllKeysForGivenPartitions where
  "ResourceEventCountsTable_GetAllKeysForGivenPartitions B pd db key maxNumberOfKeys lookBack keyPrefix =
    GetAllKeysForGivenPartitions B event_key_ops pd db key maxNumberOfKeys lookBack keyPrefix"

section \<open>\<open>resourcesummarytablegen.go\<close>\<close>

definition OpenResourceSummaryTable :: string where
  "OpenResourceSummaryTable = OpenTable ressum_key_ops"

definition ResourceSummaryTable_Set where
  "ResourceSummaryTable_Set B P txn key val =
    tbl_Set B ressum_key_ops (ressum_codec P) txn key val"

definition ResourceSummaryTable_Get where
  "ResourceSummaryTable_Get B P txn key = tbl_Get B ressum_key_ops (ressum_codec P) txn key"

definition ResourceSummaryTable_GetMinKey where
  "ResourceSummaryTable_GetMinKey B txn = GetMinKey B ressum_key_ops txn"

definition ResourceSummaryTable_GetMaxKey where
  "ResourceSummaryTable_GetMaxKey B txn = GetMaxKey B ressum_key_ops txn"

definition ResourceSummaryTable_GetMinMaxPartitions where
  "ResourceSummaryTable_GetMinMaxPartitions B txn = GetMinMaxPartitions B ressum_key_ops txn"

definition ResourceSummaryTable_GetMaxPartition where
  "ResourceSummaryTable_GetMaxPartition B txn = GetMaxPartition B ressum_key_ops txn"

definition ResourceSummaryTable_GetMinPartition where
  "ResourceSummaryTable_GetMinPartition B txn = GetMinPartition B ressum_key_ops txn"

definition ResourceSummaryTable_GetUniquePartitionList where
  "ResourceSummaryTable_GetUniquePartitionList B pd txn =
    GetUniquePartitionList B ressum_key_ops pd txn"

definition ResourceSummaryTable_GetPreviousKey where
  "ResourceSummaryTable_GetPreviousKey B pd txn key keyComparator =
    GetPreviousKey B ressum_key_ops pd txn key keyComparator"

definition ResourceSummaryTable_getLastMatchingKeyInPartition where
  "ResourceSummaryTable_getLastMatchingKeyInPartition B txn curPartition curKey keyComparator =
    getLastMatchingKeyInPartition B ressum_key_ops txn curPartition curKey keyComparator"

definition ResourceSummaryTable_RangeRead where
  "ResourceSummaryTable_RangeRead B P pd txn keyPrefix keyPredicateFn ps valPredicateFn startTime endTime =
    RangeRead B ressum_key_ops (ressum_codec P) pd txn keyPrefix keyPredicateFn ps valPredicateFn startTime endTime"

definition ResourceSummaryTable_GetPartitionsFromTimeRange where
  "ResourceSummaryTable_GetPartitionsFromTimeRange pd startTime endTime =
    GetPartitionsFromTimeRange pd startTime endTime"

definition ResourceSummary_ValPredicateFns :: "(ResourceSummary \<Rightarrow> bool) list \<Rightarrow> ResourceSummary \<Rightarrow> bool" where
  "ResourceSummary_ValPredicateFns = ValPredicateFns"

definition ResourceSummary_KeyPredicateFns :: "(string \<Rightarrow> bool) list \<Rightarrow> string \<Rightarrow> bool" where
  "ResourceSummary_KeyPredicateFns = KeyPredicateFns"

definition ResourceSummaryTable_GetAllKeysForGivenPartitions where
  "ResourceSummaryTable_GetAllKeysForGivenPartitions B pd db key maxNumberOfKeys lookBack keyPrefix =
    GetAllKeysForGivenPartitions B ressum_key_ops pd db key maxNumberOfKeys lookBack keyPrefix"

section \<open>\<open>watchactivitytablegen.go\<close>\<close>

definition OpenWatchActivityTable :: string where
  "OpenWatchActivityTable = OpenTable activity_key_ops"

definition WatchActivityTable_Set where
  "WatchActivityTable_Set B P txn key val =
    tbl_Set B activity_key_ops (activity_codec P) txn key val"

definition WatchActivityTable_Get where
  "WatchActivityTable_Get B P txn key = tbl_Get B activity_key_ops (activity_codec P) txn key"

definition WatchActivityTable_GetMinKey where
  "WatchActivityTable_GetMinKey B txn = GetMinKey B activity_key_ops txn"

definition WatchActivityTable_GetMaxKey where
  "WatchActivityTable_GetMaxKey B txn = GetMaxKey B activity_key_ops txn"

definition WatchActivityTable_GetMinMaxPartitions where
  "WatchActivityTable_GetMinMaxPartitions B txn = GetMinMaxPartitions B activity_key_ops txn"

definition WatchActivityTable_GetMaxPartition where
  "WatchActivityTable_GetMaxPartition B txn = GetMaxPartition B activity_key_ops txn"

definition WatchActivityTable_GetMinPartition where
  "WatchActivityTable_GetMinPartition B txn = GetMinPartition B activity_key_ops txn"

definition WatchActivityTable_GetUniquePartitionList where
  "WatchActivityTable_GetUniquePartitionList B pd txn =
    GetUniquePartitionList B activity_key_ops pd txn"

definition WatchActivityTable_GetPreviousKey where
  "WatchActivityTable_GetPreviousKey B pd txn key keyComparator =
    GetPreviousKey B activity_key_ops pd txn key keyComparator"

definition WatchActivityTable_getLastMatchingKeyInPartition where
  "WatchActivityTable_getLastMatchingKeyInPartition B txn curPartition curKey keyComparator =
    getLastMatchingKeyInPartition B activity_key_ops txn curPartition curKey keyComparator"

definition WatchActivityTable_RangeRead where
  "WatchActivityTable_RangeRead B P pd txn keyPrefix keyPredicateFn ps valPredicateFn startTime endTime =
    RangeRead B activity_key_ops (activity_codec P) pd txn keyPrefix keyPredicateFn ps valPredicateFn startTime endTime"

definition WatchActivityTable_GetPartitionsFromTimeRange where
  "WatchActivityTable_GetPartitionsFromTimeRange pd startTime endTime =
    GetPartitionsFromTimeRange pd startTime endTime"

definition WatchActivity_ValPredicateFns :: "(WatchActivity \<Rightarrow> bool) list \<Rightarrow> WatchActivity \<Rightarrow> bool" where
  "WatchActivity_ValPredicateFns = ValPredicateFns"

definition WatchActivity_KeyPredicateFns :: "(string \<Rightarrow> bool) list \<Rightarrow> string \<Rightarrow> bool" where
  "WatchActivity_KeyPredicateFns = KeyPredicateFns"

definition WatchActivityTable_GetAllKeysForGivenPartitions where
  "WatchActivityTable_GetAllKeysForGivenPartitions B pd db key maxNumberOfKeys lookBack keyPrefix =
    GetAllKeysForGivenPartitions B activity_key_ops pd db key maxNumberOfKeys lookBack keyPrefix"

end
