(* ===== verification/Tables.thy ===== *)
theory Tables
  imports GenTables
begin

text \<open>
  \<open>pkg/sloop/store/typed/tables.go\<close>, the four tables over one store, and the \<open>GetOrDefault\<close> methods
  of \<open>eventcounttable.go\<close> and \<open>watchactivitytable.go\<close>.
\<close>

record 'db tablesImpl =
  ti_resourceSummaryTable :: string
  ti_eventCountTable :: string
  ti_watchTable :: string
  ti_watchActivityTable :: string
  ti_db :: 'db

definition NewTableList :: "'db \<Rightarrow> 'db tablesImpl" where
  "NewTableList db = \<lparr>ti_resourceSummaryTable = OpenResourceSummaryTable,
     ti_eventCountTable = OpenResourceEventCountsTable, ti_watchTable = OpenKubeWatchResultTable,
     ti_watchActivityTable = OpenWatchActivityTable, ti_db = db\<rparr>"

definition GetTableNames :: "'db tablesImpl \<Rightarrow> string list" where
  "GetTableNames t = [ti_watchTable t, ti_resourceSummaryTable t, ti_eventCountTable t, ti_watchActivityTable t]"

text \<open>
  \<open>GetTables\<close> is the list of table objects; what its caller uses of them is their
  \<open>GetMinMaxPartitions\<close> method, so the model lists these methods.
\<close>

definition GetTables ::
  "('db, 'txn, 'it) badger \<Rightarrow> ('txn \<Rightarrow> (bool \<times> string \<times> string) res) list" where
  "GetTables B = [ResourceEventCountsTable_GetMinMaxPartitions B, ResourceSummaryTable_GetMinMaxPartitions B,
     KubeWatchResultTable_GetMinMaxPartitions B, WatchActivityTable_GetMinMaxPartitions B]"

fun collect_partitions ::
  "('txn \<Rightarrow> (bool \<times> string \<times> string) res) list \<Rightarrow> 'txn \<Rightarrow> string list \<Rightarrow> string list res" where
  "collect_partitions [] txn allPartitions = Ok allPartitions"
| "collect_partitions (getter # getters) txn allPartitions =
     bind_res (getter txn) (\<lambda>(ok, minPar, maxPar).
       collect_partitions getters txn (if ok then allPartitions @ [minPar, maxPar] else allPartitions))"

definition GetMinAndMaxPartitionWithTxn ::
  "('db, 'txn, 'it) badger \<Rightarrow> 'txn \<Rightarrow> (bool \<times> string \<times> string) res" where
  "GetMinAndMaxPartitionWithTxn B txn =
    bind_res (collect_partitions (GetTables B) txn []) (\<lambda>allPartitions.
      if length allPartitions = 0 then Ok (False, [], [])
      else let sorted = sort allPartitions
           in Ok (True, sorted ! 0, sorted ! (length sorted - 1)))"

definition GetMinAndMaxPartition ::
  "('db, 'txn, 'it) badger \<Rightarrow> 'db \<Rightarrow> (bool \<times> string \<times> string) res" where
  "GetMinAndMaxPartition B db = db_View B db (GetMinAndMaxPartitionWithTxn B)"

definition EventCount_GetOrDefault ::
  "('db, 'txn, 'it) badger \<Rightarrow> pb_lib \<Rightarrow> 'txn \<Rightarrow> string \<Rightarrow> ResourceEventCounts res" where
  "EventCount_GetOrDefault B P txn key =
    (case ResourceEventCountsTable_Get B P txn key of
       Err e \<Rightarrow> if e \<noteq> ErrKeyNotFound then Err e else Ok \<lparr>rec_MapMinToEvents = Some []\<rparr>
     | Panic m \<Rightarrow> Panic m
     | Ok rec \<Rightarrow> Ok rec)"

definition WatchActivity_GetOrDefault ::
  "('db, 'txn, 'it) badger \<Rightarrow> pb_lib \<Rightarrow> 'txn \<Rightarrow> string \<Rightarrow> WatchActivity res" where
  "WatchActivity_GetOrDefault B P txn key =
    (case WatchActivityTable_Get B P txn key of
       Err e \<Rightarrow> if e \<noteq> ErrKeyNotFound then Err e else Ok \<lparr>act_NoChangeAt = [], act_ChangedAt = []\<rparr>
     | Panic m \<Rightarrow> Panic m
     | Ok rec \<Rightarrow> Ok rec)"

section \<open>Lemmas\<close>

text \<open>All tables parse; the partitions of all tables.\<close>

definition tables_parse :: "(string \<rightharpoonup> string) \<Rightarrow> bool" where
  "tables_parse m \<longleftrightarrow> table_parses event_key_ops m \<and> table_parses ressum_key_ops m
     \<and> table_parses watch_key_ops m \<and> table_parses activity_key_ops m"

definition all_partitions :: "(string \<rightharpoonup> string) \<Rightarrow> string set" where
  "all_partitions m = table_partitions event_key_ops m \<union> table_partitions ressum_key_ops m
     \<union> table_partitions watch_key_ops m \<union> table_partitions activity_key_ops m"

text \<open>A list holds the bounds of a set: empty with the set, else its least and greatest members.\<close>

definition spans :: "string list \<Rightarrow> string set \<Rightarrow> bool" where
  "spans ps A \<longleftrightarrow> set ps \<subseteq> A \<and> (\<forall>p \<in> A. (\<exists>q \<in> set ps. q \<le> p) \<and> (\<exists>q \<in> set ps. p \<le> q))"

lemma spans_empty: "spans [] {}"
  by (simp add: spans_def)

lemma spans_append: "spans ps A \<Longrightarrow> spans qs B \<Longrightarrow> spans (ps @ qs) (A \<union> B)"
  unfolding spans_def by auto

definition min_max_ok :: "(bool \<times> string \<times> string) res \<Rightarrow> string set \<Rightarrow> bool" where
  "min_max_ok r P \<longleftrightarrow> (P = {} \<and> r = Ok (False, [], []))
     \<or> (\<exists>mn mx. r = Ok (True, mn, mx) \<and> mn \<in> P \<and> mx \<in> P \<and> (\<forall>p \<in> P. mn \<le> p \<and> p \<le> mx))"

lemma spans_pair: "mn \<in> P \<Longrightarrow> mx \<in> P \<Longrightarrow> \<forall>p \<in> P. mn \<le> p \<and> p \<le> mx \<Longrightarrow> spans [mn, mx] P"
  by (simp add: spans_def)

lemma collect_spans:
  assumes "list_all2 (\<lambda>g P. min_max_ok (g txn) P) gs Ps" "spans ps A"
  shows "\<exists>ps'. collect_partitions gs txn ps = Ok ps' \<and> spans ps' (A \<union> \<Union>(set Ps))"
  using assms
proof (induction gs Ps arbitrary: ps A rule: list_all2_induct)
  case Nil
  then show ?case by simp
next
  case (Cons g gs P Ps)
  from Cons.hyps(1) consider "P = {}" "g txn = Ok (False, [], [])"
    | mn mx where "g txn = Ok (True, mn, mx)" "spans [mn, mx] P"
    unfolding min_max_ok_def using spans_pair by blast
  then show ?case
  proof cases
    case 1
    then show ?thesis using Cons.IH[OF Cons.prems] by simp
  next
    case 2
    then show ?thesis using Cons.IH[OF spans_append[OF Cons.prems 2(2)]] by (simp add: Un_assoc)
  qed
qed

lemma sort_bounds:
  assumes "ps \<noteq> []" "spans ps A"
  shows "sort ps ! 0 \<in> A" "sort ps ! (length ps - 1) \<in> A"
    "p \<in> A \<Longrightarrow> sort ps ! 0 \<le> p" "p \<in> A \<Longrightarrow> p \<le> sort ps ! (length ps - 1)"
proof -
  have mem: "sort ps ! i \<in> set ps" if "i < length ps" for i
    using nth_mem[of i "sort ps"] that by (simp only: length_sort set_sort)
  have bnd: "sort ps ! 0 \<le> q \<and> q \<le> sort ps ! (length ps - 1)" if "q \<in> set ps" for q
  proof -
    have "q \<in> set (sort ps)" using that by (simp only: set_sort)
    then obtain i where i: "i < length ps" "sort ps ! i = q"
      unfolding in_set_conv_nth length_sort by blast
    have "sort ps ! 0 \<le> sort ps ! i"
      by (rule sorted_nth_mono) (simp_all only: sorted_sort length_sort i(1) le0)
    moreover have "sort ps ! i \<le> sort ps ! (length ps - 1)"
      by (rule sorted_nth_mono) (use i(1) in simp_all)
    ultimately show ?thesis unfolding i(2) by blast
  qed
  show "sort ps ! 0 \<in> A" "sort ps ! (length ps - 1) \<in> A"
    using assms mem[of 0] mem[of "length ps - 1"] by (auto simp: spans_def)
  show "p \<in> A \<Longrightarrow> sort ps ! 0 \<le> p" "p \<in> A \<Longrightarrow> p \<le> sort ps ! (length ps - 1)"
    using assms(2) bnd unfolding spans_def by (metis order_trans)+
qed

lemmas min_max_getters = ResourceEventCountsTable_GetMinMaxPartitions_def
  ResourceSummaryTable_GetMinMaxPartitions_def KubeWatchResultTable_GetMinMaxPartitions_def
  WatchActivityTable_GetMinMaxPartitions_def

context badger_store
begin

lemma collect_partitions_spans:
  assumes "tok t" "tables_parse (tview t)"
  shows "\<exists>ps. collect_partitions (GetTables B) t [] = Ok ps \<and> spans ps (all_partitions (tview t))"
proof -
  have e: "table_parses event_key_ops (tview t)" "table_parses ressum_key_ops (tview t)"
    "table_parses watch_key_ops (tview t)" "table_parses activity_key_ops (tview t)"
    using assms(2) by (simp_all add: tables_parse_def)
  note mm = min_max_partitions[OF assms(1) eck.table_key_axioms e(1)]
    min_max_partitions[OF assms(1) rsk.table_key_axioms e(2)]
    min_max_partitions[OF assms(1) wtk.table_key_axioms e(3)]
    min_max_partitions[OF assms(1) wak.table_key_axioms e(4)]
  have "list_all2 (\<lambda>g P. min_max_ok (g t) P) (GetTables B)
      [table_partitions event_key_ops (tview t), table_partitions ressum_key_ops (tview t),
       table_partitions watch_key_ops (tview t), table_partitions activity_key_ops (tview t)]"
    using mm by (simp add: GetTables_def min_max_getters min_max_ok_def)
  from collect_spans[OF this spans_empty] show ?thesis by (simp add: all_partitions_def Un_assoc)
qed

lemma min_and_max_partition:
  assumes "dok d" "tables_parse (dview d)"
  shows "(all_partitions (dview d) = {} \<and> GetMinAndMaxPartition B d = Ok (False, [], []))
    \<or> (\<exists>mn mx. GetMinAndMaxPartition B d = Ok (True, mn, mx)
        \<and> mn \<in> all_partitions (dview d) \<and> mx \<in> all_partitions (dview d)
        \<and> (\<forall>p \<in> all_partitions (dview d). mn \<le> p \<and> p \<le> mx))"
proof -
  let ?t = "db_NewTxn B d True"
  have t: "tok ?t" "tview ?t = dview d" using newtxn[OF assms(1)] by auto
  obtain ps where ps: "collect_partitions (GetTables B) ?t [] = Ok ps" "spans ps (all_partitions (dview d))"
    using collect_partitions_spans[OF t(1)] t(2) assms(2) by auto
  show ?thesis
  proof (cases "ps = []")
    case True
    then show ?thesis
      using ps by (auto simp: GetMinAndMaxPartition_def GetMinAndMaxPartitionWithTxn_def db_View_def spans_def)
  next
    case False
    then show ?thesis
      using ps(1) sort_bounds[OF False ps(2)]
      by (auto simp: GetMinAndMaxPartition_def GetMinAndMaxPartitionWithTxn_def db_View_def Let_def)
  qed
qed

end

section \<open>Properties\<close>

text \<open>
  C21: the oldest and the newest partition of the store. When the keys of all four tables
  parse, \<open>GetMinAndMaxPartition\<close> does not panic; it reports failure exactly when no table has
  a key, and otherwise the least and the greatest partition over all tables. The garbage
  collector decides on these two.
\<close>

theorem min_and_max_partition_correct:
  assumes "badger_store B dview dok tview tok writable ahead iopts" "dok d" "tables_parse (dview d)"
  shows "(all_partitions (dview d) = {} \<and> GetMinAndMaxPartition B d = Ok (False, [], []))
    \<or> (\<exists>mn mx. GetMinAndMaxPartition B d = Ok (True, mn, mx)
        \<and> mn \<in> all_partitions (dview d) \<and> mx \<in> all_partitions (dview d)
        \<and> (\<forall>p \<in> all_partitions (dview d). mn \<le> p \<and> p \<le> mx))"
  by (rule badger_store.min_and_max_partition[OF assms])

theorem min_and_max_partition_correct_witness:
  "\<exists>mn mx. GetMinAndMaxPartition mock_ops
      \<lparr>mock_data = [(''/watchactivity/001546398000/P/ns/n/u'', ''v'')]\<rparr> = Ok (True, mn, mx)"
proof -
  let ?d = "\<lparr>mock_data = [(''/watchactivity/001546398000/P/ns/n/u'', ''v'')]\<rparr>"
  have p: "k_Parse activity_key_ops ''/watchactivity/001546398000/P/ns/n/u''
      = Ok \<lparr>wa_PartitionId = ''001546398000'', wa_Kind = ''P'', wa_Namespace = ''ns'', wa_Name = ''n'', wa_Uid = ''u''\<rparr>"
    by (simp add: activity_key_ops_def WatchActivityKey_Parse_def parse_table_key_def ParseKey_def
        WatchActivityKey_TableName_def)
  have "tables_parse (mock_dview ?d)"
    using p by (simp add: tables_parse_def table_parses_def mock_dview_def key_ops_defs go_defs
        table_prefix_def OpenTable_def table_names)
  moreover have "''001546398000'' \<in> all_partitions (mock_dview ?d)"
    using p by (simp add: all_partitions_def table_partitions_def mock_dview_def activity_key_ops_def
        table_keys_def table_prefix_def OpenTable_def WatchActivityKey_TableName_def)
  ultimately show ?thesis
    using min_and_max_partition_correct[OF mock.badger_store_axioms, of ?d] by (auto simp: mock_dok_def)
qed

end
