(* ===== verification/Extract.thy ===== *)
theory Extract
  imports GoTime
begin

text \<open>
  \<open>pkg/sloop/kubeextractor\<close>: what the program reads out of a Kubernetes payload. The decoder
  of \<open>encoding/json\<close> into the structs the code declares, \<open>time.Parse\<close> with the RFC 3339
  layout and the JSON editor \<open>gabs\<close> are the fields of the record \<open>ext_lib\<close>, an argument of
  what uses them (\<open>'j\<close> is gabs' parsed document).
\<close>

record KubeMetadataOwnerReference =
  or_Kind :: string
  or_Name :: string
  or_Uid :: string

record KubeMetadata =
  km_Name :: string
  km_Namespace :: string
  km_Uid :: string
  km_SelfLink :: string
  km_ResourceVersion :: string
  km_CreationTimestamp :: string
  km_OwnerReferences :: "KubeMetadataOwnerReference list"

record KubeInvolvedObject =
  io_Kind :: string
  io_Name :: string
  io_Namespace :: string
  io_Uid :: string

record EventInfo =
  ei_Reason :: string
  ei_Type :: string
  ei_FirstTimestamp :: gotime
  ei_LastTimestamp :: gotime
  ei_Count :: int

text \<open>The anonymous struct that \<open>ExtractEventInfo\<close> decodes into.\<close>

record event_json =
  ej_Reason :: string
  ej_FirstTimestamp :: string
  ej_LastTimestamp :: string
  ej_Count :: int
  ej_Type :: string

record 'j ext_lib =
  json_Metadata :: "string \<Rightarrow> KubeMetadata res"
  json_InvolvedObject :: "string \<Rightarrow> KubeInvolvedObject res"
  json_Event :: "string \<Rightarrow> event_json res"
  time_Parse_RFC3339 :: "string \<Rightarrow> gotime res"
  gabs_ParseJSON :: "string \<Rightarrow> 'j res"
  gabs_Set :: "'j \<Rightarrow> string \<Rightarrow> string list \<Rightarrow> 'j res"
  gabs_numConditions :: "'j \<Rightarrow> nat"
  gabs_String :: "'j \<Rightarrow> string"

definition NodeKind :: string where [go_defs]: "NodeKind = ''Node''"
definition NamespaceKind :: string where [go_defs]: "NamespaceKind = ''Namespace''"
definition PodKind :: string where [go_defs]: "PodKind = ''Pod''"
definition EventKind :: string where [go_defs]: "EventKind = ''Event''"

text \<open>The zero values that the extractors return beside an error.\<close>

definition no_metadata :: KubeMetadata where
  "no_metadata = \<lparr>km_Name = [], km_Namespace = [], km_Uid = [], km_SelfLink = [], km_ResourceVersion = [],
     km_CreationTimestamp = [], km_OwnerReferences = []\<rparr>"

definition no_object :: KubeInvolvedObject where
  "no_object = \<lparr>io_Kind = [], io_Name = [], io_Namespace = [], io_Uid = []\<rparr>"

definition ExtractMetadata :: "'j ext_lib \<Rightarrow> string \<Rightarrow> KubeMetadata \<times> gerror option" where
  "ExtractMetadata X payload =
    (case json_Metadata X payload of
       Ok m \<Rightarrow> (m, None) | Err e \<Rightarrow> (no_metadata, Some e) | Panic m \<Rightarrow> (no_metadata, Some (LibError m)))"

definition ExtractInvolvedObject :: "'j ext_lib \<Rightarrow> string \<Rightarrow> KubeInvolvedObject \<times> gerror option" where
  "ExtractInvolvedObject X payload =
    (case json_InvolvedObject X payload of
       Ok m \<Rightarrow> (m, None) | Err e \<Rightarrow> (no_object, Some e) | Panic m \<Rightarrow> (no_object, Some (LibError m)))"

text \<open>A timestamp that does not parse is the zero time.\<close>

definition parse_or_zero :: "'j ext_lib \<Rightarrow> string \<Rightarrow> gotime" where
  "parse_or_zero X s = (case time_Parse_RFC3339 X s of Ok t \<Rightarrow> t | Err e \<Rightarrow> zero_time | Panic m \<Rightarrow> zero_time)"

definition ExtractEventInfo :: "'j ext_lib \<Rightarrow> string \<Rightarrow> EventInfo res" where
  "ExtractEventInfo X payload =
    bind_res (json_Event X payload) (\<lambda>r.
      Ok \<lparr>ei_Reason = ej_Reason r, ei_Type = ej_Type r,
          ei_FirstTimestamp = parse_or_zero X (ej_FirstTimestamp r),
          ei_LastTimestamp = parse_or_zero X (ej_LastTimestamp r), ei_Count = ej_Count r\<rparr>)"

definition GetInvolvedObjectNameFromEventName :: "string \<Rightarrow> string res" where
  "GetInvolvedObjectNameFromEventName eventName =
    (case last_index CHR ''.'' eventName of
       None \<Rightarrow> Err (Errorf (''unexpected format for a k8s event name: '' @ eventName))
     | Some dotIdx \<Rightarrow> Ok (take dotIdx eventName))"

definition IsClustersScopedResource :: "string \<Rightarrow> bool" where
  "IsClustersScopedResource selectedKind =
    (if selectedKind = NodeKind \<or> selectedKind = NamespaceKind then True else False)"

section \<open>Comparing nodes\<close>

fun set_conditions :: "'j ext_lib \<Rightarrow> 'j \<Rightarrow> nat list \<Rightarrow> 'j res" where
  "set_conditions X doc [] = Ok doc"
| "set_conditions X doc (idx # idxs) =
     (case gabs_Set X doc ''removed'' [''status'', ''conditions'', format_int (int idx), ''lastHeartbeatTime''] of
        Err e \<Rightarrow> Err (Wrapped e ''Could not set node condition'')
      | Panic m \<Rightarrow> Panic m
      | Ok doc' \<Rightarrow> set_conditions X doc' idxs)"

definition removeResVerAndTimestamp :: "'j ext_lib \<Rightarrow> string \<Rightarrow> string res" where
  "removeResVerAndTimestamp X nodeJson =
    bind_res (map_err (\<lambda>e. Wrapped e ''Failed to parse json for node resource'') (gabs_ParseJSON X nodeJson))
      (\<lambda>doc. bind_res
        (map_err (\<lambda>e. Wrapped e ''Could not replace metadata.resourceVersion in node resource'')
          (gabs_Set X doc ''removed'' [''metadata'', ''resourceVersion'']))
        (\<lambda>doc'. bind_res (set_conditions X doc' [0..<gabs_numConditions X doc'])
          (\<lambda>doc''. Ok (gabs_String X doc''))))"

definition NodeHasMajorUpdate :: "'j ext_lib \<Rightarrow> string \<Rightarrow> string \<Rightarrow> bool res" where
  "NodeHasMajorUpdate X node1 node2 =
    bind_res (removeResVerAndTimestamp X node1) (\<lambda>cleanNode1.
      bind_res (removeResVerAndTimestamp X node2) (\<lambda>cleanNode2. Ok (\<not> (cleanNode1 = cleanNode2))))"

section \<open>Properties\<close>

text \<open>
  The object of an event. Adding a dot and a suffix without dots to a resource name gives
  an event name from which the name is recovered; a name without a dot is an error.
\<close>

lemma involved_object_name:
  "(CHR ''.'' \<notin> set suf \<longrightarrow> GetInvolvedObjectNameFromEventName (name @ ''.'' @ suf) = Ok name)
    \<and> (CHR ''.'' \<notin> set name \<longrightarrow> (\<exists>e. GetInvolvedObjectNameFromEventName name = Err e))"
proof -
  have "last_index CHR ''.'' (name @ ''.'' @ suf) = Some (length name)" if "CHR ''.'' \<notin> set suf"
    using that by (simp add: last_index_Some nth_append)
  then show ?thesis
    by (auto simp: GetInvolvedObjectNameFromEventName_def last_index_None[THEN iffD2])
qed

lemma involved_object_name_witness:
  "GetInvolvedObjectNameFromEventName ''some-pod.v1.15c37e2c4b7ff38e'' = Ok ''some-pod.v1''"
  using involved_object_name[of "''15c37e2c4b7ff38e''" "''some-pod.v1''"] by simp

end
