(* ===== verification/QueryFilters.thy ===== *)
theory QueryFilters
  imports Tables Extract
begin

text \<open>
  The parameters of a query (\<open>pkg/sloop/queries/params.go\<close>) and the predicates that decide
  which rows of a table a query keeps (\<open>rangereadfilters.go\<close>). A key predicate that fails to
  parse its key drops the row.
\<close>

section \<open>Parameters\<close>

text \<open>\<open>url.Values\<close>: a map from a name to the list of its values; \<open>Get\<close> is the first one.\<close>

type_synonym url_values = "(string \<times> string list) list"

definition params_Get :: "url_values \<Rightarrow> string \<Rightarrow> string" where
  "params_Get params key = (case map_of params key of Some (v # vs) \<Rightarrow> v | _ \<Rightarrow> [])"

definition LookbackParam :: string where [go_defs]: "LookbackParam = ''lookback''"
definition NamespaceParam :: string where [go_defs]: "NamespaceParam = ''namespace''"
definition KindParam :: string where [go_defs]: "KindParam = ''kind''"
definition NameParam :: string where [go_defs]: "NameParam = ''name''"
definition NameMatchParam :: string where [go_defs]: "NameMatchParam = ''namematch''"
definition UuidParam :: string where [go_defs]: "UuidParam = ''uuid''"
definition StartTimeParam :: string where [go_defs]: "StartTimeParam = ''start_time''"
definition EndTimeParam :: string where [go_defs]: "EndTimeParam = ''end_time''"
definition AllKinds :: string where [go_defs]: "AllKinds = ''_all''"
definition AllNamespaces :: string where [go_defs]: "AllNamespaces = ''_all''"
definition DefaultNamespace :: string where [go_defs]: "DefaultNamespace = ''default''"

section \<open>Which rows are kept\<close>

text \<open>
  \<open>strings.EqualFold\<close>: equal under simple case folding. The folding covers the ASCII letters
  and the two other characters that fold to an ASCII letter (the Kelvin sign and the long s);
  other letters beyond ASCII are compared as they are.
\<close>

definition lower_char :: "char \<Rightarrow> char" where
  "lower_char c = (let n = of_char c :: nat in if 65 \<le> n \<and> n \<le> 90 then char_of (n + 32) else c)"

fun fold_case :: "string \<Rightarrow> string" where
  "fold_case (a # b # c # s) =
    (if a = CHR 0xE2 \<and> b = CHR 0x84 \<and> c = CHR 0xAA then CHR ''k'' # fold_case s
     else if a = CHR 0xC5 \<and> b = CHR 0xBF then CHR ''s'' # fold_case (c # s)
     else lower_char a # fold_case (b # c # s))"
| "fold_case [a, b] = (if a = CHR 0xC5 \<and> b = CHR 0xBF then ''s'' else [lower_char a, lower_char b])"
| "fold_case [a] = [lower_char a]"
| "fold_case [] = []"

definition EqualFold :: "string \<Rightarrow> string \<Rightarrow> bool" where
  "EqualFold s t = (fold_case s = fold_case t)"

definition keepRowHelper ::
  "string \<Rightarrow> string \<Rightarrow> string \<Rightarrow> string \<Rightarrow> string \<Rightarrow> string \<Rightarrow> string \<Rightarrow> string \<Rightarrow> string \<Rightarrow> bool" where
  "keepRowHelper name kind namespace selectedKind selectedNamespace selectedNameMatchSubstring
      selectedNameExactMatch selectedUuid uuid =
    (if selectedKind \<noteq> AllKinds \<and> selectedKind \<noteq> kind then False
     else if selectedKind = AllKinds \<and> selectedNamespace \<noteq> AllNamespaces \<and> kind = NodeKind then False
     else if selectedNamespace \<noteq> AllNamespaces \<and> selectedKind \<noteq> NodeKind
        \<and> (if kind = NamespaceKind then selectedNamespace \<noteq> name else selectedNamespace \<noteq> namespace) then False
     else if selectedNameMatchSubstring \<noteq> [] \<and> \<not> contains_str name selectedNameMatchSubstring then False
     else if selectedNameExactMatch \<noteq> [] \<and> \<not> EqualFold name selectedNameExactMatch then False
     else if selectedUuid \<noteq> [] \<and> selectedUuid \<noteq> uuid then False
     else True)"

definition paramFilterResSumFn :: "url_values \<Rightarrow> string \<Rightarrow> bool" where
  "paramFilterResSumFn params key =
    (case ResourceSummaryKey_Parse key of
       Ok k \<Rightarrow> keepRowHelper (rk_Name k) (rk_Kind k) (rk_Namespace k) (params_Get params KindParam)
                (params_Get params NamespaceParam) (params_Get params NameMatchParam)
                (params_Get params NameParam) (params_Get params UuidParam) (rk_Uid k)
     | _ \<Rightarrow> False)"

definition paramEventCountSumFn :: "url_values \<Rightarrow> string \<Rightarrow> bool" where
  "paramEventCountSumFn params key =
    (case EventCountKey_Parse key of
       Ok k \<Rightarrow> keepRowHelper (ec_Name k) (ec_Kind k) (ec_Namespace k) (params_Get params KindParam)
                (params_Get params NamespaceParam) (params_Get params NameMatchParam) [] [] []
     | _ \<Rightarrow> False)"

definition paramFilterWatchActivityFn :: "url_values \<Rightarrow> string \<Rightarrow> bool" where
  "paramFilterWatchActivityFn params key =
    (case WatchActivityKey_Parse key of
       Ok k \<Rightarrow> keepRowHelper (wa_Name k) (wa_Kind k) (wa_Namespace k) (params_Get params KindParam)
                (params_Get params NamespaceParam) (params_Get params NameMatchParam)
                (params_Get params NameParam) (params_Get params UuidParam) (wa_Uid k)
     | _ \<Rightarrow> False)"

definition isResSummaryValInTimeRange :: "pb_lib \<Rightarrow> gotime \<Rightarrow> gotime \<Rightarrow> ResourceSummary \<Rightarrow> bool" where
  "isResSummaryValInTimeRange P startTime endTime retVal =
    (case ptypes_Timestamp P (rsum_FirstSeen retVal) of
       Ok firstSeen \<Rightarrow>
         (case ptypes_Timestamp P (rsum_LastSeen retVal) of
            Ok lastSeen \<Rightarrow>
              (if time_After firstSeen endTime \<or> time_Before lastSeen startTime then False else True)
          | _ \<Rightarrow> False)
     | _ \<Rightarrow> False)"

definition isEventValInTimeRange :: "'j ext_lib \<Rightarrow> gotime \<Rightarrow> gotime \<Rightarrow> KubeWatchResult \<Rightarrow> bool" where
  "isEventValInTimeRange X startTime endTime retVal =
    (case ExtractEventInfo X (wr_Payload retVal) of
       Ok eventInfo \<Rightarrow>
         (if time_After (ei_FirstTimestamp eventInfo) endTime \<or> time_Before (ei_LastTimestamp eventInfo) startTime
          then False else True)
     | _ \<Rightarrow> False)"

definition matchEventInvolvedObject :: "'j ext_lib \<Rightarrow> url_values \<Rightarrow> KubeWatchResult \<Rightarrow> bool" where
  "matchEventInvolvedObject X params retVal =
    (let selectedKind = params_Get params KindParam;
         (involvedObj, err) = ExtractInvolvedObject X (wr_Payload retVal)
     in case err of
          Some e \<Rightarrow> False
        | None \<Rightarrow> (if io_Kind involvedObj \<noteq> selectedKind then False else True))"

definition isResPayloadInTimeRange :: "pb_lib \<Rightarrow> gotime \<Rightarrow> gotime \<Rightarrow> KubeWatchResult \<Rightarrow> bool" where
  "isResPayloadInTimeRange P startTime endTime retVal =
    (case ptypes_Timestamp P (wr_Timestamp retVal) of
       Ok resTime \<Rightarrow> (if time_After resTime endTime \<or> time_Before resTime startTime then False else True)
     | _ \<Rightarrow> False)"

section \<open>Properties\<close>

text \<open>
  Which resources a query shows. A row passes the resource summary filter exactly when
  its key parses and matches every selection that is set: the kind; the namespace, where a
  \<open>Namespace\<close> counts as its own namespace and a \<open>Node\<close> as part of none, so that it is shown
  for a namespace only when the kind \<open>Node\<close> itself is selected; the name (a part, or all of it
  up to case); and the uid.
\<close>

lemma res_sum_filter_exact:
  "paramFilterResSumFn params key \<longleftrightarrow> (\<exists>k. ResourceSummaryKey_Parse key = Ok k
    \<and> (let kd = params_Get params KindParam; ns = params_Get params NamespaceParam in
       (kd = ''_all'' \<or> kd = rk_Kind k)
     \<and> (ns = ''_all'' \<or> (if rk_Kind k = ''Node'' then kd = ''Node''
                       else if rk_Kind k = ''Namespace'' then ns = rk_Name k else ns = rk_Namespace k))
     \<and> contains_str (rk_Name k) (params_Get params NameMatchParam)
     \<and> (params_Get params NameParam \<noteq> [] \<longrightarrow> EqualFold (rk_Name k) (params_Get params NameParam))
     \<and> (params_Get params UuidParam \<noteq> [] \<longrightarrow> params_Get params UuidParam = rk_Uid k)))"
proof -
  have c: "contains_str s []" for s using contains_str_iff[of s "[]"] by auto
  show ?thesis
    by (cases "ResourceSummaryKey_Parse key")
       (auto simp: paramFilterResSumFn_def keepRowHelper_def AllKinds_def AllNamespaces_def NodeKind_def
          NamespaceKind_def Let_def c split: if_splits)
qed

lemma res_sum_filter_exact_witness:
  "paramFilterResSumFn [(''kind'', [''_all'']), (''namespace'', [''ns1'']), (''name'', [''POD-1''])]
     ''/ressum/001546398000/Pod/ns1/pod-1/uid1''"
  unfolding res_sum_filter_exact
  by (simp add: ResourceSummaryKey_Parse_def parse_table_key_def ParseKey_def ResourceSummaryKey_TableName_def
      params_Get_def go_defs EqualFold_def lower_char_def char_of_def bit_0)

end
