(* ===== verification/TimeRange.thy ===== *)
theory TimeRange
  imports QueryFilters
begin

text \<open>
  \<open>pkg/sloop/queries/timerange.go\<close>: from the parameters of a query to its time range, and the
  clipping of rows to that range. The two parsers of Go's \<open>time\<close> package, \<open>time.ParseDuration\<close> and
  \<open>time.Parse\<close> with the layout of the code, are the arguments \<open>parseDuration\<close> and \<open>parseLayout\<close>; the
  clock is the argument \<open>now\<close>. Go maps of rows are association lists.
\<close>

section \<open>The time range of a query\<close>

definition minLookback :: int where
  "minLookback = 1 * Minute"

text \<open>The messages of the errors leave out the parameters.\<close>

definition parseUnixTimeString :: "string \<Rightarrow> gotime res" where
  "parseUnixTimeString unixStr =
    bind_res (parse_int64 unixStr) (\<lambda>unixNum. Ok (time_UTC (time_Unix UTC unixNum 0)))"

definition getTimeRangeFromStartEnd :: "string \<Rightarrow> string \<Rightarrow> (gotime \<times> gotime) res" where
  "getTimeRangeFromStartEnd startTimeStr endTimeStr =
    bind_res (parseUnixTimeString startTimeStr) (\<lambda>start.
      bind_res (parseUnixTimeString endTimeStr) (\<lambda>end. Ok (start, end)))"

text \<open>The adjustments at the end of \<open>computeTimeRangeInternal\<close>.\<close>

definition clamp_range :: "gotime \<Rightarrow> int \<Rightarrow> gotime \<Rightarrow> gotime \<Rightarrow> gotime \<times> gotime" where
  "clamp_range endOfTime maxLookBack computedStart computedEnd =
    (let shiftBy = time_Sub computedEnd endOfTime;
         (start1, end1) =
           (if time_After computedEnd endOfTime
            then (time_Add computedStart (wrap_int64 (-1 * shiftBy)), time_Add computedEnd (wrap_int64 (-1 * shiftBy)))
            else (computedStart, computedEnd));
         start2 = (if time_Sub end1 start1 < minLookback then time_Add end1 (-1 * minLookback) else start1);
         start3 = (if time_Sub end1 start2 > maxLookBack then time_Add end1 (wrap_int64 (-1 * maxLookBack)) else start2)
     in (start3, end1))"

definition computeTimeRangeInternal ::
  "(string \<Rightarrow> int res) \<Rightarrow> (string \<Rightarrow> gotime res) \<Rightarrow> url_values \<Rightarrow> gotime \<Rightarrow> int \<Rightarrow> (gotime \<times> gotime) res" where
  "computeTimeRangeInternal parseDuration parseLayout params endOfTime maxLookBack =
    (let lookBackVal = params_Get params LookbackParam;
         startTimeVal = params_Get params StartTimeParam;
         endTimeVal = params_Get params EndTimeParam
     in if startTimeVal = [] \<and> endTimeVal = [] \<and> lookBackVal = [] then
          Err (Errorf ''Time range must be set with either lookback or both of start and end'')
        else if lookBackVal \<noteq> [] \<and> startTimeVal \<noteq> [] then
          Err (Errorf ''When lookback is set, you can not set both of start and end or set only start'')
        else if lookBackVal = [] \<and> (startTimeVal = [] \<or> endTimeVal = []) then
          Err (Errorf ''Either start and end both need to be set or neither set'')
        else bind_res
          (if lookBackVal \<noteq> [] then
             bind_res (if endTimeVal = [] then Ok endOfTime else parseLayout endTimeVal) (\<lambda>computedEnd.
               bind_res (parseDuration lookBackVal) (\<lambda>lookbackRange.
                 Ok (time_Add computedEnd (wrap_int64 (-1 * lookbackRange)), computedEnd)))
           else getTimeRangeFromStartEnd startTimeVal endTimeVal)
          (\<lambda>(computedStart, computedEnd). Ok (clamp_range endOfTime maxLookBack computedStart computedEnd)))"

definition getEndOfTime :: "('db, 'txn, 'it) badger \<Rightarrow> int \<Rightarrow> gotime \<Rightarrow> 'db \<Rightarrow> gotime res" where
  "getEndOfTime B pd now db =
    (case GetMinAndMaxPartition B db of
       Err e \<Rightarrow> Ok now
     | Panic m \<Rightarrow> Panic m
     | Ok (ok, minPartition, maxPartition) \<Rightarrow>
         if \<not> ok then Ok now
         else (case GetTimeRangeForPartition pd maxPartition of
             Err e \<Rightarrow> Ok now
           | Panic m \<Rightarrow> Panic m
           | Ok (startTime, endTimeOfNewestPartition) \<Rightarrow>
               if time_After endTimeOfNewestPartition now then Ok now else Ok endTimeOfNewestPartition))"

definition computeTimeRange ::
  "('db, 'txn, 'it) badger \<Rightarrow> (string \<Rightarrow> int res) \<Rightarrow> (string \<Rightarrow> gotime res) \<Rightarrow> int \<Rightarrow> gotime \<Rightarrow> url_values \<Rightarrow> 'db
     \<Rightarrow> int \<Rightarrow> (gotime \<times> gotime) res" where
  "computeTimeRange B parseDuration parseLayout pd now params db maxLookBack =
    bind_res (getEndOfTime B pd now db) (\<lambda>endOfTime.
      computeTimeRangeInternal parseDuration parseLayout params endOfTime maxLookBack)"

section \<open>Clipping rows\<close>

text \<open>
  The value is passed by pointer and clipped in place, so the model returns the value beside
  the result; fields written before an error stay written.
\<close>

definition timeFilterResSumValue ::
  "pb_lib \<Rightarrow> ResourceSummary \<Rightarrow> gotime \<Rightarrow> gotime \<Rightarrow> bool res \<times> ResourceSummary" where
  "timeFilterResSumValue P val queryStartTime queryEndTime =
    (case ptypes_Timestamp P (rsum_CreateTime val) of
       Err e \<Rightarrow> (Err e, val)
     | Panic m \<Rightarrow> (Panic m, val)
     | Ok startTs \<Rightarrow>
       (case ptypes_Timestamp P (rsum_LastSeen val) of
          Err e \<Rightarrow> (Err e, val)
        | Panic m \<Rightarrow> (Panic m, val)
        | Ok lastTs \<Rightarrow>
          if time_After startTs queryEndTime \<or> time_Before lastTs queryStartTime then (Ok False, val)
          else
            (case (if time_Before startTs queryStartTime
                   then (case ptypes_TimestampProto P queryStartTime of
                           Ok ts \<Rightarrow> (Ok (), val\<lparr>rsum_CreateTime := Some ts\<rparr>)
                         | Err e \<Rightarrow> (Err e, val\<lparr>rsum_CreateTime := None\<rparr>)
                         | Panic m \<Rightarrow> (Panic m, val))
                   else (Ok (), val)) of
               (Err e, val1) \<Rightarrow> (Err e, val1)
             | (Panic m, val1) \<Rightarrow> (Panic m, val1)
             | (Ok _, val1) \<Rightarrow>
                 if time_After lastTs queryEndTime
                 then (case ptypes_TimestampProto P queryEndTime of
                         Ok ts \<Rightarrow> (Ok True, val1\<lparr>rsum_LastSeen := Some ts\<rparr>)
                       | Err e \<Rightarrow> (Err e, val1\<lparr>rsum_LastSeen := None\<rparr>)
                       | Panic m \<Rightarrow> (Panic m, val1))
                 else (Ok True, val1))))"

text \<open>On an error the rest of the map is left as it is.\<close>

fun timeFilterResSumMap ::
  "pb_lib \<Rightarrow> ('k \<times> ResourceSummary) list \<Rightarrow> gotime \<Rightarrow> gotime \<Rightarrow> unit res \<times> ('k \<times> ResourceSummary) list" where
  "timeFilterResSumMap P [] queryStartTime queryEndTime = (Ok (), [])"
| "timeFilterResSumMap P ((key, val) # resSumMap) queryStartTime queryEndTime =
    (case timeFilterResSumValue P val queryStartTime queryEndTime of
       (Err e, val') \<Rightarrow> (Err e, (key, val') # resSumMap)
     | (Panic m, val') \<Rightarrow> (Panic m, (key, val') # resSumMap)
     | (Ok keep, val') \<Rightarrow>
         let (r, rest) = timeFilterResSumMap P resSumMap queryStartTime queryEndTime
         in (r, if keep then (key, val') # rest else rest))"

definition timeFilterEventValue :: "ResourceEventCounts \<Rightarrow> gotime \<Rightarrow> gotime \<Rightarrow> bool res" where
  "timeFilterEventValue val queryStartTime queryEndTime = Ok True"

fun timeFilterEventsMap ::
  "('k \<times> ResourceEventCounts) list \<Rightarrow> gotime \<Rightarrow> gotime \<Rightarrow> unit res \<times> ('k \<times> ResourceEventCounts) list" where
  "timeFilterEventsMap [] queryStartTime queryEndTime = (Ok (), [])"
| "timeFilterEventsMap ((key, val) # events) queryStartTime queryEndTime =
    (case timeFilterEventValue val queryStartTime queryEndTime of
       Err e \<Rightarrow> (Err e, (key, val) # events)
     | Panic m \<Rightarrow> (Panic m, (key, val) # events)
     | Ok keep \<Rightarrow>
         let (r, rest) = timeFilterEventsMap events queryStartTime queryEndTime
         in (r, if keep then (key, val) # rest else rest))"

definition timeFilterWatchActivityOccurrences :: "int list \<Rightarrow> gotime \<Rightarrow> gotime \<Rightarrow> int list" where
  "timeFilterWatchActivityOccurrences occurrences queryStartTime queryEndTime =
    (let start = Unix queryStartTime; end = Unix queryEndTime
     in filter (\<lambda>when. start \<le> when \<and> when \<le> end) occurrences)"

definition timeFilterWatchActivity :: "WatchActivity \<Rightarrow> gotime \<Rightarrow> gotime \<Rightarrow> WatchActivity" where
  "timeFilterWatchActivity activity queryStartTime queryEndTime =
    activity\<lparr>act_ChangedAt := timeFilterWatchActivityOccurrences (act_ChangedAt activity) queryStartTime queryEndTime,
      act_NoChangeAt := timeFilterWatchActivityOccurrences (act_NoChangeAt activity) queryStartTime queryEndTime\<rparr>"

definition timeFilterWatchActivityMap ::
  "('k \<times> WatchActivity) list \<Rightarrow> gotime \<Rightarrow> gotime \<Rightarrow> ('k \<times> WatchActivity) list" where
  "timeFilterWatchActivityMap activityMap queryStartTime queryEndTime =
    concat (map (\<lambda>(key, val).
      let filtered = timeFilterWatchActivity val queryStartTime queryEndTime
      in if length (act_NoChangeAt filtered) = 0 \<and> length (act_ChangedAt filtered) = 0
         then [] else [(key, filtered)]) activityMap)"

section \<open>Lemmas\<close>

lemma clamp_range_bounds:
  assumes near: "tns ce - tns endOfTime < 2 ^ 63"
    and lim: "Minute \<le> maxLookBack" "maxLookBack < 2 ^ 63 - 1"
    and r: "clamp_range endOfTime maxLookBack cs ce = (s, e)"
  shows "tns e \<le> tns endOfTime \<and> Minute \<le> tns e - tns s \<and> tns e - tns s \<le> maxLookBack"
proof -
  define e1 where "e1 = (if time_After ce endOfTime then time_Add ce (wrap_int64 (-1 * time_Sub ce endOfTime)) else ce)"
  define s1 where "s1 = (if time_After ce endOfTime then time_Add cs (wrap_int64 (-1 * time_Sub ce endOfTime)) else cs)"
  define s2 where "s2 = (if time_Sub e1 s1 < minLookback then time_Add e1 (-1 * minLookback) else s1)"
  have es: "e = e1" "s = (if time_Sub e1 s2 > maxLookBack then time_Add e1 (wrap_int64 (-1 * maxLookBack)) else s2)"
    using r by (simp_all add: clamp_range_def e1_def s1_def s2_def Let_def split: if_splits)
  have "tns e1 \<le> tns endOfTime"
    using near by (simp add: e1_def time_After_def time_Add_def time_Sub_def wrap_int64_id)
  moreover have "Minute \<le> tns e1 - tns s2"
    by (simp add: s2_def time_Sub_def time_Add_def minLookback_def Minute_def min_less_iff_disj max_def)
  moreover have "wrap_int64 (-1 * maxLookBack) = - maxLookBack"
    using lim by (simp add: wrap_int64_id Minute_def)
  ultimately show ?thesis
    using es lim by (simp add: time_Add_def time_Sub_def less_max_iff_disj not_less)
qed

lemma computeTimeRange_OkE:
  assumes "computeTimeRangeInternal pdur play params endOfTime maxLookBack = Ok (s, e)"
  obtains cs ce where "ce = endOfTime \<or> parseUnixTimeString (params_Get params EndTimeParam) = Ok ce
      \<or> play (params_Get params EndTimeParam) = Ok ce" "clamp_range endOfTime maxLookBack cs ce = (s, e)"
proof (cases "params_Get params LookbackParam = []")
  case True
  then obtain cs ce where "getTimeRangeFromStartEnd (params_Get params StartTimeParam) (params_Get params EndTimeParam) = Ok (cs, ce)"
    "clamp_range endOfTime maxLookBack cs ce = (s, e)"
    using assms by (auto simp: computeTimeRangeInternal_def bind_res_Ok_iff Let_def split: if_splits)
  then show ?thesis using that by (auto simp: getTimeRangeFromStartEnd_def bind_res_Ok_iff)
next
  case False
  then obtain d ce where "(if params_Get params EndTimeParam = [] then Ok endOfTime else play (params_Get params EndTimeParam)) = Ok ce"
    "clamp_range endOfTime maxLookBack (time_Add ce (wrap_int64 (-1 * d))) ce = (s, e)"
    using assms by (auto simp: computeTimeRangeInternal_def bind_res_Ok_iff Let_def simp del: mult_minus_left mult_1 split: if_split_asm)
  then show ?thesis using that by (metis res.inject(1))
qed

section \<open>Properties\<close>

text \<open>
  C16: the range of a query ends no later than the data and is neither too short nor too long.
  When the limit is at least a minute (and below 292 years) and no requested time is more than
  292 years after the end of the data or before the range's end, a range that is computed ends no
  later than the end of the data, spans at least one minute and at most the limit.
\<close>

theorem time_range_clamped:
  assumes "computeTimeRangeInternal pdur play params endOfTime maxLookBack = Ok (s, e)"
    and "Minute \<le> maxLookBack" "maxLookBack < 2 ^ 63 - 1"
    and "\<forall>t. parseUnixTimeString (params_Get params EndTimeParam) = Ok t \<longrightarrow> tns t - tns endOfTime < 2 ^ 63"
    and "\<forall>t. play (params_Get params EndTimeParam) = Ok t \<longrightarrow> tns t - tns endOfTime < 2 ^ 63"
  shows "tns e \<le> tns endOfTime \<and> Minute \<le> tns e - tns s \<and> tns e - tns s \<le> maxLookBack"
proof -
  obtain cs ce where c: "ce = endOfTime \<or> parseUnixTimeString (params_Get params EndTimeParam) = Ok ce
      \<or> play (params_Get params EndTimeParam) = Ok ce" "clamp_range endOfTime maxLookBack cs ce = (s, e)"
    using assms(1) by (rule computeTimeRange_OkE)
  then have "tns ce - tns endOfTime < 2 ^ 63" using assms(4,5) by auto
  then show ?thesis using clamp_range_bounds[OF _ assms(2,3) c(2)] by blast
qed

theorem time_range_clamped_witness:
  "\<exists>s e. computeTimeRangeInternal (\<lambda>_. Err (LibError [])) (\<lambda>_. Err (LibError []))
      [(''start_time'', [''1000'']), (''end_time'', [''1010''])] (Time 5000000000000 UTC) (2 * Hour) = Ok (s, e)
    \<and> tns e - tns s = Minute"
proof -
  let ?p = "[(''start_time'', [''1000'']), (''end_time'', [''1010''])]"
  have v: "parse_int64 ''1000'' = Ok 1000" "parse_int64 ''1010'' = Ok 1010"
    by (simp_all add: parse_int64_def go_defs)
  have r: "computeTimeRangeInternal (\<lambda>_. Err (LibError [])) (\<lambda>_. Err (LibError [])) ?p (Time 5000000000000 UTC) (2 * Hour)
      = Ok (Time 950000000000 UTC, Time 1010000000000 UTC)"
    by (simp add: computeTimeRangeInternal_def getTimeRangeFromStartEnd_def parseUnixTimeString_def v
        params_Get_def go_defs minLookback_def clamp_range_def)
  have e: "parseUnixTimeString (params_Get ?p EndTimeParam) = Ok (Time 1010000000000 UTC)"
    by (simp add: params_Get_def parseUnixTimeString_def v go_defs)
  show ?thesis
    using time_range_clamped[OF r] e r by (auto simp: Hour_def Minute_def)
qed

text \<open>
  The clamping fails for a far future. An end time more than 292 years after the end of
  the data is only moved back by the largest duration, so the computed range still lies
  after the end of the data.
\<close>

lemma far_future_not_clamped:
  assumes "params_Get params LookbackParam = []" "params_Get params StartTimeParam \<noteq> []"
    and "parse_int64 (params_Get params StartTimeParam) = Ok a" "parse_int64 (params_Get params EndTimeParam) = Ok b"
    and "params_Get params EndTimeParam \<noteq> []" "tns endOfTime + 2 ^ 63 \<le> b * 1000000000"
  shows "\<exists>s e. computeTimeRangeInternal pdur play params endOfTime maxLookBack = Ok (s, e)
    \<and> tns e = b * 1000000000 - (2 ^ 63 - 1) \<and> tns endOfTime < tns e"
  using assms
  by (auto simp: computeTimeRangeInternal_def getTimeRangeFromStartEnd_def parseUnixTimeString_def time_UTC_def
      time_Unix_def Let_def clamp_range_def time_After_def time_Sub_def time_Add_def wrap_int64_id)

lemma far_future_not_clamped_witness:
  "\<exists>s e. computeTimeRangeInternal (\<lambda>_. Err (LibError [])) (\<lambda>_. Err (LibError []))
      [(''start_time'', [''1000'']), (''end_time'', [''99999999999''])] (Time 1546398000000000000 UTC) Hour = Ok (s, e)
    \<and> 1546398000000000000 < tns e"
proof -
  have "parse_int64 ''1000'' = Ok 1000" "parse_int64 ''99999999999'' = Ok 99999999999"
    by (simp_all add: parse_int64_def go_defs)
  then show ?thesis
    using far_future_not_clamped[of "[(''start_time'', [''1000'']), (''end_time'', [''99999999999''])]" 1000 99999999999
        "Time 1546398000000000000 UTC" "\<lambda>_. Err (LibError [])" "\<lambda>_. Err (LibError [])" Hour]
    by (auto simp: params_Get_def LookbackParam_def StartTimeParam_def EndTimeParam_def)
qed

text \<open>
  The end of the data is never in the future. It is the current time for an empty store,
  and otherwise the earlier of the current time and the end of the newest partition of all
  tables.
\<close>

lemma end_of_time_bounded:
  assumes "badger_store B dview dok tview tok writable ahead iopts" "dok d" "tables_parse (dview d)" "valid_pd pd"
  shows "\<exists>t. getEndOfTime B pd now d = Ok t \<and> tns t \<le> tns now
    \<and> (all_partitions (dview d) = {} \<longrightarrow> t = now)
    \<and> (\<forall>mx lo hi. mx \<in> all_partitions (dview d) \<longrightarrow> (\<forall>p \<in> all_partitions (dview d). p \<le> mx)
         \<longrightarrow> GetTimeRangeForPartition pd mx = Ok (lo, hi) \<longrightarrow> tns t = min (tns now) (tns hi))"
proof -
  have np: "GetTimeRangeForPartition pd p \<noteq> Panic m" for p m
    using assms(4) by (auto simp: GetTimeRangeForPartition_def bind_res_Panic_iff valid_pd_def)
  from badger_store.min_and_max_partition[OF assms(1-3)] show ?thesis
  proof (elim disjE exE conjE)
    assume "all_partitions (dview d) = {}" "GetMinAndMaxPartition B d = Ok (False, [], [])"
    then show ?thesis by (simp add: getEndOfTime_def)
  next
    fix mn mx
    assume mm: "GetMinAndMaxPartition B d = Ok (True, mn, mx)" "mx \<in> all_partitions (dview d)"
      "\<forall>p \<in> all_partitions (dview d). mn \<le> p \<and> p \<le> mx"
    have uniq: "y = mx" if "y \<in> all_partitions (dview d)" "\<forall>p \<in> all_partitions (dview d). p \<le> y" for y
      using bspec[OF mm(3) that(1)] bspec[OF that(2) mm(2)] by simp
    have ne: "all_partitions (dview d) \<noteq> {}" using mm(2) by blast
    show ?thesis
    proof (cases "GetTimeRangeForPartition pd mx")
      case (Ok r)
      obtain lo hi where r: "r = (lo, hi)" by (cases r)
      let ?t = "if time_After hi now then now else hi"
      have t: "getEndOfTime B pd now d = Ok ?t" "tns ?t = min (tns now) (tns hi)"
        using mm(1) Ok r by (simp_all add: getEndOfTime_def time_After_def)
      show ?thesis
      proof (intro exI[of _ ?t] conjI allI impI)
        fix y lo' hi'
        assume "y \<in> all_partitions (dview d)" "\<forall>p \<in> all_partitions (dview d). p \<le> y"
          "GetTimeRangeForPartition pd y = Ok (lo', hi')"
        then show "tns ?t = min (tns now) (tns hi')" using uniq Ok r t(2) by simp
      qed (use t ne in simp_all)
    next
      case (Err e)
      then have t: "getEndOfTime B pd now d = Ok now" using mm(1) by (simp add: getEndOfTime_def)
      show ?thesis
      proof (intro exI[of _ now] conjI allI impI)
        fix y lo' hi'
        assume "y \<in> all_partitions (dview d)" "\<forall>p \<in> all_partitions (dview d). p \<le> y"
          "GetTimeRangeForPartition pd y = Ok (lo', hi')"
        then show "tns now = min (tns now) (tns hi')" using uniq Err by simp
      qed (use t in simp_all)
    qed (use np in blast)
  qed
qed

lemma end_of_time_bounded_witness:
  "getEndOfTime mock_ops Hour (Time 7 UTC) mock_Open = Ok (Time 7 UTC)"
proof -
  have "all_partitions (mock_dview mock_Open) = {}" "tables_parse (mock_dview mock_Open)"
    by (simp_all add: all_partitions_def table_partitions_def table_keys_def mock_dview_def mock_Open_def
        tables_parse_def table_parses_def)
  then show ?thesis
    using end_of_time_bounded[OF mock.badger_store_axioms, of mock_Open Hour "Time 7 UTC"]
    by (auto simp: mock_dok_def mock_Open_def valid_pd_def)
qed

end
