(* ===== verification/ResPayload.thy ===== *)
theory ResPayload
  imports TimeRange
begin

text \<open>
  \<open>pkg/sloop/queries/respayloadquery.go\<close>, the payload history of a resource, and
  \<open>eventquery.go\<close>, its events. The final JSON encoding is an argument (\<open>encoding/json\<close> on the
  structs of the code). Go iterates over a map in any order; the model takes the order of the
  association list, and the properties hold for each.
\<close>

section \<open>Payloads\<close>

record PayloadOuput =
  po_PayloadKey :: string
  po_PayLoadTime :: int
  po_Payload :: string

definition GetSeekKey :: "int \<Rightarrow> WatchTableKey \<Rightarrow> gotime \<Rightarrow> WatchTableKey res" where
  "GetSeekKey pd keyComparator startTime =
    bind_res (GetPartitionId pd startTime) (\<lambda>partitionId.
      Ok (NewWatchTableKey partitionId (wk_Kind keyComparator) (wk_Namespace keyComparator)
            (wk_Name keyComparator) startTime))"

definition getKeyComparator :: "url_values \<Rightarrow> WatchTableKey" where
  "getKeyComparator params =
    (let selectedNamespace = params_Get params NamespaceParam;
         selectedName = params_Get params NameParam;
         selectedKind = params_Get params KindParam;
         selectedNamespace' = (if IsClustersScopedResource selectedKind then [] else selectedNamespace)
     in NewWatchTableKeyComparator selectedKind selectedNamespace' selectedName zero_time)"

definition getPayloadOutputList :: "(WatchTableKey \<times> KubeWatchResult) list \<Rightarrow> PayloadOuput list" where
  "getPayloadOutputList watchRes =
    map (\<lambda>(key, val). \<lparr>po_PayloadKey = WatchTableKey_String key,
      po_PayLoadTime = UnixNano (wk_Timestamp key), po_Payload = wr_Payload val\<rparr>) watchRes"

fun dupe_loop :: "string \<Rightarrow> PayloadOuput list \<Rightarrow> PayloadOuput list" where
  "dupe_loop lastPayload [] = []"
| "dupe_loop lastPayload (val # vals) =
    (if po_Payload val \<noteq> lastPayload then val # dupe_loop (po_Payload val) vals
     else dupe_loop (po_Payload val) vals)"

text \<open>
  \<open>sort.Slice\<close> leaves the order of equal elements open; the model keeps the order they had in
  the list, which is itself an arbitrary order of the map.
\<close>

definition removeDupePayloads :: "PayloadOuput list \<Rightarrow> PayloadOuput list" where
  "removeDupePayloads payloads = dupe_loop [] (sort_key po_PayLoadTime payloads)"

text \<open>
  The transaction of \<open>GetResPayload\<close>: the rows of the range and the newest row before it. The
  comparator that \<open>RangeRead\<close> gets is a pointer: it leaves its partition set to the last one read.
\<close>

definition set_last_partition :: "WatchTableKey \<Rightarrow> string list \<Rightarrow> WatchTableKey" where
  "set_last_partition k parts = (if parts = [] then k else WatchTableKey_SetPartitionId k (last parts))"

definition range_comparator :: "int \<Rightarrow> WatchTableKey \<Rightarrow> gotime \<Rightarrow> gotime \<Rightarrow> WatchTableKey" where
  "range_comparator pd k startTime endTime =
    (case GetPartitionsFromTimeRange pd startTime endTime of
       Some (Ok (parts, None)) \<Rightarrow> set_last_partition k parts | _ \<Rightarrow> k)"

definition res_payload_rows ::
  "('db, 'txn, 'it) badger \<Rightarrow> pb_lib \<Rightarrow> int \<Rightarrow> url_values \<Rightarrow> gotime \<Rightarrow> gotime \<Rightarrow> 'txn
     \<Rightarrow> (WatchTableKey \<times> KubeWatchResult) list res option" where
  "res_payload_rows B P pd params startTime endTime txn =
    (let keyComparator = getKeyComparator params;
         valPredFn = KubeWatchResult_ValPredicateFns [isResPayloadInTimeRange P startTime endTime]
     in Option.bind
          (KubeWatchResultTable_RangeRead B P pd txn (Some keyComparator) None () (Some valPredFn) startTime endTime)
          (\<lambda>r. case r of
             Err e \<Rightarrow> Some (Err e)
           | Panic m \<Rightarrow> Some (Panic m)
           | Ok (rows, Some e) \<Rightarrow> Some (Err e)
           | Ok ((watchRes, stats, _), None) \<Rightarrow>
               (case GetSeekKey pd keyComparator startTime of
                  Err e \<Rightarrow> Some (Err e)
                | Panic m \<Rightarrow> Some (Panic m)
                | Ok seekKey \<Rightarrow>
                    map_option (\<lambda>(previous, _, _). case previous of
                        Panic m \<Rightarrow> Panic m
                      | Err e \<Rightarrow> Ok watchRes
                      | Ok previousKey \<Rightarrow>
                          (case KubeWatchResultTable_Get B P txn (WatchTableKey_String previousKey) of
                             Ok previousVal \<Rightarrow> Ok (AList.update previousKey previousVal watchRes)
                           | Err e \<Rightarrow> if e \<noteq> ErrKeyNotFound then Err e else Ok watchRes
                           | Panic m \<Rightarrow> Panic m))
                    (KubeWatchResultTable_GetPreviousKey B pd txn seekKey
                       (range_comparator pd keyComparator startTime endTime)))))"

definition GetResPayload ::
  "('db, 'txn, 'it) badger \<Rightarrow> pb_lib \<Rightarrow> (PayloadOuput list \<Rightarrow> string res) \<Rightarrow> int \<Rightarrow> url_values \<Rightarrow> 'db
     \<Rightarrow> gotime \<Rightarrow> gotime \<Rightarrow> string res option" where
  "GetResPayload B P json pd params db startTime endTime =
    map_option (\<lambda>r. bind_res r (\<lambda>watchRes.
        map_err (\<lambda>e. Wrapped e ''failed to marshal json for PayloadList'')
          (json (removeDupePayloads (getPayloadOutputList watchRes)))))
      (db_View B db (res_payload_rows B P pd params startTime endTime))"

section \<open>Events\<close>

record EventOutput =
  eo_PartitionId :: string
  eo_Namespace :: string
  eo_Name :: string
  eo_WatchTimestamp :: gotime
  eo_Kind :: string
  eo_WatchType :: WatchType
  eo_Payload :: string
  eo_EventKey :: string

definition event_key_prefix :: "url_values \<Rightarrow> WatchTableKey" where
  "event_key_prefix params =
    (let selectedNamespace = params_Get params NamespaceParam;
         selectedName = params_Get params NameParam @ ''.'';
         selectedKind = params_Get params KindParam
     in \<lparr>wk_PartitionId = [], wk_Kind = EventKind,
         wk_Namespace = (if IsClustersScopedResource selectedKind then DefaultNamespace else selectedNamespace),
         wk_Name = selectedName, wk_Timestamp = zero_time\<rparr>)"

definition event_output :: "WatchTableKey \<times> KubeWatchResult \<Rightarrow> EventOutput" where
  "event_output kv = (case kv of (key, val) \<Rightarrow>
    \<lparr>eo_PartitionId = wk_PartitionId key, eo_Namespace = wk_Namespace key, eo_Name = wk_Name key,
     eo_WatchTimestamp = wk_Timestamp key, eo_Kind = wk_Kind key, eo_WatchType = wr_WatchType val,
     eo_Payload = wr_Payload val, eo_EventKey = WatchTableKey_String key\<rparr>)"

definition GetEventData ::
  "('db, 'txn, 'it) badger \<Rightarrow> pb_lib \<Rightarrow> 'j ext_lib \<Rightarrow> (EventOutput list \<Rightarrow> string res) \<Rightarrow> int \<Rightarrow> url_values \<Rightarrow> 'db
     \<Rightarrow> gotime \<Rightarrow> gotime \<Rightarrow> string res option" where
  "GetEventData B P X json pd params db startTime endTime =
    (let valPredFn = KubeWatchResult_ValPredicateFns
           [isEventValInTimeRange X startTime endTime, matchEventInvolvedObject X params]
     in map_option (\<lambda>r. case r of
          Err e \<Rightarrow> Err e
        | Panic m \<Rightarrow> Panic m
        | Ok (rows, Some e) \<Rightarrow> Err e
        | Ok ((watchEvents, stats, _), None) \<Rightarrow>
            let eventsList = map event_output watchEvents
            in if length eventsList = 0 then Ok []
               else map_err (\<lambda>e. Wrapped e ''failed to marshal json'') (json eventsList))
        (db_View B db (\<lambda>txn. KubeWatchResultTable_RangeRead B P pd txn (Some (event_key_prefix params)) None ()
           (Some valPredFn) startTime endTime)))"

section \<open>Lemmas\<close>

lemma dupe_loop_subseq: "subseq (dupe_loop p vs) vs"
  by (induction vs arbitrary: p) auto

lemma dupe_loop_adjacent:
  "successively (\<lambda>a b. po_Payload a \<noteq> po_Payload b) (dupe_loop p vs)
    \<and> (dupe_loop p vs \<noteq> [] \<longrightarrow> po_Payload (hd (dupe_loop p vs)) \<noteq> p)"
proof (induction vs arbitrary: p)
  case (Cons v vs)
  from Cons.IH[of "po_Payload v"] show ?case by (auto simp: successively_Cons)
qed simp

text \<open>The payload in force at the end of a history: the last one that is listed.\<close>

definition last_payload :: "string \<Rightarrow> PayloadOuput list \<Rightarrow> string" where
  "last_payload p vs = (if vs = [] then p else po_Payload (last vs))"

lemma last_payload_Cons: "last_payload p (v # vs) = last_payload (po_Payload v) vs"
  by (simp add: last_payload_def)

lemma dupe_loop_upto:
  assumes "sorted (map po_PayLoadTime vs)" "vs = xs @ ys"
  shows "\<exists>zs ws. dupe_loop p vs = zs @ ws \<and> zs = dupe_loop p xs \<and> last_payload p zs = last_payload p xs"
  using assms(2)
proof (induction xs arbitrary: vs p)
  case Nil
  then show ?case by simp
next
  case (Cons x xs)
  then obtain zs ws where "dupe_loop (po_Payload x) (xs @ ys) = zs @ ws" "zs = dupe_loop (po_Payload x) xs"
    "last_payload (po_Payload x) zs = last_payload (po_Payload x) xs" by blast
  then show ?case using Cons.prems by (auto simp: last_payload_Cons)
qed

section \<open>Properties\<close>

text \<open>
  C30: removing duplicate payloads loses no information. The result is ordered by time, no
  two neighbours have the same payload, it holds only given entries, and for every entry of the
  sorted history the payload listed last up to that entry is the entry's own: an entry is left
  out only when the payload before it was the same (before the first entry: the empty one).
\<close>

theorem remove_dupe_payloads_exact:
  "let out = removeDupePayloads ps; hist = sort_key po_PayLoadTime ps in
    sorted (map po_PayLoadTime out) \<and> set out \<subseteq> set ps
    \<and> successively (\<lambda>a b. po_Payload a \<noteq> po_Payload b) out
    \<and> (\<forall>n < length hist. \<exists>zs ws. out = zs @ ws \<and> subseq zs (take (Suc n) hist)
          \<and> last_payload [] zs = po_Payload (hist ! n))"
proof -
  let ?h = "sort_key po_PayLoadTime ps"
  have sub: "subseq (dupe_loop [] ?h) ?h" by (rule dupe_loop_subseq)
  have "sorted (map po_PayLoadTime (dupe_loop [] ?h))"
    using sorted_sort_key[of po_PayLoadTime ps] subseq_sorted[OF subseq_map[OF sub]] by blast
  moreover have "set (dupe_loop [] ?h) \<subseteq> set ps"
    using subseq_set[OF sub] by simp
  moreover have "\<exists>zs ws. dupe_loop [] ?h = zs @ ws \<and> subseq zs (take (Suc n) ?h)
          \<and> last_payload [] zs = po_Payload (?h ! n)" if "n < length ?h" for n
  proof -
    obtain zs ws where z: "dupe_loop [] ?h = zs @ ws" "zs = dupe_loop [] (take (Suc n) ?h)"
      "last_payload [] zs = last_payload [] (take (Suc n) ?h)"
      using dupe_loop_upto[of ?h "take (Suc n) ?h" "drop (Suc n) ?h" "[]"] by auto
    have "last_payload [] (take (Suc n) ?h) = po_Payload (?h ! n)"
      using that by (simp add: last_payload_def take_Suc_conv_app_nth)
    then show ?thesis using z dupe_loop_subseq by metis
  qed
  ultimately show ?thesis
    using dupe_loop_adjacent[of "[]" ?h] by (simp add: removeDupePayloads_def Let_def)
qed

theorem remove_dupe_payloads_exact_witness:
  "let ps = [\<lparr>po_PayloadKey = ''b'', po_PayLoadTime = 2, po_Payload = ''x''\<rparr>,
             \<lparr>po_PayloadKey = ''a'', po_PayLoadTime = 1, po_Payload = ''x''\<rparr>] in
   \<exists>zs ws. removeDupePayloads ps = zs @ ws \<and> last_payload [] zs = ''x''"
proof -
  let ?ps = "[\<lparr>po_PayloadKey = ''b'', po_PayLoadTime = 2, po_Payload = ''x''\<rparr>,
             \<lparr>po_PayloadKey = ''a'', po_PayLoadTime = 1, po_Payload = ''x''\<rparr>]"
  have s: "sort_key po_PayLoadTime ?ps ! 1 = ?ps ! 0" "length (sort_key po_PayLoadTime ?ps) = 2" by simp_all
  from remove_dupe_payloads_exact[of ?ps] s(2)
  obtain zs ws where "removeDupePayloads ?ps = zs @ ws" "last_payload [] zs = po_Payload (sort_key po_PayLoadTime ?ps ! 1)"
    by (auto simp: Let_def simp del: sort_key_simps)
  then show ?thesis unfolding s(1) by auto
qed

end
