(* ===== verification/GoFloat.thy ===== *)
theory GoFloat
  imports SloopPrelude Complex_Main
begin

text \<open>
  Go's \<open>float64\<close>: IEEE 754 binary64 with rounding to nearest, ties to even. A finite value is
  the rational number it stands for (the two zeros are one value; the program never divides
  by a zero of known sign). A conversion to an integer type of a value that does not fit is
  implementation-defined in Go: such conversions take the platform's answer as the
  argument \<open>plat\<close>.
\<close>

datatype f64 = Fin rat | Inf bool | NaN

section \<open>Rounding\<close>

text \<open>Round to the nearest integer, ties to even.\<close>

definition rne :: "rat \<Rightarrow> int" where
  "rne x = (let f = \<lfloor>x\<rfloor>; d = x - of_int f
    in if d < 1 / 2 then f else if 1 / 2 < d then f + 1 else if even f then f else f + 1)"

fun ilog :: "nat \<Rightarrow> nat" where
  "ilog n = (if n < 2 then 0 else Suc (ilog (n div 2)))"

declare ilog.simps [simp del]

text \<open>The exponent of a positive number: \<open>2 ^ e \<le> x < 2 ^ (e + 1)\<close>.\<close>

definition exp2 :: "rat \<Rightarrow> int" where
  "exp2 x = (let (a, b) = quotient_of x; e = int (ilog (nat a)) - int (ilog (nat b))
    in if 2 powi e \<le> x then e else e - 1)"

text \<open>The exponent of the last of the 53 bits, not below that of the subnormal numbers.\<close>

definition ulp_exp :: "rat \<Rightarrow> int" where
  "ulp_exp x = max (exp2 x - 52) (- 1074)"

definition fl_pos :: "rat \<Rightarrow> rat" where
  "fl_pos x = of_int (rne (x / 2 powi ulp_exp x)) * 2 powi ulp_exp x"

definition fl :: "rat \<Rightarrow> rat" where
  "fl x = (if x = 0 then 0 else if 0 < x then fl_pos x else - fl_pos (- x))"

definition fround :: "rat \<Rightarrow> f64" where
  "fround x = (if 2 ^ 1024 \<le> fl x then Inf True else if fl x \<le> - (2 ^ 1024) then Inf False else Fin (fl x))"

section \<open>Operations\<close>

definition f_of_int :: "int \<Rightarrow> f64" where
  "f_of_int i = fround (of_int i)"

fun f_neg :: "f64 \<Rightarrow> f64" where
  "f_neg (Fin x) = Fin (- x)"
| "f_neg (Inf s) = Inf (\<not> s)"
| "f_neg NaN = NaN"

fun f_add :: "f64 \<Rightarrow> f64 \<Rightarrow> f64" where
  "f_add NaN y = NaN"
| "f_add x NaN = NaN"
| "f_add (Inf s) (Inf t) = (if s = t then Inf s else NaN)"
| "f_add (Inf s) (Fin y) = Inf s"
| "f_add (Fin x) (Inf t) = Inf t"
| "f_add (Fin x) (Fin y) = fround (x + y)"

definition f_sub :: "f64 \<Rightarrow> f64 \<Rightarrow> f64" where
  "f_sub x y = f_add x (f_neg y)"

fun f_mul :: "f64 \<Rightarrow> f64 \<Rightarrow> f64" where
  "f_mul NaN y = NaN"
| "f_mul x NaN = NaN"
| "f_mul (Inf s) (Inf t) = Inf (s = t)"
| "f_mul (Inf s) (Fin y) = (if y = 0 then NaN else Inf (s = (0 < y)))"
| "f_mul (Fin x) (Inf t) = (if x = 0 then NaN else Inf (t = (0 < x)))"
| "f_mul (Fin x) (Fin y) = fround (x * y)"

fun f_div :: "f64 \<Rightarrow> f64 \<Rightarrow> f64" where
  "f_div NaN y = NaN"
| "f_div x NaN = NaN"
| "f_div (Inf s) (Inf t) = NaN"
| "f_div (Inf s) (Fin y) = Inf (s = (0 \<le> y))"
| "f_div (Fin x) (Inf t) = Fin 0"
| "f_div (Fin x) (Fin y) = (if y = 0 then (if x = 0 then NaN else Inf (0 < x)) else fround (x / y))"

text \<open>Comparisons are false when an operand is not a number.\<close>

fun f_less :: "f64 \<Rightarrow> f64 \<Rightarrow> bool" where
  "f_less NaN y = False"
| "f_less x NaN = False"
| "f_less (Inf s) (Inf t) = (\<not> s \<and> t)"
| "f_less (Inf s) (Fin y) = (\<not> s)"
| "f_less (Fin x) (Inf t) = t"
| "f_less (Fin x) (Fin y) = (x < y)"

fun f_eq :: "f64 \<Rightarrow> f64 \<Rightarrow> bool" where
  "f_eq NaN y = False"
| "f_eq x NaN = False"
| "f_eq (Inf s) (Inf t) = (s = t)"
| "f_eq (Inf s) (Fin y) = False"
| "f_eq (Fin x) (Inf t) = False"
| "f_eq (Fin x) (Fin y) = (x = y)"

definition f_le :: "f64 \<Rightarrow> f64 \<Rightarrow> bool" where
  "f_le x y \<longleftrightarrow> f_less x y \<or> f_eq x y"

fun f_Ceil :: "f64 \<Rightarrow> f64" where
  "f_Ceil (Fin x) = Fin (of_int \<lceil>x\<rceil>)"
| "f_Ceil (Inf s) = Inf s"
| "f_Ceil NaN = NaN"

text \<open>The fraction is discarded, towards zero.\<close>

definition trunc :: "rat \<Rightarrow> int" where
  "trunc x = (if 0 \<le> x then \<lfloor>x\<rfloor> else \<lceil>x\<rceil>)"

fun f_to_uint64 :: "(f64 \<Rightarrow> int) \<Rightarrow> f64 \<Rightarrow> int" where
  "f_to_uint64 plat (Fin x) = (if 0 \<le> trunc x \<and> trunc x < 2 ^ 64 then trunc x else plat (Fin x))"
| "f_to_uint64 plat (Inf s) = plat (Inf s)"
| "f_to_uint64 plat NaN = plat NaN"

fun f_to_int64 :: "(f64 \<Rightarrow> int) \<Rightarrow> f64 \<Rightarrow> int" where
  "f_to_int64 plat (Fin x) = (if - (2 ^ 63) \<le> trunc x \<and> trunc x < 2 ^ 63 then trunc x else plat (Fin x))"
| "f_to_int64 plat (Inf s) = plat (Inf s)"
| "f_to_int64 plat NaN = plat NaN"

section \<open>Rounding is monotone and fixes integers of up to 53 bits\<close>

lemma rne_bounds: "\<lfloor>x\<rfloor> \<le> rne x" "rne x \<le> \<lfloor>x\<rfloor> + 1"
  by (simp_all add: rne_def Let_def)

lemma rne_of_int [simp]: "rne (of_int i) = i"
  by (simp add: rne_def)

lemma rne_mono:
  assumes "x \<le> y"
  shows "rne x \<le> rne y"
proof (cases "\<lfloor>x\<rfloor> = \<lfloor>y\<rfloor>")
  case True
  then show ?thesis using assms by (auto simp: rne_def Let_def)
next
  case False
  then have "\<lfloor>x\<rfloor> + 1 \<le> \<lfloor>y\<rfloor>" using floor_mono[OF assms] by simp
  then show ?thesis using rne_bounds(2)[of x] rne_bounds(1)[of y] by linarith
qed

lemma ilog_bounds: "0 < n \<Longrightarrow> 2 ^ ilog n \<le> n \<and> n < 2 ^ Suc (ilog n)"
proof (induction n rule: ilog.induct)
  case (1 n)
  show ?case
  proof (cases "n < 2")
    case True
    then have "n = 1" using 1 by simp
    then show ?thesis by (simp add: ilog.simps)
  next
    case False
    then have IH: "2 ^ ilog (n div 2) \<le> n div 2 \<and> n div 2 < 2 ^ Suc (ilog (n div 2))" using 1 by simp
    have e: "ilog n = Suc (ilog (n div 2))" using False by (subst ilog.simps) simp
    show ?thesis using IH unfolding e by (simp; linarith)
  qed
qed

lemma exp2_bounds:
  assumes "0 < x"
  shows "2 powi exp2 x \<le> x" "x < 2 powi (exp2 x + 1)"
proof -
  obtain a b where q: "quotient_of x = (a, b)" by (cases "quotient_of x")
  have b: "0 < b" using q by (rule quotient_of_denom_pos)
  have x: "x = of_int a / of_int b" using q by (rule quotient_of_div)
  have a: "0 < a" using assms b unfolding x by (simp add: zero_less_divide_iff)
  define la lb where "la = ilog (nat a)" and "lb = ilog (nat b)"
  have A: "2 ^ la \<le> a" "a < 2 ^ Suc la"
    using ilog_bounds[of "nat a"] a unfolding la_def by (auto simp: nat_less_iff le_nat_iff simp del: power_Suc)
  have B: "2 ^ lb \<le> b" "b < 2 ^ Suc lb"
    using ilog_bounds[of "nat b"] b unfolding lb_def by (auto simp: nat_less_iff le_nat_iff simp del: power_Suc)
  have A': "2 ^ la \<le> (of_int a :: rat)" "(of_int a :: rat) < 2 ^ Suc la"
    using A by (metis of_int_le_iff of_int_numeral of_int_power, metis of_int_less_iff of_int_numeral of_int_power)
  have B': "2 ^ lb \<le> (of_int b :: rat)" "(of_int b :: rat) < 2 ^ Suc lb"
    using B by (metis of_int_le_iff of_int_numeral of_int_power, metis of_int_less_iff of_int_numeral of_int_power)
  define e where "e = int la - int lb"
  have p: "2 powi e = (2 ^ la / 2 ^ lb :: rat)" by (simp add: e_def power_int_diff)
  have up: "x < 2 powi (e + 1)"
  proof -
    have "x < 2 ^ Suc la / 2 ^ lb"
      unfolding x using A'(2) B'(1) a b by (intro frac_less) auto
    then show ?thesis by (simp add: p power_int_add mult.commute)
  qed
  have lo: "2 powi (e - 1) < x"
  proof -
    have "2 ^ la / 2 ^ Suc lb < x"
      unfolding x using A'(1) B'(2) a b by (intro frac_less2) auto
    then show ?thesis by (simp add: p power_int_diff)
  qed
  have "exp2 x = (if 2 powi e \<le> x then e else e - 1)"
    by (simp add: exp2_def q Let_def e_def la_def lb_def)
  then show "2 powi exp2 x \<le> x" "x < 2 powi (exp2 x + 1)" using up lo by auto
qed

lemma powi_less_D: "2 powi i < (2::rat) powi j \<Longrightarrow> i < j"
  by (metis linorder_not_less power_int_increasing one_le_numeral)

lemma exp2_mono:
  assumes "0 < x" "x \<le> y"
  shows "exp2 x \<le> exp2 y"
proof -
  have "2 powi exp2 x < (2::rat) powi (exp2 y + 1)"
    using exp2_bounds(1)[of x] exp2_bounds(2)[of y] assms by linarith
  then show ?thesis by (drule_tac powi_less_D) simp
qed

lemma powi_int: "0 \<le> k \<Longrightarrow> (2::rat) powi k = of_int (2 ^ nat k)"
  by (simp add: power_int_def)

text \<open>Scaling by the unit in the last place, and an integer bound on what it gives.\<close>

lemma ulp_pos: "0 < (2::rat) powi k"
  by simp

lemma scaled_power:
  assumes "k \<le> e"
  shows "(2::rat) powi e / 2 powi k = of_int (2 ^ nat (e - k))"
proof -
  have "(2::rat) powi e / 2 powi k = 2 powi (e - k)" by (simp add: power_int_diff)
  then show ?thesis using assms by (simp add: powi_int)
qed

lemma fl_pos_le_power:
  assumes "x \<le> 2 powi e" "ulp_exp x \<le> e"
  shows "fl_pos x \<le> 2 powi e"
proof -
  let ?k = "ulp_exp x"
  have "x / 2 powi ?k \<le> of_int (2 ^ nat (e - ?k))"
    using assms(1) divide_right_mono[of x "2 powi e" "2 powi ?k"] scaled_power[OF assms(2)] by simp
  then have "rne (x / 2 powi ?k) \<le> 2 ^ nat (e - ?k)" using rne_mono rne_of_int by metis
  then have "of_int (rne (x / 2 powi ?k)) \<le> (of_int (2 ^ nat (e - ?k)) :: rat)" by (simp only: of_int_le_iff)
  then have "of_int (rne (x / 2 powi ?k)) * 2 powi ?k \<le> (2 powi e / 2 powi ?k) * (2::rat) powi ?k"
    unfolding scaled_power[OF assms(2), symmetric] by (rule mult_right_mono) simp
  then show ?thesis by (simp add: fl_pos_def)
qed

lemma fl_pos_ge_power:
  assumes "2 powi e \<le> x" "ulp_exp x \<le> e"
  shows "2 powi e \<le> fl_pos x"
proof -
  let ?k = "ulp_exp x"
  have "of_int (2 ^ nat (e - ?k)) \<le> x / 2 powi ?k"
    using assms(1) divide_right_mono[of "2 powi e" x "2 powi ?k"] scaled_power[OF assms(2)] by simp
  then have "2 ^ nat (e - ?k) \<le> rne (x / 2 powi ?k)" using rne_mono rne_of_int by metis
  then have "(of_int (2 ^ nat (e - ?k)) :: rat) \<le> of_int (rne (x / 2 powi ?k))" by (simp only: of_int_le_iff)
  then have "(2 powi e / 2 powi ?k) * (2::rat) powi ?k \<le> of_int (rne (x / 2 powi ?k)) * 2 powi ?k"
    unfolding scaled_power[OF assms(2), symmetric] by (rule mult_right_mono) simp
  then show ?thesis by (simp add: fl_pos_def)
qed

lemma fl_pos_nonneg: "0 \<le> x \<Longrightarrow> 0 \<le> fl_pos x"
  using rne_mono[of 0 "x / 2 powi ulp_exp x"] rne_of_int[of 0] by (simp add: fl_pos_def)

lemma fl_pos_mono:
  assumes "0 < x" "x \<le> y"
  shows "fl_pos x \<le> fl_pos y"
proof (cases "ulp_exp x = ulp_exp y")
  case True
  have "rne (x / 2 powi ulp_exp y) \<le> rne (y / 2 powi ulp_exp y)"
    using assms(2) by (intro rne_mono divide_right_mono) auto
  then show ?thesis unfolding fl_pos_def True by (intro mult_right_mono) auto
next
  case False
  have e: "exp2 x \<le> exp2 y" using exp2_mono assms .
  then have k: "ulp_exp y = exp2 y - 52" "exp2 x + 1 \<le> exp2 y" "ulp_exp x < ulp_exp y"
    using False by (auto simp: ulp_exp_def max_def split: if_splits)
  have "x \<le> 2 powi exp2 y"
    using exp2_bounds(2)[OF assms(1)] power_int_increasing[OF k(2), of "2::rat"] by linarith
  then have "fl_pos x \<le> 2 powi exp2 y" by (rule fl_pos_le_power) (use k in simp)
  also have "\<dots> \<le> fl_pos y"
    using exp2_bounds(1)[of y] assms by (intro fl_pos_ge_power) (use k in auto)
  finally show ?thesis .
qed

lemma fl_mono: "x \<le> y \<Longrightarrow> fl x \<le> fl y"
proof -
  assume xy: "x \<le> y"
  consider "0 < x" | "y < 0" | "x \<le> 0" "0 \<le> y" by linarith
  then show ?thesis
  proof cases
    case 1
    then show ?thesis using xy fl_pos_mono by (simp add: fl_def)
  next
    case 2
    then show ?thesis using xy fl_pos_mono[of "- y" "- x"] by (simp add: fl_def)
  next
    case 3
    then have "fl x \<le> 0" "0 \<le> fl y"
      using fl_pos_nonneg[of "- x"] fl_pos_nonneg[of y] by (auto simp: fl_def)
    then show ?thesis by linarith
  qed
qed

lemma fl_0 [simp]: "fl 0 = 0"
  by (simp add: fl_def)

lemma fl_exact:
  assumes "0 < x" "x = of_int m * 2 powi ulp_exp x"
  shows "fl x = x"
proof -
  have "x / 2 powi ulp_exp x = of_int m" using assms(2) by (metis nonzero_mult_div_cancel_right ulp_pos less_irrefl)
  then show ?thesis using assms by (simp add: fl_def fl_pos_def)
qed

lemma fl_of_nat:
  assumes "0 \<le> n" "n \<le> 2 ^ 53"
  shows "fl (of_int n) = of_int n"
proof (cases "n = 0")
  case False
  then have n: "0 < n" using assms(1) by simp
  let ?x = "of_int n :: rat" and ?k = "ulp_exp (of_int n)"
  have "2 powi exp2 ?x \<le> (2::rat) powi 53"
    using exp2_bounds(1)[of ?x] n assms(2) by (simp add: power_int_def)
  then have e: "exp2 ?x \<le> 53" by (meson not_le power_int_strict_increasing one_less_numeral_iff semiring_norm(76))
  have "1 \<le> ?x" using n by simp
  then have "(2::rat) powi 0 < 2 powi (exp2 ?x + 1)" using exp2_bounds(2)[of ?x] n by simp
  then have e0: "0 \<le> exp2 ?x" using powi_less_D by fastforce
  show ?thesis
  proof (cases "exp2 ?x \<le> 52")
    case True
    then have "?k \<le> 0" by (simp add: ulp_exp_def)
    then have x: "?x = of_int (n * 2 ^ nat (- ?k)) * 2 powi ?k"
      by (simp add: power_int_def power_mult_distrib[symmetric])
    show ?thesis by (rule fl_exact[OF _ x]) (use n in simp)
  next
    case False
    then have "exp2 ?x = 53" using e by simp
    then have "2 powi 53 \<le> ?x" using exp2_bounds(1)[of ?x] n by simp
    then have "(2::rat) ^ 53 \<le> ?x" by (simp add: power_int_def)
    then have "2 ^ 53 \<le> n" by (metis of_int_le_iff of_int_numeral of_int_power)
    then have "n = 2 ^ 53" using assms(2) by simp
    then have "?x = of_int (2 ^ 52) * 2 powi 1" by simp
    moreover have "?k = 1" using \<open>exp2 ?x = 53\<close> by (simp add: ulp_exp_def)
    ultimately show ?thesis using n by (intro fl_exact) auto
  qed
qed simp

lemma f_of_int_small: "0 \<le> n \<Longrightarrow> n \<le> 2 ^ 53 \<Longrightarrow> f_of_int n = Fin (of_int n)"
proof -
  assume n: "0 \<le> n" "n \<le> 2 ^ 53"
  then have "(of_int n :: rat) \<le> of_int (2 ^ 53)" by (simp only: of_int_le_iff)
  then have "(of_int n :: rat) < 2 ^ 1024" by (simp add: le_less_trans)
  moreover have "- (2 ^ 1024) < (of_int n :: rat)" using n(1) by (simp add: less_le_trans[of _ 0])
  ultimately show ?thesis using fl_of_nat[OF n] by (simp add: f_of_int_def fround_def)
qed

lemma fround_not_nan [simp]: "fround x \<noteq> NaN"
  by (simp add: fround_def)

lemma fround_small:
  assumes "0 \<le> x" "x \<le> of_int n" "n \<le> 2 ^ 53"
  obtains y where "fround x = Fin y" "0 \<le> y" "y \<le> of_int n"
proof -
  have "(0::rat) \<le> of_int n" using assms(1,2) by (rule order_trans)
  then have n: "0 \<le> n" by simp
  have y: "0 \<le> fl x" "fl x \<le> of_int n"
    using fl_mono[OF assms(1)] fl_mono[OF assms(2)] fl_of_nat[OF n assms(3)] by simp_all
  have "(of_int n :: rat) \<le> of_int (2 ^ 53)" using assms(3) by (simp only: of_int_le_iff)
  then have "fl x < 2 ^ 1024" using y(2) by (simp add: le_less_trans)
  moreover have "- (2 ^ 1024) < fl x" using y(1) by (simp add: less_le_trans[of _ 0])
  ultimately show ?thesis using that[of "fl x"] y by (simp add: fround_def)
qed

end
