(* ===== verification/EventCount.thy ===== *)
theory EventCount
  imports Tables Extract GoFloat
begin

text \<open>
  The arithmetic of \<open>pkg/sloop/processing/eventcount.go\<close>: which part of an event is new
  (\<open>computeEventsDiff\<close>), how much of it falls into the stored partitions
  (\<open>adjustForAvailablePartitions\<close>) and how it is spread over minutes (\<open>spreadOutEvents\<close>).
  Go maps from minutes to counts are association lists. \<open>plat\<close> is the platform's answer to a
  conversion of a float that is not an integer of 64 bits.
\<close>

section \<open>Integer and duration arithmetic\<close>

text \<open>Go's \<open>/\<close> and \<open>%\<close> truncate towards zero.\<close>

definition go_quot :: "int \<Rightarrow> int \<Rightarrow> int" where
  "go_quot a b = sgn a * sgn b * (\<bar>a\<bar> div \<bar>b\<bar>)"

definition go_rem :: "int \<Rightarrow> int \<Rightarrow> int" where
  "go_rem a b = a - go_quot a b * b"

definition dur_Seconds :: "int \<Rightarrow> f64" where
  "dur_Seconds d = f_add (f_of_int (go_quot d Second)) (f_div (f_of_int (go_rem d Second)) (Fin 1000000000))"

definition dur_Minutes :: "int \<Rightarrow> f64" where
  "dur_Minutes d = f_add (f_of_int (go_quot d Minute)) (f_div (f_of_int (go_rem d Minute)) (Fin 60000000000))"

section \<open>The functions\<close>

text \<open>The loop of \<open>distributeValue\<close> from position \<open>pos\<close> on.\<close>

definition distributeValue :: "int \<Rightarrow> int \<Rightarrow> int list" where
  "distributeValue val buckets =
    (if buckets = 0 then []
     else map (\<lambda>pos. let thisVal = go_quot val buckets
                in if go_rem val buckets > int pos then thisVal + 1 else thisVal) [0..<nat buckets])"

fun spread_loop :: "int list \<Rightarrow> gotime \<Rightarrow> (int \<times> int) list \<Rightarrow> (int \<times> int) list" where
  "spread_loop [] thisMinute ret = ret"
| "spread_loop (c # cs) thisMinute ret =
    spread_loop cs (time_Add thisMinute Minute)
      (if c > 0 then AList.update (Unix thisMinute) c ret else ret)"

definition spreadOutEvents :: "(f64 \<Rightarrow> int) \<Rightarrow> gotime \<Rightarrow> gotime \<Rightarrow> int \<Rightarrow> (int \<times> int) list" where
  "spreadOutEvents plat firstTs lastTs cnt =
    (let firstRound = time_Round firstTs Minute;
         lastRound = time_Round lastTs Minute
     in if firstRound = lastRound then [(Unix firstRound, cnt)]
        else let n = f_to_int64 plat (f_Ceil (dur_Minutes (time_Sub lastRound firstRound)));
                 numMinutes = (if n < 1 then 1 else n)
             in spread_loop (distributeValue cnt numMinutes) firstRound [])"

definition computeEventsDiff ::
  "(f64 \<Rightarrow> int) \<Rightarrow> EventInfo option \<Rightarrow> EventInfo \<Rightarrow> gotime \<times> gotime \<times> int" where
  "computeEventsDiff plat prevEventInfo new =
    (case prevEventInfo of
       None \<Rightarrow> (ei_FirstTimestamp new, ei_LastTimestamp new, ei_Count new)
     | Some prev \<Rightarrow>
       if time_Before (ei_LastTimestamp prev) (ei_FirstTimestamp new)
       then (ei_FirstTimestamp new, ei_LastTimestamp new, ei_Count new)
       else if time_Equal (ei_LastTimestamp prev) (ei_LastTimestamp new)
         \<or> time_After (ei_LastTimestamp prev) (ei_LastTimestamp new)
       then (zero_time, zero_time, 0)
       else if ei_FirstTimestamp prev = ei_FirstTimestamp new
       then (if ei_Count new < ei_Count prev then (zero_time, zero_time, 0)
             else (ei_LastTimestamp prev, ei_LastTimestamp new, wrap_int64 (ei_Count new - ei_Count prev)))
       else let oldSeconds = dur_Seconds (time_Sub (ei_LastTimestamp prev) (ei_FirstTimestamp prev));
                overlapSeconds = dur_Seconds (time_Sub (ei_LastTimestamp prev) (ei_FirstTimestamp new))
            in if f_le oldSeconds (Fin 0) then (zero_time, zero_time, 0)
               else let pctOverlap = f_div overlapSeconds oldSeconds;
                        newCount = wrap_int64 (ei_Count new
                          - f_to_int64 plat (f_mul (f_of_int (ei_Count prev)) pctOverlap))
                    in (ei_LastTimestamp prev, ei_LastTimestamp new, if newCount < 0 then 0 else newCount))"

definition adjustForAvailablePartitions ::
  "(f64 \<Rightarrow> int) \<Rightarrow> gotime \<Rightarrow> gotime \<Rightarrow> int \<Rightarrow> gotime \<Rightarrow> gotime \<Rightarrow> gotime \<Rightarrow> gotime \<times> gotime \<times> int" where
  "adjustForAvailablePartitions plat firstTs lastTs cnt minPartitionEndTime maxPartitionStartTime maxPartitionEndTime =
    (let endTruncateTs = maxPartitionEndTime;
         beginTruncateTs = (if minPartitionEndTime = endTruncateTs then maxPartitionStartTime else minPartitionEndTime)
     in if time_Before lastTs beginTruncateTs \<or> time_After firstTs endTruncateTs
        then (beginTruncateTs, endTruncateTs, 0)
        else let totalSeconds = dur_Seconds (time_Sub lastTs firstTs);
                 (keep1, begin1) =
                   (if time_Before firstTs beginTruncateTs
                    then (f_sub totalSeconds (dur_Seconds (time_Sub beginTruncateTs firstTs)), beginTruncateTs)
                    else (totalSeconds, firstTs));
                 (keep2, end2) =
                   (if time_After lastTs endTruncateTs
                    then (f_sub keep1 (dur_Seconds (time_Sub lastTs endTruncateTs)), endTruncateTs)
                    else (keep1, lastTs));
                 pctEventsToKeep = f_div keep2 totalSeconds
             in (begin1, end2, f_to_int64 plat (f_mul (f_of_int cnt) pctEventsToKeep)))"

section \<open>Lemmas\<close>

lemma go_quot_nonneg: "0 \<le> a \<Longrightarrow> 0 < b \<Longrightarrow> go_quot a b = a div b"
  by (cases "a = 0") (simp_all add: go_quot_def)

lemma go_rem_nonneg: "0 \<le> a \<Longrightarrow> 0 < b \<Longrightarrow> go_rem a b = a mod b"
  by (simp add: go_rem_def go_quot_nonneg minus_div_mult_eq_mod)

lemma distributeValue_nonneg:
  "0 \<le> v \<Longrightarrow> 0 < n \<Longrightarrow> distributeValue v n =
     map (\<lambda>pos. v div n + (if int pos < v mod n then 1 else 0)) [0..<nat n]"
  by (simp add: distributeValue_def go_quot_nonneg go_rem_nonneg Let_def)

lemma sum_ones: "(\<Sum>i\<leftarrow>[0..<n]. if i < k then 1 else 0 :: int) = int (min k n)"
  by (induction n) auto

lemma f_of_int_0 [simp]: "f_of_int 0 = Fin 0"
  by (simp add: f_of_int_def fround_def)

lemma fround_of_int: "0 \<le> n \<Longrightarrow> n \<le> 2 ^ 53 \<Longrightarrow> fround (of_int n) = Fin (of_int n)"
  by (metis f_of_int_def f_of_int_small)

lemma dur_Minutes_exact:
  assumes "0 \<le> m" "m \<le> 2 ^ 53"
  shows "dur_Minutes (m * Minute) = Fin (of_int m)"
proof -
  have "go_quot (m * Minute) Minute = m" "go_rem (m * Minute) Minute = 0"
    using assms(1) by (simp_all add: go_quot_nonneg go_rem_nonneg Minute_def)
  then show ?thesis
    using f_of_int_small[OF assms] fround_of_int[OF assms]
    by (simp add: dur_Minutes_def) (simp add: fround_def)
qed

lemma Unix_add_minute: "Unix (time_Add t Minute) = Unix t + 60"
  by (simp add: Unix_def time_Add_def Minute_def)

lemma update_fresh: "k \<notin> fst ` set m \<Longrightarrow> AList.update k v m = m @ [(k, v)]"
  by (induction m) auto

lemma spread_loop_eq:
  assumes "\<forall>kc \<in> set ret. fst kc < Unix t"
  shows "spread_loop cs t ret = ret @ map (\<lambda>i. (Unix t + 60 * int i, cs ! i)) (filter (\<lambda>i. cs ! i > 0) [0..<length cs])"
  using assms
proof (induction cs arbitrary: t ret)
  case (Cons c cs)
  let ?ret = "if c > 0 then ret @ [(Unix t, c)] else ret"
  have upd: "(if c > 0 then AList.update (Unix t) c ret else ret) = ?ret"
    using Cons.prems update_fresh[of "Unix t" ret c] by fastforce
  have "\<forall>kc \<in> set ?ret. fst kc < Unix (time_Add t Minute)"
    using Cons.prems by (auto simp: Unix_add_minute)
  note IH = Cons.IH[OF this, unfolded Unix_add_minute]
  have shift: "map (\<lambda>i. (Unix t + 60 * int i, (c # cs) ! i)) (filter (\<lambda>i. (c # cs) ! i > 0) [0..<length (c # cs)])
      = (if c > 0 then [(Unix t, c)] else [])
        @ map (\<lambda>i. (Unix t + 60 + 60 * int i, cs ! i)) (filter (\<lambda>i. cs ! i > 0) [0..<length cs])"
    by (simp add: upt_conv_Cons map_Suc_upt[symmetric] filter_map comp_def algebra_simps del: upt_Suc)
  show ?case unfolding spread_loop.simps upd IH shift by simp
qed simp

lemma sum_positive: "\<forall>c \<in> set cs. 0 \<le> c \<Longrightarrow>
    sum_list (map ((!) cs) (filter (\<lambda>i. cs ! i > 0) [0..<length cs])) = sum_list (cs :: int list)"
proof -
  assume nn: "\<forall>c \<in> set cs. 0 \<le> c"
  have "sum_list (map ((!) cs) (filter (\<lambda>i. cs ! i > 0) [0..<length cs]))
      = sum_list (filter (\<lambda>c. c > 0) (map ((!) cs) [0..<length cs]))"
    by (simp add: filter_map comp_def)
  also have "\<dots> = sum_list (filter (\<lambda>c. c > 0) cs)" by (simp only: map_nth)
  also have "\<dots> = sum_list cs" using nn by (induction cs) auto
  finally show ?thesis .
qed

lemma distribute_value_lemma:
  assumes "0 \<le> v" "0 < n"
  shows "length (distributeValue v n) = nat n" "sum_list (distributeValue v n) = v"
proof -
  have k: "nat (v mod n) \<le> nat n" using assms(2) by (simp add: nat_mono pos_mod_bound order_less_imp_le)
  have "sum_list (distributeValue v n)
      = (\<Sum>i\<leftarrow>[0..<nat n]. v div n) + (\<Sum>i\<leftarrow>[0..<nat n]. if i < nat (v mod n) then 1 else 0)"
    unfolding distributeValue_nonneg[OF assms] sum_list_addf[symmetric]
    by (intro arg_cong[where f = sum_list] map_cong) (auto simp: zless_nat_eq_int_zless)
  also have "\<dots> = n * (v div n) + v mod n"
    unfolding sum_ones using assms k by (simp add: sum_list_triv min_absorb1)
  finally show "sum_list (distributeValue v n) = v" by simp
  show "length (distributeValue v n) = nat n" using assms by (simp add: distributeValue_nonneg)
qed

lemma fl_pos_small:
  assumes "2 powi (- 30) \<le> x" "x \<le> 1"
  shows "2 powi (- 30) \<le> fl x"
proof -
  have x: "0 < x" using assms(1) less_le_trans[of 0 "2 powi (- 30)" x] by simp
  have "(2::rat) powi exp2 x \<le> 1" using exp2_bounds(1)[OF x] assms(2) by linarith
  also have "(1::rat) < 2 powi 1" by simp
  finally have "exp2 x < 1" by (rule powi_less_D)
  then have "ulp_exp x \<le> - 30" by (simp add: ulp_exp_def)
  from fl_pos_ge_power[OF assms(1) this] show ?thesis using x by (simp add: fl_def)
qed

text \<open>The seconds of a positive duration are a positive finite float.\<close>

lemma dur_Seconds_pos:
  assumes "0 < d" "d < 2 ^ 63"
  shows "\<exists>a > 0. dur_Seconds d = Fin a"
proof -
  define s n where "s = d div Second" and "n = d mod Second"
  have q: "go_quot d Second = s" "go_rem d Second = n"
    using assms(1) by (simp_all add: go_quot_nonneg go_rem_nonneg Second_def s_def n_def)
  have s: "0 \<le> s" "s + 1 \<le> 2 ^ 53" using assms by (simp_all add: s_def Second_def pos_imp_zdiv_nonneg_iff)
  have n: "0 \<le> n" "n < 1000000000" by (simp_all add: n_def Second_def)
  have x: "0 \<le> (of_int n / 1000000000 :: rat)" "(of_int n / 1000000000 :: rat) < 1" using n by simp_all
  obtain y where y: "fround (of_int n / 1000000000) = Fin y" "0 \<le> y" "y \<le> 1" "y = fl (of_int n / 1000000000)"
  proof -
    have "fl (of_int n / 1000000000) \<le> fl (of_int 1)" using x(2) by (intro fl_mono) simp
    then have le: "fl (of_int n / 1000000000) \<le> 1" using fl_of_nat[of 1] by simp
    have ge: "0 \<le> fl (of_int n / 1000000000)" using fl_mono[OF x(1)] by simp
    have "fl (of_int n / 1000000000) < 2 ^ 1024" "- (2 ^ 1024) < fl (of_int n / 1000000000)"
      using le ge by (simp_all add: le_less_trans less_le_trans[of _ 0])
    then show ?thesis using that le ge by (simp add: fround_def)
  qed
  have yp: "2 powi (- 30) \<le> y" if "s = 0"
  proof -
    have "1 \<le> n" using that assms(1) by (simp add: s_def n_def Second_def)
    then have "(1 / 1000000000 :: rat) \<le> of_int n / 1000000000" by simp
    moreover have "(2 :: rat) powi (- 30) \<le> 1 / 1000000000" by (simp add: power_int_def power_one_over)
    ultimately have "2 powi (- 30) \<le> (of_int n / 1000000000 :: rat)" by (rule order_trans[rotated])
    then show ?thesis using fl_pos_small x(2) y(4) by simp
  qed
  have "(of_int s :: rat) \<le> of_int s + y" "of_int s + y \<le> of_int (s + 1)" using y by simp_all
  then have b: "of_int s \<le> fl (of_int s + y)" "fl (of_int s + y) \<le> of_int (s + 1)"
    using fl_mono fl_of_nat[of s] fl_of_nat[of "s + 1"] s by fastforce+
  have pos: "0 < fl (of_int s + y)"
  proof (cases "s = 0")
    case True
    have "2 powi (- 30) \<le> fl y" by (rule fl_pos_small[OF yp[OF True] y(3)])
    then have "0 < fl y" by (rule less_le_trans[rotated]) simp
    then show ?thesis using True by simp
  next
    case False
    then have "(0::rat) < of_int s" using s(1) by simp
    then show ?thesis using b(1) by simp
  qed
  have "(of_int (s + 1) :: rat) \<le> of_int (2 ^ 53)" using s(2) by (simp only: of_int_le_iff)
  then have "fl (of_int s + y) < 2 ^ 1024" using b(2) by (simp add: le_less_trans)
  then have "fround (of_int s + y) = Fin (fl (of_int s + y))"
    using pos by (simp add: fround_def not_le less_le_trans[of _ 0])
  moreover have "dur_Seconds d = fround (of_int s + y)"
    using f_of_int_small[of s] f_of_int_small[of n] s n y(1) by (simp add: dur_Seconds_def q)
  ultimately show ?thesis using pos by auto
qed

section \<open>Properties\<close>

text \<open>
  Distributing a count loses nothing. For a non-negative value and a positive number of
  buckets there are as many parts as buckets, they add up to the value, and each is the
  quotient or one more, the larger parts first.
\<close>

lemma distribute_value_exact:
  assumes "0 \<le> v" "0 < n"
  shows "length (distributeValue v n) = nat n \<and> sum_list (distributeValue v n) = v
    \<and> (\<forall>i < nat n. distributeValue v n ! i = v div n + (if int i < v mod n then 1 else 0))"
  using distribute_value_lemma[OF assms] assms by (simp add: distributeValue_nonneg)

lemma distribute_value_exact_witness: "sum_list (distributeValue 7 3) = 7 \<and> distributeValue 7 3 = [3, 2, 2]"
  using distribute_value_exact[of 7 3]
  by (simp add: distributeValue_def go_quot_def go_rem_def upt_rec Let_def)

text \<open>Rounded to minutes, a time that is not before another is a whole number of minutes after it.\<close>

lemma rounded_minutes:
  assumes "tns firstTs \<le> tns lastTs" "tloc firstTs = tloc lastTs"
  obtains m where "tns (time_Round lastTs Minute) - tns (time_Round firstTs Minute) = m * Minute" "0 \<le> m"
    "m * Minute \<le> tns lastTs - tns firstTs + Minute"
proof -
  let ?f = "time_Round firstTs Minute" and ?l = "time_Round lastTs Minute"
  have "tns ?f mod Minute = 0" "tns ?l mod Minute = 0" by (rule time_Round_minute)+
  then have dv: "(tns ?l - tns ?f) mod Minute = 0" by (metis mod_diff_eq diff_self mod_0)
  define m where "m = (tns ?l - tns ?f) div Minute"
  have m: "tns ?l - tns ?f = m * Minute" using dv by (simp add: m_def mod_0_imp_dvd[THEN dvd_div_mult_self])
  have near: "2 * \<bar>tns ?f - tns firstTs\<bar> \<le> Minute" "2 * \<bar>tns ?l - tns lastTs\<bar> \<le> Minute"
    by (intro time_Round_near; simp add: Minute_def)+
  have b: "tns ?f \<le> tns firstTs + 30000000000" "tns firstTs - 30000000000 \<le> tns ?f"
    "tns ?l \<le> tns lastTs + 30000000000" "tns lastTs - 30000000000 \<le> tns ?l"
    using near by (simp_all add: Minute_def abs_if split: if_splits)
  have m': "tns ?l - tns ?f = m * 60000000000" using m by (simp add: Minute_def)
  have "- 1 \<le> m" using b assms(1) m' by linarith
  moreover have "m \<noteq> - 1"
  proof
    assume "m = - 1"
    then have eq: "tns ?f = tns ?l + Minute" using m by simp
    then have "tns ?f - tns firstTs = 30000000000" "tns lastTs - tns ?l = 30000000000" "tns firstTs = tns lastTs"
      using b assms(1) by (simp_all add: Minute_def)
    then show False using eq by (simp add: time_Round_def time_Add_def Minute_def Let_def split: if_splits)
  qed
  moreover have "m * Minute \<le> tns lastTs - tns firstTs + Minute" using b m' by (simp add: Minute_def)
  ultimately show ?thesis using that[of m] m by simp
qed

text \<open>
  C29: spreading an event over minutes keeps its count. For times in order in one location and
  not more than about 292 years apart, and a non-negative count, the counts of the minutes
  add up to the count, no minute occurs twice, and every minute lies between the first and the
  last time rounded to minutes.
\<close>

theorem spread_out_events_total:
  assumes "tns firstTs \<le> tns lastTs" "tloc firstTs = tloc lastTs" "0 \<le> cnt"
    and "tns lastTs - tns firstTs + Minute < 2 ^ 63"
  shows "sum_list (map snd (spreadOutEvents plat firstTs lastTs cnt)) = cnt
    \<and> distinct (map fst (spreadOutEvents plat firstTs lastTs cnt))
    \<and> (\<forall>m \<in> fst ` set (spreadOutEvents plat firstTs lastTs cnt).
         Unix (time_Round firstTs Minute) \<le> m \<and> m \<le> Unix (time_Round lastTs Minute))"
proof -
  let ?f = "time_Round firstTs Minute" and ?l = "time_Round lastTs Minute"
  have loc: "tloc ?f = tloc ?l" using assms(2) by (simp add: time_Round_def time_Add_def Let_def)
  obtain m where m: "tns ?l - tns ?f = m * Minute" and m0: "0 \<le> m" and "m * Minute \<le> tns lastTs - tns firstTs + Minute"
    using rounded_minutes[OF assms(1,2)] .
  then have small: "m * Minute < 2 ^ 63" using assms(4) by simp
  show ?thesis
  proof (cases "?f = ?l")
    case True
    then show ?thesis by (simp add: spreadOutEvents_def Let_def)
  next
    case False
    then have ne: "tns ?f \<noteq> tns ?l" using loc by (metis gotime.exhaust_sel)
    then have m1: "1 \<le> m" using m m0 by (cases "m = 0") auto
    have sub: "time_Sub ?l ?f = m * Minute" using small m0 m by (simp add: time_Sub_def Minute_def)
    have mb: "m \<le> 2 ^ 53" using small by (simp add: Minute_def)
    have n: "f_to_int64 plat (f_Ceil (dur_Minutes (time_Sub ?l ?f))) = m"
      unfolding sub dur_Minutes_exact[OF m0 mb] using m0 mb by (simp add: trunc_def)
    let ?cs = "distributeValue cnt m"
    have cs: "length ?cs = nat m" "sum_list ?cs = cnt"
      using distribute_value_lemma[OF assms(3), of m] m1 by auto
    have nn: "\<forall>c \<in> set ?cs. 0 \<le> c"
      using assms(3) m1 by (auto simp: distributeValue_nonneg pos_imp_zdiv_nonneg_iff)
    have sp: "spreadOutEvents plat firstTs lastTs cnt
        = map (\<lambda>i. (Unix ?f + 60 * int i, ?cs ! i)) (filter (\<lambda>i. ?cs ! i > 0) [0..<length ?cs])"
      using False n m1 by (simp add: spreadOutEvents_def Let_def spread_loop_eq)
    have ul: "Unix ?l = Unix ?f + 60 * m"
    proof -
      have "tns ?l = tns ?f + (60 * m) * 1000000000" using m by (simp add: Minute_def)
      then show ?thesis by (simp add: Unix_def)
    qed
    show ?thesis
      unfolding sp using cs nn sum_positive[OF nn] ul m1
      by (auto simp: comp_def distinct_map inj_on_def)
  qed
qed

theorem spread_out_events_total_witness:
  "sum_list (map snd (spreadOutEvents (\<lambda>_. 0) (Time 1567114000000000000 UTC) (Time 1567114200000000000 UTC) 50)) = 50"
  using spread_out_events_total[of "Time 1567114000000000000 UTC" "Time 1567114200000000000 UTC" 50 "\<lambda>_. 0"]
  by (simp add: Minute_def)

text \<open>The new counts along a series of versions of an event.\<close>

fun counted :: "(f64 \<Rightarrow> int) \<Rightarrow> EventInfo option \<Rightarrow> EventInfo list \<Rightarrow> int" where
  "counted plat prev [] = 0"
| "counted plat prev (e # es) = snd (snd (computeEventsDiff plat prev e)) + counted plat (Some e) es"

text \<open>A later version of the same event: same start, later end, no lower count.\<close>

definition later_version :: "EventInfo \<Rightarrow> EventInfo \<Rightarrow> bool" where
  "later_version a b \<longleftrightarrow> ei_FirstTimestamp a = ei_FirstTimestamp b \<and> ei_Count a \<le> ei_Count b
     \<and> tns (ei_FirstTimestamp a) \<le> tns (ei_LastTimestamp a) \<and> tns (ei_LastTimestamp a) < tns (ei_LastTimestamp b)
     \<and> 0 \<le> ei_Count a \<and> ei_Count b < 2 ^ 63"

lemma computeEventsDiff_later:
  "later_version a b \<Longrightarrow> computeEventsDiff plat (Some a) b
     = (ei_LastTimestamp a, ei_LastTimestamp b, ei_Count b - ei_Count a)"
  by (auto simp: computeEventsDiff_def later_version_def time_Before_def time_Equal_def time_After_def
      wrap_int64_id)

lemma counted_later:
  "successively later_version (e # es) \<Longrightarrow> counted plat (Some e) es = ei_Count (last (e # es)) - ei_Count e"
proof (induction es arbitrary: e)
  case (Cons f es)
  then have "later_version e f" "successively later_version (f # es)" by simp_all
  then show ?case using Cons.IH[of f] by (simp add: computeEventsDiff_later)
qed simp

text \<open>
  Counting the updates of an event never counts an occurrence twice. Along a series of
  versions of one event with the same first timestamp, later and later last timestamps and
  counts that do not fall, the new counts that \<open>computeEventsDiff\<close> finds, from the first
  version on, add up to the count of the last version.
\<close>

lemma event_updates_add_up:
  assumes "successively later_version (e # es)"
  shows "counted plat None (e # es) = ei_Count (last (e # es))"
  using counted_later[OF assms] by (simp add: computeEventsDiff_def)

lemma event_updates_add_up_witness:
  "counted (\<lambda>_. 0) None
     [\<lparr>ei_Reason = ''r'', ei_Type = ''t'', ei_FirstTimestamp = Time 0 UTC, ei_LastTimestamp = Time 10 UTC, ei_Count = 50\<rparr>,
      \<lparr>ei_Reason = ''r'', ei_Type = ''t'', ei_FirstTimestamp = Time 0 UTC, ei_LastTimestamp = Time 20 UTC, ei_Count = 62\<rparr>] = 62"
  by (subst event_updates_add_up) (simp_all add: later_version_def)

text \<open>
  A version that is not newer adds nothing. When the stored version of an event ends at
  the same time as the new one or later, and does not end before the new one begins, the new
  count is zero whatever the counts say, so a replayed event changes no counter.
\<close>

lemma replayed_event_adds_nothing:
  assumes "tns (ei_FirstTimestamp b) \<le> tns (ei_LastTimestamp a)"
    and "tns (ei_LastTimestamp b) \<le> tns (ei_LastTimestamp a)"
  shows "computeEventsDiff plat (Some a) b = (zero_time, zero_time, 0)"
  using assms by (auto simp: computeEventsDiff_def time_Before_def time_Equal_def time_After_def)

lemma replayed_event_adds_nothing_witness:
  "computeEventsDiff (\<lambda>_. 0)
     (Some \<lparr>ei_Reason = ''r'', ei_Type = ''t'', ei_FirstTimestamp = Time 0 UTC, ei_LastTimestamp = Time 20 UTC, ei_Count = 55\<rparr>)
     \<lparr>ei_Reason = ''r'', ei_Type = ''t'', ei_FirstTimestamp = Time 0 UTC, ei_LastTimestamp = Time 20 UTC, ei_Count = 50\<rparr>
   = (zero_time, zero_time, 0)"
  by (rule replayed_event_adds_nothing) simp_all

text \<open>
  Events inside the stored partitions are kept whole, events outside are dropped, and an
  event with one occurrence loses its count. With the truncation window from \<open>b\<close> to \<open>e\<close>: an event
  that lasts some time within the window keeps its times and its count (up to \<open>2 ^ 53\<close>); an
  event that ends before the window or begins after it has the count 0; an event inside the
  window whose first and last timestamp are equal gets the conversion of a not-a-number to an
  integer as its count, which Go leaves to the platform, whatever its count was.
\<close>

lemma adjust_for_partitions_cases:
  assumes "b = (if minEnd = maxEnd then maxStart else minEnd)"
  shows "(0 \<le> cnt \<and> cnt \<le> 2 ^ 53 \<and> tns b \<le> tns f \<and> tns f < tns l \<and> tns l \<le> tns maxEnd
        \<and> tns l - tns f < 2 ^ 63 - 1
      \<longrightarrow> adjustForAvailablePartitions plat f l cnt minEnd maxStart maxEnd = (f, l, cnt))
    \<and> (tns l < tns b \<or> tns maxEnd < tns f
      \<longrightarrow> adjustForAvailablePartitions plat f l cnt minEnd maxStart maxEnd = (b, maxEnd, 0))
    \<and> (\<bar>cnt\<bar> \<le> 2 ^ 53 \<and> tns b \<le> tns f \<and> tns f = tns l \<and> tns l \<le> tns maxEnd
      \<longrightarrow> adjustForAvailablePartitions plat f l cnt minEnd maxStart maxEnd = (f, l, plat NaN))"
proof (intro conjI impI)
  assume *: "0 \<le> cnt \<and> cnt \<le> 2 ^ 53 \<and> tns b \<le> tns f \<and> tns f < tns l \<and> tns l \<le> tns maxEnd
    \<and> tns l - tns f < 2 ^ 63 - 1"
  then have sub: "time_Sub l f = tns l - tns f" by (simp add: time_Sub_def)
  obtain a where a: "0 < a" "dur_Seconds (time_Sub l f) = Fin a"
    using dur_Seconds_pos[of "tns l - tns f"] * unfolding sub by auto
  have one: "fround 1 = Fin 1" using fround_of_int[of 1] by simp
  have "f_to_int64 plat (Fin (of_int cnt)) = cnt" using * by (simp add: trunc_def)
  then show "adjustForAvailablePartitions plat f l cnt minEnd maxStart maxEnd = (f, l, cnt)"
    using * a one f_of_int_small[of cnt] fround_of_int[of cnt]
    by (simp add: adjustForAvailablePartitions_def assms[symmetric] Let_def time_Before_def time_After_def
        del: f_to_int64.simps)
next
  assume "tns l < tns b \<or> tns maxEnd < tns f"
  then show "adjustForAvailablePartitions plat f l cnt minEnd maxStart maxEnd = (b, maxEnd, 0)"
    by (auto simp: adjustForAvailablePartitions_def assms[symmetric] Let_def time_Before_def time_After_def)
next
  assume *: "\<bar>cnt\<bar> \<le> 2 ^ 53 \<and> tns b \<le> tns f \<and> tns f = tns l \<and> tns l \<le> tns maxEnd"
  have "dur_Seconds (time_Sub l f) = Fin 0"
    using * fround_of_int[of 0] by (simp add: time_Sub_def dur_Seconds_def go_quot_def go_rem_def)
  then show "adjustForAvailablePartitions plat f l cnt minEnd maxStart maxEnd = (f, l, plat NaN)"
    using * by (cases "f_of_int cnt")
      (simp_all add: adjustForAvailablePartitions_def assms[symmetric] Let_def time_Before_def time_After_def)
qed

lemma adjust_for_partitions_cases_witness:
  "adjustForAvailablePartitions (\<lambda>_. - (2 ^ 63)) (Time 100000000000 UTC) (Time 200000000000 UTC) 7
     (Time 50000000000 UTC) (Time 60000000000 UTC) (Time 900000000000 UTC)
   = (Time 100000000000 UTC, Time 200000000000 UTC, 7)"
  using adjust_for_partitions_cases[of "Time 50000000000 UTC" "Time 50000000000 UTC" "Time 900000000000 UTC"
      "Time 60000000000 UTC" 7 "Time 100000000000 UTC" "Time 200000000000 UTC" "\<lambda>_. - (2 ^ 63)"]
  by simp

end
