(* ===== verification/Processing.thy ===== *)
theory Processing
  imports ResPayload EventCount
begin

text \<open>
  \<open>pkg/sloop/processing\<close>: what happens to one record of the watch channel. \<open>B\<close> is the store,
  \<open>P\<close> the protobuf library, \<open>X\<close> the payload extractors' library, \<open>pd\<close> the partition duration,
  \<open>plat\<close> the platform's float conversion, \<open>loc\<close> the local time zone, \<open>now\<close> the clock. A function
  on a transaction returns its result and the transaction after it. Metrics and logging are left
  out, and so is \<open>maxLookback\<close>, which no function reads. Error messages leave out the
  printed arguments.
\<close>

section \<open>The watch table (\<open>watch.go\<close>)\<close>

definition toWatchTableKey ::
  "pb_lib \<Rightarrow> int \<Rightarrow> pb_timestamp option \<Rightarrow> string \<Rightarrow> string \<Rightarrow> string \<Rightarrow> WatchTableKey res" where
  "toWatchTableKey P pd ts kind namespace name =
    bind_res (map_err (\<lambda>e. Wrapped e ''Could not convert timestamp'') (ptypes_Timestamp P ts)) (\<lambda>timestamp.
      bind_res (GetPartitionId pd timestamp) (\<lambda>partitionId.
        Ok (NewWatchTableKey partitionId kind namespace name timestamp)))"

definition toWatchTableKeyPrefix ::
  "pb_lib \<Rightarrow> int \<Rightarrow> pb_timestamp option \<Rightarrow> string \<Rightarrow> string \<Rightarrow> string \<Rightarrow> WatchTableKey res" where
  "toWatchTableKeyPrefix P pd ts kind namespace name =
    bind_res (map_err (\<lambda>e. Wrapped e ''Could not convert timestamp for key prefix'') (ptypes_Timestamp P ts))
      (\<lambda>timestamp. bind_res (GetPartitionId pd timestamp) (\<lambda>partitionId.
        Ok (NewWatchTableKey partitionId kind namespace name zero_time)))"

definition getLastWatchKey ::
  "('db, 'txn, 'it) badger \<Rightarrow> 'txn \<Rightarrow> WatchTableKey \<Rightarrow> (bool \<times> string) res" where
  "getLastWatchKey B txn keyPrefix =
    (let keyPrefixStr = WatchTableKey_String keyPrefix;
         iterOpt = DefaultIteratorOptions\<lparr>opt_Prefix := keyPrefixStr, opt_Reverse := True\<rparr>;
         itr = it_Seek B (tx_NewIterator B txn iterOpt) (keyPrefixStr @ rune255)
     in if it_ValidForPrefix B itr keyPrefixStr then bind_res (current_key B itr) (\<lambda>k. Ok (True, k))
        else Ok (False, []))"

definition getLastKubeWatchResult ::
  "('db, 'txn, 'it) badger \<Rightarrow> pb_lib \<Rightarrow> int \<Rightarrow> 'txn \<Rightarrow> pb_timestamp option \<Rightarrow> string \<Rightarrow> string \<Rightarrow> string
     \<Rightarrow> KubeWatchResult option res" where
  "getLastKubeWatchResult B P pd txn ts kind namespace name =
    bind_res (toWatchTableKeyPrefix P pd ts kind namespace name) (\<lambda>keyPrefixWithoutTs.
      bind_res
        (map_err (\<lambda>e. Wrapped e (''Failure getting previous watch result for '' @ WatchTableKey_String keyPrefixWithoutTs))
          (getLastWatchKey B txn keyPrefixWithoutTs))
        (\<lambda>(prevFound, prevKey).
          if \<not> prevFound then Ok None
          else bind_res (KubeWatchResultTable_Get B P txn prevKey) (\<lambda>prevWatch. Ok (Some prevWatch))))"

definition doesNodeHaveMajorUpdates ::
  "('db, 'txn, 'it) badger \<Rightarrow> pb_lib \<Rightarrow> 'j ext_lib \<Rightarrow> int \<Rightarrow> 'txn \<Rightarrow> KubeWatchResult \<Rightarrow> KubeMetadata \<Rightarrow> bool res" where
  "doesNodeHaveMajorUpdates B P X pd txn watchRec metadata =
    bind_res (getLastKubeWatchResult B P pd txn (wr_Timestamp watchRec) (wr_Kind watchRec)
        (km_Namespace metadata) (km_Name metadata)) (\<lambda>prevValue.
      case prevValue of
        None \<Rightarrow> Ok True
      | Some prev \<Rightarrow>
          map_err (\<lambda>e. Wrapped e ''Failed to check if nodes have meaningfully differences'')
            (NodeHasMajorUpdate X (wr_Payload prev) (wr_Payload watchRec)))"

definition updateKubeWatchTable ::
  "('db, 'txn, 'it) badger \<Rightarrow> pb_lib \<Rightarrow> 'j ext_lib \<Rightarrow> int \<Rightarrow> 'txn \<Rightarrow> KubeWatchResult \<Rightarrow> KubeMetadata \<Rightarrow> bool
     \<Rightarrow> unit res \<times> 'txn" where
  "updateKubeWatchTable B P X pd txn watchRec metadata keepMinorNodeUpdates =
    (case toWatchTableKey P pd (wr_Timestamp watchRec) (wr_Kind watchRec) (km_Namespace metadata) (km_Name metadata) of
       Err e \<Rightarrow> (Err e, txn)
     | Panic m \<Rightarrow> (Panic m, txn)
     | Ok key \<Rightarrow>
        (case (if wr_Kind watchRec = NodeKind \<and> \<not> keepMinorNodeUpdates
               then doesNodeHaveMajorUpdates B P X pd txn watchRec metadata else Ok True) of
           Err e \<Rightarrow> (Err e, txn)
         | Panic m \<Rightarrow> (Panic m, txn)
         | Ok hasUpdates \<Rightarrow>
            if \<not> hasUpdates then (Ok (), txn)
            else (case KubeWatchResultTable_Set B P txn (WatchTableKey_String key) watchRec of
                    (Err e, txn') \<Rightarrow> (Err (Wrapped e ''Put failed''), txn')
                  | r \<Rightarrow> r)))"

text \<open>The metadata of a payload that does not parse are empty, and so is then the uid.\<close>

definition GetUidForWatchEntry ::
  "('db, 'txn, 'it) badger \<Rightarrow> pb_lib \<Rightarrow> 'j ext_lib \<Rightarrow> int \<Rightarrow> gotime \<Rightarrow> 'txn \<Rightarrow> string \<Rightarrow> string \<Rightarrow> string \<Rightarrow> gotime
     \<Rightarrow> string res option" where
  "GetUidForWatchEntry B P X pd now txn kind namespace name timestamp =
    (let watchKeyComparator = NewWatchTableKeyComparator kind namespace name timestamp
     in case GetSeekKey pd watchKeyComparator now of
          Err e \<Rightarrow> Some (Err e)
        | Panic m \<Rightarrow> Some (Panic m)
        | Ok seekKey \<Rightarrow>
            map_option (\<lambda>(previous, _, _). bind_res previous (\<lambda>previousKey.
                bind_res (KubeWatchResultTable_Get B P txn (WatchTableKey_String previousKey)) (\<lambda>previousVal.
                  let (metadata, _) = ExtractMetadata X (wr_Payload previousVal) in Ok (km_Uid metadata))))
              (KubeWatchResultTable_GetPreviousKey B pd txn seekKey watchKeyComparator))"

section \<open>The event counts (\<open>eventcount.go\<close>)\<close>

definition getPreviousEventInfo ::
  "('db, 'txn, 'it) badger \<Rightarrow> pb_lib \<Rightarrow> 'j ext_lib \<Rightarrow> int \<Rightarrow> 'txn \<Rightarrow> pb_timestamp option \<Rightarrow> string \<Rightarrow> string \<Rightarrow> string
     \<Rightarrow> EventInfo option res" where
  "getPreviousEventInfo B P X pd txn ts kind namespace name =
    bind_res (getLastKubeWatchResult B P pd txn ts kind namespace name) (\<lambda>prevWatch.
      case prevWatch of
        None \<Rightarrow> Ok None
      | Some w \<Rightarrow> bind_res (ExtractEventInfo X (wr_Payload w)) (\<lambda>i. Ok (Some i)))"

text \<open>The first loop of \<open>storeMinutes\<close>: the counts by partition.\<close>

fun group_minutes ::
  "int \<Rightarrow> location \<Rightarrow> (int \<times> int) list \<Rightarrow> (string \<times> (int \<times> int) list) list
     \<Rightarrow> (string \<times> (int \<times> int) list) list res" where
  "group_minutes pd loc [] acc = Ok acc"
| "group_minutes pd loc ((unixTime, cnt) # minToCount) acc =
    bind_res (GetPartitionId pd (time_Unix loc unixTime 0)) (\<lambda>partitionId.
      let thisPart = (case map_of acc partitionId of None \<Rightarrow> [] | Some m \<Rightarrow> m)
      in group_minutes pd loc minToCount (AList.update partitionId (AList.update unixTime cnt thisPart) acc))"

text \<open>
  The body of the inner loop. \<open>Some r\<close> in the first component returns \<open>r\<close> from \<open>storeMinutes\<close>.
  A record whose map is nil makes it return the wrapping of a nil error, which is no error; a
  nil map of reasons cannot be written to.
\<close>

definition store_minute ::
  "('db, 'txn, 'it) badger \<Rightarrow> pb_lib \<Rightarrow> int \<Rightarrow> location \<Rightarrow> string \<Rightarrow> string \<Rightarrow> string \<Rightarrow> string \<Rightarrow> string \<Rightarrow> string
     \<Rightarrow> int \<Rightarrow> int \<Rightarrow> 'txn \<Rightarrow> unit res option \<times> 'txn" where
  "store_minute B P pd loc kind namespace name uid reason severity unixTime cnt txn =
    (case NewEventCountKey pd (time_UTC (time_Unix loc unixTime 0)) kind namespace name uid of
       Err e \<Rightarrow> (Some (Err e), txn)
     | Panic m \<Rightarrow> (Some (Panic m), txn)
     | Ok k \<Rightarrow>
       let key = EventCountKey_String k
       in case EventCount_GetOrDefault B P txn key of
         Err e \<Rightarrow> (Some (Err (Wrapped e ''Could not get event record'')), txn)
       | Panic m \<Rightarrow> (Some (Panic m), txn)
       | Ok eventRecord \<Rightarrow>
         (case rec_MapMinToEvents eventRecord of
            None \<Rightarrow> (Some (case wrap_nilable None ''MapMinToEvents is nil'' of None \<Rightarrow> Ok () | Some e \<Rightarrow> Err e), txn)
          | Some minToEvents \<Rightarrow>
            (case (case map_of minToEvents unixTime of
                     None \<Rightarrow> Some [] | Some counts \<Rightarrow> evc_MapReasonToCount counts) of
               None \<Rightarrow> (Some (Panic ''assignment to entry in nil map''), txn)
             | Some reasonToCount \<Rightarrow>
               let r = reason @ '':'' @ severity;
                   old = (case map_of reasonToCount r of None \<Rightarrow> 0 | Some n \<Rightarrow> n);
                   counts = \<lparr>evc_MapReasonToCount = Some (AList.update r (wrap_int32 (old + wrap_int32 cnt)) reasonToCount)\<rparr>;
                   eventRecord' = \<lparr>rec_MapMinToEvents = Some (AList.update unixTime counts minToEvents)\<rparr>
               in case ResourceEventCountsTable_Set B P txn key eventRecord' of
                    (Err e, txn') \<Rightarrow> (Some (Err (Wrapped e ''Failed to put'')), txn')
                  | (Panic m, txn') \<Rightarrow> (Some (Panic m), txn')
                  | (Ok _, txn') \<Rightarrow> (None, txn'))))"

fun store_loop ::
  "(int \<Rightarrow> int \<Rightarrow> 'txn \<Rightarrow> unit res option \<times> 'txn) \<Rightarrow> (int \<times> int) list \<Rightarrow> 'txn \<Rightarrow> unit res \<times> 'txn" where
  "store_loop f [] txn = (Ok (), txn)"
| "store_loop f ((unixTime, cnt) # rest) txn =
    (case f unixTime cnt txn of (Some r, txn') \<Rightarrow> (r, txn') | (None, txn') \<Rightarrow> store_loop f rest txn')"

definition storeMinutes ::
  "('db, 'txn, 'it) badger \<Rightarrow> pb_lib \<Rightarrow> int \<Rightarrow> location \<Rightarrow> 'txn \<Rightarrow> (int \<times> int) list \<Rightarrow> string \<Rightarrow> string \<Rightarrow> string
     \<Rightarrow> string \<Rightarrow> string \<Rightarrow> string \<Rightarrow> unit res \<times> 'txn" where
  "storeMinutes B P pd loc txn minToCount kind namespace name uid reason severity =
    (case group_minutes pd loc minToCount [] of
       Err e \<Rightarrow> (Err e, txn)
     | Panic m \<Rightarrow> (Panic m, txn)
     | Ok mapPartToTimeToCount \<Rightarrow>
         store_loop (store_minute B P pd loc kind namespace name uid reason severity)
           (concat (map snd mapPartToTimeToCount)) txn)"

text \<open>
  When no partition is known, the function wraps the error variable, which is nil there, and
  so returns no error.
\<close>

definition updateEventCountTable ::
  "('db, 'txn, 'it) badger \<Rightarrow> pb_lib \<Rightarrow> 'j ext_lib \<Rightarrow> (f64 \<Rightarrow> int) \<Rightarrow> int \<Rightarrow> location \<Rightarrow> gotime \<Rightarrow> 'txn
     \<Rightarrow> KubeWatchResult \<Rightarrow> KubeMetadata \<Rightarrow> KubeInvolvedObject \<Rightarrow> (unit res \<times> 'txn) option" where
  "updateEventCountTable B P X plat pd loc now txn watchRec metadata involvedObject =
    (if wr_Kind watchRec \<noteq> EventKind then Some (Ok (), txn)
     else case getPreviousEventInfo B P X pd txn (wr_Timestamp watchRec) (wr_Kind watchRec)
                 (km_Namespace metadata) (km_Name metadata) of
       Err e \<Rightarrow> Some (Err (Wrapped e ''Could not get event info for previous event instance''), txn)
     | Panic m \<Rightarrow> Some (Panic m, txn)
     | Ok prevEventInfo \<Rightarrow>
       (case ExtractEventInfo X (wr_Payload watchRec) of
          Err e \<Rightarrow> Some (Err (Wrapped e ''Could not extract reason''), txn)
        | Panic m \<Rightarrow> Some (Panic m, txn)
        | Ok newEventInfo \<Rightarrow>
          (case computeEventsDiff plat prevEventInfo newEventInfo of (firstTs, lastTs, cnt) \<Rightarrow>
           if cnt = 0 then Some (Ok (), txn)
           else (case GetMinAndMaxPartitionWithTxn B txn of
              Err e \<Rightarrow> Some (Err e, txn)
            | Panic m \<Rightarrow> Some (Panic m, txn)
            | Ok (ok, minPartition, maxPartition) \<Rightarrow>
              if \<not> ok then
                Some (case wrap_nilable None ''There was an error in GetMinAndMaxPartitionWithTxn'' of
                        None \<Rightarrow> Ok () | Some e \<Rightarrow> Err e, txn)
              else (case bind_res (GetTimeRangeForPartition pd minPartition) (\<lambda>(_, minEnd).
                        bind_res (GetTimeRangeForPartition pd maxPartition) (\<lambda>(maxStart, maxEnd).
                          Ok (adjustForAvailablePartitions plat firstTs lastTs cnt minEnd maxStart maxEnd))) of
                 Err e \<Rightarrow> Some (Err e, txn)
               | Panic m \<Rightarrow> Some (Panic m, txn)
               | Ok (firstTs', lastTs', cnt') \<Rightarrow>
                 let eventCountByMinute = spreadOutEvents plat firstTs' lastTs' cnt';
                     store = (\<lambda>uid. storeMinutes B P pd loc txn eventCountByMinute (io_Kind involvedObject)
                       (io_Namespace involvedObject) (io_Name involvedObject) uid
                       (ei_Reason newEventInfo) (ei_Type newEventInfo))
                 in if io_Uid involvedObject = [] then
                      map_option (\<lambda>r. case r of
                          Err e \<Rightarrow> (Err (Wrapped e ''Error retrieving Uid for the involved object''), txn)
                        | Panic m \<Rightarrow> (Panic m, txn)
                        | Ok returnedUid \<Rightarrow> store returnedUid)
                        (GetUidForWatchEntry B P X pd now txn (io_Kind involvedObject)
                          (io_Namespace involvedObject) (io_Name involvedObject) zero_time)
                    else Some (store (io_Uid involvedObject)))))))"

section \<open>The watch activity (\<open>watchactivity.go\<close>)\<close>

definition didKubeWatchResultChange ::
  "('db, 'txn, 'it) badger \<Rightarrow> pb_lib \<Rightarrow> 'j ext_lib \<Rightarrow> int \<Rightarrow> 'txn \<Rightarrow> KubeWatchResult \<Rightarrow> KubeMetadata \<Rightarrow> bool res" where
  "didKubeWatchResultChange B P X pd txn watchRec metadata =
    bind_res
      (map_err (\<lambda>e. Wrapped e ''Could not get event info for previous event instance'')
        (getLastKubeWatchResult B P pd txn (wr_Timestamp watchRec) (wr_Kind watchRec)
          (km_Namespace metadata) (km_Name metadata)))
      (\<lambda>prevWatch. case prevWatch of
         None \<Rightarrow> Ok False
       | Some w \<Rightarrow>
           (case ExtractMetadata X (wr_Payload w) of
              (_, Some e) \<Rightarrow> Err (Wrapped e ''Cannot extract resource metadata'')
            | (prevMetadata, None) \<Rightarrow> Ok (km_ResourceVersion metadata \<noteq> km_ResourceVersion prevMetadata)))"

definition getWatchActivity ::
  "('db, 'txn, 'it) badger \<Rightarrow> pb_lib \<Rightarrow> int \<Rightarrow> 'txn \<Rightarrow> gotime \<Rightarrow> KubeWatchResult \<Rightarrow> KubeMetadata
     \<Rightarrow> (WatchActivity \<times> WatchActivityKey) res" where
  "getWatchActivity B P pd txn timestamp watchRec metadata =
    bind_res (GetPartitionId pd timestamp) (\<lambda>partitionId.
      let key = NewWatchActivityKey partitionId (wr_Kind watchRec) (km_Namespace metadata) (km_Name metadata)
                  (km_Uid metadata)
      in bind_res
           (map_err (\<lambda>e. Wrapped e ''Could not get watch activity record'')
             (WatchActivity_GetOrDefault B P txn (WatchActivityKey_String key)))
           (\<lambda>activityRecord. Ok (activityRecord, key)))"

definition putWatchActivity ::
  "('db, 'txn, 'it) badger \<Rightarrow> pb_lib \<Rightarrow> 'txn \<Rightarrow> WatchActivity \<Rightarrow> WatchActivityKey \<Rightarrow> unit res \<times> 'txn" where
  "putWatchActivity B P txn activityRecord key =
    (case WatchActivityTable_Set B P txn (WatchActivityKey_String key) activityRecord of
       (Err e, txn') \<Rightarrow> (Err (Wrapped e ''Failed to put watch activity record''), txn')
     | r \<Rightarrow> r)"

definition updateWatchActivityTable ::
  "('db, 'txn, 'it) badger \<Rightarrow> pb_lib \<Rightarrow> 'j ext_lib \<Rightarrow> int \<Rightarrow> 'txn \<Rightarrow> KubeWatchResult \<Rightarrow> KubeMetadata \<Rightarrow> unit res \<times> 'txn" where
  "updateWatchActivityTable B P X pd txn watchRec metadata =
    (if wr_Kind watchRec = EventKind then (Ok (), txn)
     else case bind_res (didKubeWatchResultChange B P X pd txn watchRec metadata) (\<lambda>resourceChanged.
            bind_res (map_err (\<lambda>e. Wrapped e ''Could not convert timestamp'') (ptypes_Timestamp P (wr_Timestamp watchRec)))
              (\<lambda>timestamp. bind_res (getWatchActivity B P pd txn timestamp watchRec metadata)
                (\<lambda>(activityRecord, key). Ok
                  (if resourceChanged
                   then activityRecord\<lparr>act_ChangedAt := act_ChangedAt activityRecord @ [Unix timestamp]\<rparr>
                   else activityRecord\<lparr>act_NoChangeAt := act_NoChangeAt activityRecord @ [Unix timestamp]\<rparr>, key)))) of
       Err e \<Rightarrow> (Err e, txn)
     | Panic m \<Rightarrow> (Panic m, txn)
     | Ok (activityRecord, key) \<Rightarrow> putWatchActivity B P txn activityRecord key)"

section \<open>The resource summary (\<open>resourcesummary.go\<close>)\<close>

definition StringToProtobufTimestamp :: "pb_lib \<Rightarrow> 'j ext_lib \<Rightarrow> string \<Rightarrow> pb_timestamp res" where
  "StringToProtobufTimestamp P X ts =
    bind_res (map_err (\<lambda>e. Wrapped e ''could not parse timestamp'') (time_Parse_RFC3339 X ts)) (\<lambda>t.
      map_err (\<lambda>e. Wrapped e ''could not transform to proto timestamp'') (ptypes_TimestampProto P t))"

definition getResourceSummaryValue ::
  "('db, 'txn, 'it) badger \<Rightarrow> pb_lib \<Rightarrow> 'j ext_lib \<Rightarrow> 'txn \<Rightarrow> string \<Rightarrow> KubeMetadata \<Rightarrow> KubeWatchResult
     \<Rightarrow> ResourceSummary res" where
  "getResourceSummaryValue B P X txn key metadata watchRec =
    bind_res
      (case ResourceSummaryTable_Get B P txn key of
         Err e \<Rightarrow>
           if e \<noteq> ErrKeyNotFound then Err (Wrapped e ''could not get record'')
           else bind_res
             (map_err (\<lambda>e. Wrapped e ''could not convert string to timestamp'')
               (StringToProtobufTimestamp P X (km_CreationTimestamp metadata)))
             (\<lambda>createTimeProto. Ok \<lparr>rsum_FirstSeen = wr_Timestamp watchRec, rsum_LastSeen = None,
                rsum_CreateTime = Some createTimeProto, rsum_DeletedAtEnd = False, rsum_Relationships = []\<rparr>)
       | Panic m \<Rightarrow> Panic m
       | Ok val \<Rightarrow>
           Ok (if wr_WatchType watchRec = KubeWatchResult_ADD
               then val\<lparr>rsum_FirstSeen := wr_Timestamp watchRec\<rparr> else val))
      (\<lambda>val. let val1 = val\<lparr>rsum_LastSeen := wr_Timestamp watchRec\<rparr>
        in Ok (if wr_WatchType watchRec = KubeWatchResult_DELETE then val1\<lparr>rsum_DeletedAtEnd := True\<rparr> else val1))"

fun getRelationships ::
  "int \<Rightarrow> gotime \<Rightarrow> string \<Rightarrow> KubeMetadataOwnerReference list \<Rightarrow> string list res" where
  "getRelationships pd timestamp namespace [] = Ok []"
| "getRelationships pd timestamp namespace (ref # refs) =
    bind_res (NewResourceSummaryKey pd timestamp (or_Kind ref) namespace (or_Name ref) (or_Uid ref)) (\<lambda>refKey.
      bind_res (getRelationships pd timestamp namespace refs) (\<lambda>relationships.
        Ok (ResourceSummaryKey_String refKey # relationships)))"

definition updateResourceSummaryTable ::
  "('db, 'txn, 'it) badger \<Rightarrow> pb_lib \<Rightarrow> 'j ext_lib \<Rightarrow> int \<Rightarrow> 'txn \<Rightarrow> KubeWatchResult \<Rightarrow> KubeMetadata \<Rightarrow> unit res \<times> 'txn" where
  "updateResourceSummaryTable B P X pd txn watchRec metadata =
    (if wr_Kind watchRec = EventKind then (Ok (), txn)
     else case bind_res (map_err (\<lambda>e. Wrapped e ''could not convert timestamp'') (ptypes_Timestamp P (wr_Timestamp watchRec)))
        (\<lambda>ts. bind_res (NewResourceSummaryKey pd ts (wr_Kind watchRec) (km_Namespace metadata) (km_Name metadata)
                 (km_Uid metadata))
          (\<lambda>k. let key = ResourceSummaryKey_String k
            in bind_res (map_err (\<lambda>e. Wrapped e (''could not get record for key '' @ key))
                 (getResourceSummaryValue B P X txn key metadata watchRec))
              (\<lambda>val. bind_res (getRelationships pd ts (km_Namespace metadata) (km_OwnerReferences metadata))
                (\<lambda>rels. Ok (key, val\<lparr>rsum_Relationships := rels\<rparr>))))) of
       Err e \<Rightarrow> (Err e, txn)
     | Panic m \<Rightarrow> (Panic m, txn)
     | Ok (key, val) \<Rightarrow>
         (case ResourceSummaryTable_Set B P txn key val of
            (Err e, txn') \<Rightarrow> (Err (Wrapped e (''put for the key '' @ key @ '' failed'')), txn')
          | r \<Rightarrow> r))"

section \<open>The runner (\<open>processing.go\<close>)\<close>

text \<open>
  One round of the loop of \<open>Runner.Start\<close>: four transactions in turn. A failure of one is
  counted and logged and the next one runs all the same; the model collects the failures. A
  panic ends the program.
\<close>

definition processingFailed :: "string \<Rightarrow> unit res \<Rightarrow> string list \<Rightarrow> string list" where
  "processingFailed name r failures = (case r of Err e \<Rightarrow> failures @ [name] | _ \<Rightarrow> failures)"

definition run_update ::
  "('db, 'txn, 'it) badger \<Rightarrow> string \<Rightarrow> ('txn \<Rightarrow> unit res \<times> 'txn) \<Rightarrow> 'db \<times> string list \<Rightarrow> ('db \<times> string list) res" where
  "run_update B name f = (\<lambda>(db, failures).
    let (r, db') = db_Update B db f
    in case r of Panic m \<Rightarrow> Panic m | _ \<Rightarrow> Ok (db', processingFailed name r failures))"

definition process_record ::
  "('db, 'txn, 'it) badger \<Rightarrow> pb_lib \<Rightarrow> 'j ext_lib \<Rightarrow> (f64 \<Rightarrow> int) \<Rightarrow> int \<Rightarrow> location \<Rightarrow> gotime \<Rightarrow> bool
     \<Rightarrow> 'db \<Rightarrow> KubeWatchResult \<Rightarrow> ('db \<times> string list) res option" where
  "process_record B P X plat pd loc now keepMinorNodeUpdates db watchRec =
    (let (resourceMetadata, err1) = ExtractMetadata X (wr_Payload watchRec);
         (involvedObject, err2) = ExtractInvolvedObject X (wr_Payload watchRec);
         failures = (if err1 \<noteq> None then [''cannot extract resource metadata''] else [])
                  @ (if err2 \<noteq> None then [''cannot extract involved object''] else [])
     in map_option (\<lambda>p.
          bind_res (run_update B ''updateEventCountTable'' (\<lambda>_. p) (db, failures)) (\<lambda>s1.
            bind_res (run_update B ''updateWatchActivityTable''
                (\<lambda>txn. updateWatchActivityTable B P X pd txn watchRec resourceMetadata) s1) (\<lambda>s2.
              bind_res (run_update B ''updateKubeWatchTable''
                  (\<lambda>txn. updateKubeWatchTable B P X pd txn watchRec resourceMetadata keepMinorNodeUpdates) s2)
                (\<lambda>s3. run_update B ''updateResourceSummaryTable''
                  (\<lambda>txn. updateResourceSummaryTable B P X pd txn watchRec resourceMetadata) s3))))
        (updateEventCountTable B P X plat pd loc now (db_NewTxn B db False) watchRec resourceMetadata involvedObject))"

text \<open>The loop over what the channel delivers until it is closed; \<open>step\<close> is the turn of the loop.\<close>

fun process_all ::
  "('db \<Rightarrow> 'r \<Rightarrow> ('db \<times> string list) res option) \<Rightarrow> 'db \<Rightarrow> string list \<Rightarrow> 'r list
     \<Rightarrow> ('db \<times> string list) res option" where
  "process_all step db failures [] = Some (Ok (db, failures))"
| "process_all step db failures (watchRec # recs) =
    Option.bind (step db watchRec) (\<lambda>r. case r of
      Ok (db', fs) \<Rightarrow> process_all step db' (failures @ fs) recs
    | Err e \<Rightarrow> Some (Err e)
    | Panic m \<Rightarrow> Some (Panic m))"

end
