(* ===== verification/Samples.thy ===== *)
theory Samples
  imports Processing "HOL-Library.Countable"
begin

text \<open>
  Concrete libraries for the witnesses: a protobuf library whose codecs number the values, with
  the documented meaning of the timestamp conversions, and extractors that read the same metadata
  out of every payload.
\<close>

text \<open>The libraries return or report an error.\<close>

definition codec_returns :: "'v codec \<Rightarrow> bool" where
  "codec_returns C \<longleftrightarrow> (\<forall>v m. c_Marshal C v \<noteq> Panic m) \<and> (\<forall>s m. c_Unmarshal C s \<noteq> Panic m)"

definition pb_returns :: "pb_lib \<Rightarrow> bool" where
  "pb_returns P \<longleftrightarrow> (\<forall>t m. ptypes_Timestamp P t \<noteq> Panic m) \<and> (\<forall>t m. ptypes_TimestampProto P t \<noteq> Panic m)
    \<and> codec_returns (watch_codec P) \<and> codec_returns (ressum_codec P)
    \<and> codec_returns (event_codec P) \<and> codec_returns (activity_codec P)"

definition ext_returns :: "'j ext_lib \<Rightarrow> bool" where
  "ext_returns X \<longleftrightarrow> (\<forall>s m. time_Parse_RFC3339 X s \<noteq> Panic m) \<and> (\<forall>s m. gabs_ParseJSON X s \<noteq> Panic m)
    \<and> (\<forall>j v ps m. gabs_Set X j v ps \<noteq> Panic m)"

definition nat_codec :: "('v \<Rightarrow> 'a::countable) \<Rightarrow> ('a \<Rightarrow> 'v) \<Rightarrow> 'v codec" where
  "nat_codec f g = \<lparr>c_Marshal = (\<lambda>v. Ok (nat_digits (to_nat (f v)))), c_Unmarshal = (\<lambda>s. Ok (g (from_nat (dec_val s))))\<rparr>"

lemma nat_codec_ok: "g (f v) = v \<Longrightarrow> codec_ok (nat_codec f g) v"
  by (simp add: codec_ok_def nat_codec_def)

definition ts_tuple :: "pb_timestamp option \<Rightarrow> (int \<times> int) option" where
  "ts_tuple = map_option (\<lambda>t. (pb_seconds t, pb_nanos t))"

definition ts_record :: "(int \<times> int) option \<Rightarrow> pb_timestamp option" where
  "ts_record = map_option (\<lambda>(s, n). \<lparr>pb_seconds = s, pb_nanos = n\<rparr>)"

lemma ts_record_tuple [simp]: "ts_record (ts_tuple t) = t"
  by (cases t) (simp_all add: ts_record_def ts_tuple_def)

definition sample_watch_codec :: "KubeWatchResult codec" where
  "sample_watch_codec = nat_codec
     (\<lambda>w. (ts_tuple (wr_Timestamp w), wr_Kind w, wr_WatchType w, wr_Payload w))
     (\<lambda>(t, k, w, p). \<lparr>wr_Timestamp = ts_record t, wr_Kind = k, wr_WatchType = w, wr_Payload = p\<rparr>)"

definition sample_ressum_codec :: "ResourceSummary codec" where
  "sample_ressum_codec = nat_codec
     (\<lambda>r. (ts_tuple (rsum_FirstSeen r), ts_tuple (rsum_LastSeen r), ts_tuple (rsum_CreateTime r),
           rsum_DeletedAtEnd r, rsum_Relationships r))
     (\<lambda>(f, l, c, d, rs). \<lparr>rsum_FirstSeen = ts_record f, rsum_LastSeen = ts_record l, rsum_CreateTime = ts_record c,
           rsum_DeletedAtEnd = d, rsum_Relationships = rs\<rparr>)"

definition sample_event_codec :: "ResourceEventCounts codec" where
  "sample_event_codec = nat_codec
     (\<lambda>r. map_option (map (\<lambda>(m, c). (m, evc_MapReasonToCount c))) (rec_MapMinToEvents r))
     (\<lambda>r. \<lparr>rec_MapMinToEvents = map_option (map (\<lambda>(m, c). (m, \<lparr>evc_MapReasonToCount = c\<rparr>))) r\<rparr>)"

definition sample_activity_codec :: "WatchActivity codec" where
  "sample_activity_codec = nat_codec (\<lambda>a. (act_NoChangeAt a, act_ChangedAt a))
     (\<lambda>(n, c). \<lparr>act_NoChangeAt = n, act_ChangedAt = c\<rparr>)"

definition sample_pb :: pb_lib where
  "sample_pb = \<lparr>
     ptypes_Timestamp = (\<lambda>t. case t of None \<Rightarrow> Err (LibError ''timestamp: nil Timestamp'')
        | Some ts \<Rightarrow> Ok (Time (pb_seconds ts * 1000000000 + pb_nanos ts) UTC)),
     ptypes_TimestampProto = (\<lambda>t. Ok \<lparr>pb_seconds = Unix t, pb_nanos = tns t mod 1000000000\<rparr>),
     watch_codec = sample_watch_codec, ressum_codec = sample_ressum_codec,
     event_codec = sample_event_codec, activity_codec = sample_activity_codec\<rparr>"

lemma sample_codecs_ok:
  "codec_ok sample_watch_codec w" "codec_ok sample_ressum_codec r"
  "codec_ok sample_event_codec e" "codec_ok sample_activity_codec a"
proof -
  have "(\<lambda>x. (fst x, \<lparr>evc_MapReasonToCount = evc_MapReasonToCount (snd x)\<rparr>)) = (\<lambda>x. x :: int \<times> EventCounts)"
    by (simp add: fun_eq_iff)
  then show "codec_ok sample_event_codec e"
    unfolding sample_event_codec_def
    by (intro nat_codec_ok) (cases e; simp add: option.map_comp comp_def case_prod_unfold option.map_ident)
qed (unfold sample_watch_codec_def sample_ressum_codec_def sample_activity_codec_def, (rule nat_codec_ok, simp)+)

lemma sample_pb_returns: "pb_returns sample_pb"
  by (simp add: pb_returns_def codec_returns_def sample_pb_def sample_watch_codec_def sample_ressum_codec_def
      sample_event_codec_def sample_activity_codec_def nat_codec_def split: option.split)

definition sample_ext :: "unit ext_lib" where
  "sample_ext = \<lparr>
     json_Metadata = (\<lambda>p. Ok \<lparr>km_Name = ''n'', km_Namespace = ''ns'', km_Uid = ''u'', km_SelfLink = [],
        km_ResourceVersion = p, km_CreationTimestamp = ''c'', km_OwnerReferences = []\<rparr>),
     json_InvolvedObject = (\<lambda>p. Ok \<lparr>io_Kind = ''Pod'', io_Name = ''n'', io_Namespace = ''ns'', io_Uid = ''u''\<rparr>),
     json_Event = (\<lambda>p. Ok \<lparr>ej_Reason = ''Failed'', ej_FirstTimestamp = [], ej_LastTimestamp = p,
        ej_Count = 1, ej_Type = ''Warning''\<rparr>),
     time_Parse_RFC3339 = (\<lambda>s. Ok (Time (1546398000000000000 + int (length s) * 60000000000) UTC)),
     gabs_ParseJSON = (\<lambda>s. Ok ()), gabs_Set = (\<lambda>j v ps. Ok j), gabs_numConditions = (\<lambda>j. 0),
     gabs_String = (\<lambda>j. [])\<rparr>"

lemma sample_ext_returns: "ext_returns sample_ext"
  by (simp add: ext_returns_def sample_ext_def)

definition sample_record :: KubeWatchResult where
  "sample_record = \<lparr>wr_Timestamp = Some \<lparr>pb_seconds = 1546398000, pb_nanos = 0\<rparr>, wr_Kind = ''Pod'',
     wr_WatchType = KubeWatchResult_ADD, wr_Payload = ''p''\<rparr>"

lemma sample_partition:
  "GetPartitionId Hour (Time 1546398000000000000 UTC) = Ok ''001546398000''"
  by (simp add: GetPartitionId_def go_defs go_eval Let_def)

lemma sample_key:
  "toWatchTableKey sample_pb Hour (wr_Timestamp sample_record) ''Pod'' ''ns'' ''n''
     = Ok (NewWatchTableKey ''001546398000'' ''Pod'' ''ns'' ''n'' (Time 1546398000000000000 UTC))"
  "watch_key_wf (NewWatchTableKey ''001546398000'' ''Pod'' ''ns'' ''n'' (Time 1546398000000000000 UTC))"
  by (simp_all add: toWatchTableKey_def sample_pb_def sample_record_def sample_partition key_wf_defs
      NewWatchTableKey_def IsZero_def zero_ns_def)

end
