(* ===== verification/HeatMap.thy ===== *)
theory HeatMap
  imports Samples
begin

text \<open>
  \<open>pkg/sloop/queries/queryd3heatmap.go\<close> and its output types (\<open>types.go\<close>): the rows of the
  timeline, one per resource, with the event counts as overlays. Dates are Unix seconds of times
  that a protobuf timestamp can hold, so 64 bits are never left and are not written out. Go maps
  are association lists; the log lines of \<open>outputRowValidation\<close> have no effect and are left out.
\<close>

section \<open>Types\<close>

record Overlay =
  ov_Text :: string
  ov_StartDate :: int
  ov_Duration :: int
  ov_EndDate :: int

record TimelineRow =
  tr_Text :: string
  tr_Duration :: int
  tr_Kind :: string
  tr_Namespace :: string
  tr_Overlays :: "Overlay list"
  tr_ChangedAt :: "int list"
  tr_NoChangeAt :: "int list"
  tr_StartDate :: int
  tr_EndDate :: int

record TimelineRoot =
  root_Sort :: string
  root_Rows :: "TimelineRow list"

record rawData =
  raw_Events :: "(EventCountKey \<times> ResourceEventCounts) list"
  raw_Resources :: "(ResourceSummaryKey \<times> ResourceSummary) list"
  raw_WatchActivity :: "(WatchActivityKey \<times> WatchActivity) list"

definition EmptyPartition :: string where "EmptyPartition = []"

section \<open>Reading the store\<close>

text \<open>A key predicate without a state of its own.\<close>

definition stateless :: "(string \<Rightarrow> bool) \<Rightarrow> unit keypred" where
  "stateless f = Some (\<lambda>s u. (f s, u))"

text \<open>The rows of a range read, or its error.\<close>

definition rows_or_error :: "('k, 'v, 'p) rr_result \<Rightarrow> ('k \<times> 'v) list res" where
  "rows_or_error r = (case r of
       Err e \<Rightarrow> Err e | Panic m \<Rightarrow> Panic m | Ok (rows, Some e) \<Rightarrow> Err e | Ok ((rows, stats, p), None) \<Rightarrow> Ok rows)"

definition bind_ores :: "'a res option \<Rightarrow> ('a \<Rightarrow> 'b res option) \<Rightarrow> 'b res option" where
  "bind_ores r f = Option.bind r (\<lambda>x. case x of Ok y \<Rightarrow> f y | Err e \<Rightarrow> Some (Err e) | Panic m \<Rightarrow> Some (Panic m))"

definition getRawDataFromStore ::
  "('db, 'txn, 'it) badger \<Rightarrow> pb_lib \<Rightarrow> int \<Rightarrow> url_values \<Rightarrow> 'db \<Rightarrow> gotime \<Rightarrow> gotime \<Rightarrow> rawData res option" where
  "getRawDataFromStore B P pd params db startTime endTime =
    db_View B db (\<lambda>txn.
      bind_ores (map_option rows_or_error
          (ResourceEventCountsTable_RangeRead B P pd txn None (stateless (paramEventCountSumFn params)) () None startTime endTime))
        (\<lambda>events. bind_ores (map_option rows_or_error
            (ResourceSummaryTable_RangeRead B P pd txn None (stateless (paramFilterResSumFn params)) () None startTime endTime))
          (\<lambda>resources. bind_ores (map_option rows_or_error
              (WatchActivityTable_RangeRead B P pd txn None (stateless (paramFilterWatchActivityFn params)) () None startTime endTime))
            (\<lambda>activity. Some (Ok \<lparr>raw_Events = events, raw_Resources = resources, raw_WatchActivity = activity\<rparr>)))))"

section \<open>Rows\<close>

definition adjustLastSeenTime :: "pb_lib \<Rightarrow> ResourceSummary \<Rightarrow> gotime \<Rightarrow> int \<Rightarrow> ResourceSummary res" where
  "adjustLastSeenTime P resSum queryEndTime resync =
    (if rsum_DeletedAtEnd resSum then Ok resSum
     else bind_res (ptypes_Timestamp P (rsum_LastSeen resSum)) (\<lambda>lastTs.
       if time_Equal (time_Add lastTs resync) queryEndTime \<or> time_After (time_Add lastTs resync) queryEndTime
       then bind_res (ptypes_TimestampProto P queryEndTime) (\<lambda>ts. Ok (resSum\<lparr>rsum_LastSeen := Some ts\<rparr>))
       else Ok resSum))"

fun adjustLastSeenTimeMap ::
  "pb_lib \<Rightarrow> ('k \<times> ResourceSummary) list \<Rightarrow> gotime \<Rightarrow> int \<Rightarrow> ('k \<times> ResourceSummary) list res" where
  "adjustLastSeenTimeMap P [] queryEndTime resync = Ok []"
| "adjustLastSeenTimeMap P ((key, val) # resSumMap) queryEndTime resync =
    bind_res (adjustLastSeenTime P val queryEndTime resync) (\<lambda>val'.
      bind_res (adjustLastSeenTimeMap P resSumMap queryEndTime resync) (\<lambda>rest. Ok ((key, val') # rest)))"

definition resSumRowToD3Gantt :: "pb_lib \<Rightarrow> ResourceSummaryKey \<Rightarrow> ResourceSummary \<Rightarrow> TimelineRow res" where
  "resSumRowToD3Gantt P key val =
    bind_res (ptypes_Timestamp P (rsum_CreateTime val)) (\<lambda>startTs.
      bind_res (ptypes_Timestamp P (rsum_LastSeen val)) (\<lambda>lastTs.
        Ok \<lparr>tr_Text = rk_Name key, tr_Duration = Unix lastTs - Unix startTs, tr_Kind = rk_Kind key,
            tr_Namespace = rk_Namespace key, tr_Overlays = [], tr_ChangedAt = [], tr_NoChangeAt = [],
            tr_StartDate = Unix startTs, tr_EndDate = Unix lastTs\<rparr>))"

fun takeNewest :: "TimelineRow option \<Rightarrow> TimelineRow option \<Rightarrow> TimelineRow option" where
  "takeNewest None right = right"
| "takeNewest left None = left"
| "takeNewest (Some left) (Some right) = (if tr_EndDate left > tr_EndDate right then Some left else Some right)"

fun gantt_loop ::
  "pb_lib \<Rightarrow> (ResourceSummaryKey \<times> ResourceSummary) list \<Rightarrow> (ResourceSummaryKey \<times> TimelineRow) list
     \<Rightarrow> (ResourceSummaryKey \<times> TimelineRow) list res" where
  "gantt_loop P [] result = Ok result"
| "gantt_loop P ((key, val) # summaries) result =
    (let key' = key\<lparr>rk_PartitionId := EmptyPartition\<rparr>
     in bind_res (resSumRowToD3Gantt P key' val) (\<lambda>newRow.
          case takeNewest (Some newRow) (map_of result key') of
            None \<Rightarrow> gantt_loop P summaries result
          | Some row \<Rightarrow> gantt_loop P summaries (AList.update key' row result)))"

definition resSumRowsToD3GanttMap ::
  "pb_lib \<Rightarrow> (ResourceSummaryKey \<times> ResourceSummary) list \<Rightarrow> (ResourceSummaryKey \<times> TimelineRow) list res" where
  "resSumRowsToD3GanttMap P summaries = gantt_loop P summaries []"

section \<open>Overlays\<close>

text \<open>The counts of a row by minute and reason; a nil map has no entries.\<close>

definition entries :: "'a list option \<Rightarrow> 'a list" where
  "entries m = (case m of None \<Rightarrow> [] | Some xs \<Rightarrow> xs)"

definition add_reason ::
  "int \<Rightarrow> string \<times> int \<Rightarrow> (int \<times> (string \<times> int) list) list \<Rightarrow> (int \<times> (string \<times> int) list) list" where
  "add_reason unixMinute = (\<lambda>(reason, cnt) buckets.
    let bucket = (case map_of buckets unixMinute of None \<Rightarrow> [] | Some b \<Rightarrow> b);
        old = (case map_of bucket reason of None \<Rightarrow> 0 | Some n \<Rightarrow> n)
    in AList.update unixMinute (AList.update reason (wrap_int32 (old + cnt)) bucket) buckets)"

definition bucket_counts :: "ResourceEventCounts \<Rightarrow> (int \<times> (string \<times> int) list) list" where
  "bucket_counts val =
    fold (\<lambda>(unixMinute, counts) buckets. fold (add_reason unixMinute) (entries (evc_MapReasonToCount counts)) buckets)
      (entries (rec_MapMinToEvents val)) []"

definition bucket_text :: "(string \<times> int) list \<Rightarrow> string" where
  "bucket_text mapReasonToCount =
    join_with CHR '' '' (map (\<lambda>reason. reason @ '':'' @
      format_int (case map_of mapReasonToCount reason of None \<Rightarrow> 0 | Some n \<Rightarrow> n)) (sort (map fst mapReasonToCount)))"

definition overlay_of :: "int \<times> (string \<times> int) list \<Rightarrow> Overlay" where
  "overlay_of = (\<lambda>(bucketMin, reasons).
    \<lparr>ov_Text = bucket_text reasons, ov_StartDate = bucketMin, ov_Duration = 60,
     ov_EndDate = Unix (time_Add (time_UTC (time_Unix UTC bucketMin 0)) Minute)\<rparr>)"

definition eventCountRowToD3GanttOverlay ::
  "int \<Rightarrow> EventCountKey \<Rightarrow> ResourceEventCounts \<Rightarrow> (ResourceSummaryKey \<times> Overlay list) res" where
  "eventCountRowToD3GanttOverlay pd key val =
    bind_res (GetTimeRangeForPartition pd (ec_PartitionId key)) (\<lambda>(partitionStartTimestamp, _).
      bind_res (NewResourceSummaryKey pd partitionStartTimestamp (ec_Kind key) (ec_Namespace key) (ec_Name key) (ec_Uid key))
        (\<lambda>refResSumKey. Ok (refResSumKey, sort_key ov_StartDate (map overlay_of (bucket_counts val)))))"

fun eventCountsToOverlayMap ::
  "int \<Rightarrow> (EventCountKey \<times> ResourceEventCounts) list \<Rightarrow> (ResourceSummaryKey \<times> Overlay list) list
     \<Rightarrow> (ResourceSummaryKey \<times> Overlay list) list res" where
  "eventCountsToOverlayMap pd [] retMap = Ok retMap"
| "eventCountsToOverlayMap pd ((key, val) # events) retMap =
    bind_res (eventCountRowToD3GanttOverlay pd key val) (\<lambda>(resSumRefKey, overlays).
      let k = resSumRefKey\<lparr>rk_PartitionId := EmptyPartition\<rparr>;
          old = (case map_of retMap k of None \<Rightarrow> [] | Some os \<Rightarrow> os)
      in eventCountsToOverlayMap pd events (AList.update k (old @ overlays) retMap))"

text \<open>The key under which a resource's events are found: a node's carry its name as uid.\<close>

definition overlay_key :: "ResourceSummaryKey \<Rightarrow> ResourceSummaryKey" where
  "overlay_key resKey = (if rk_Kind resKey = NodeKind then resKey\<lparr>rk_Uid := rk_Name resKey\<rparr> else resKey)"

definition mergeHeatmapWithResources ::
  "(ResourceSummaryKey \<times> TimelineRow) list \<Rightarrow> (ResourceSummaryKey \<times> Overlay list) list
     \<Rightarrow> (ResourceSummaryKey \<times> TimelineRow) list" where
  "mergeHeatmapWithResources resKeyToD3Map resKeyToOverlayMap =
    map (\<lambda>(resKey, d3row). (resKey, d3row\<lparr>tr_Overlays :=
      (case map_of resKeyToOverlayMap (overlay_key resKey) of None \<Rightarrow> [] | Some os \<Rightarrow> os)\<rparr>)) resKeyToD3Map"

fun watchActivityToMap ::
  "int \<Rightarrow> (WatchActivityKey \<times> WatchActivity) list \<Rightarrow> (ResourceSummaryKey \<times> WatchActivity) list
     \<Rightarrow> (ResourceSummaryKey \<times> WatchActivity) list res" where
  "watchActivityToMap pd [] retMap = Ok retMap"
| "watchActivityToMap pd ((key, val) # rest) retMap =
    bind_res (GetTimeRangeForPartition pd (wa_PartitionId key)) (\<lambda>(partitionStartTimestamp, _).
      bind_res (NewResourceSummaryKey pd partitionStartTimestamp (wa_Kind key) (wa_Namespace key) (wa_Name key) (wa_Uid key))
        (\<lambda>k. let resSumRefKey = k\<lparr>rk_PartitionId := EmptyPartition\<rparr>;
                combined = (case map_of retMap resSumRefKey of
                  None \<Rightarrow> \<lparr>act_NoChangeAt = [], act_ChangedAt = []\<rparr> | Some existing \<Rightarrow> existing)
            in watchActivityToMap pd rest (AList.update resSumRefKey
                 (combined\<lparr>act_ChangedAt := act_ChangedAt combined @ act_ChangedAt val,
                    act_NoChangeAt := act_NoChangeAt combined @ act_NoChangeAt val\<rparr>) retMap)))"

definition mergeHeatmapWithWatchActivity ::
  "(ResourceSummaryKey \<times> TimelineRow) list \<Rightarrow> (ResourceSummaryKey \<times> WatchActivity) list
     \<Rightarrow> (ResourceSummaryKey \<times> TimelineRow) list" where
  "mergeHeatmapWithWatchActivity resKeyToD3Map watchActivity =
    map (\<lambda>(resKey, d3row). (resKey,
      case map_of watchActivity resKey of
        Some activity \<Rightarrow> d3row\<lparr>tr_ChangedAt := act_ChangedAt activity, tr_NoChangeAt := act_NoChangeAt activity\<rparr>
      | None \<Rightarrow> d3row)) resKeyToD3Map"

text \<open>
  The rows of the slice. The overlays of a row are a Go slice that the row shares with every
  other row that found it under the same key, so each row comes with that key as the identity of
  its array (two nodes of one name share theirs).
\<close>

definition convertHeatmapToSlice ::
  "(ResourceSummaryKey \<times> TimelineRow) list \<Rightarrow> (ResourceSummaryKey \<times> TimelineRow) list" where
  "convertHeatmapToSlice resKeyToD3Map = map (\<lambda>(resKey, d3row). (overlay_key resKey, d3row)) resKeyToD3Map"

text \<open>The two loops of \<open>adjustOverlays\<close>, for one overlay of a row.\<close>

definition adjust_start :: "TimelineRow \<Rightarrow> Overlay \<Rightarrow> Overlay" where
  "adjust_start d3row ol =
    (let tooEarlyMs = tr_StartDate d3row - ov_StartDate ol
     in if tooEarlyMs > 0 \<and> tooEarlyMs < 60 * 1000
        then let ol1 = ol\<lparr>ov_StartDate := ov_StartDate ol + tooEarlyMs, ov_Duration := ov_Duration ol - tooEarlyMs\<rparr>
             in if ov_Duration ol1 \<le> 0 then ol1\<lparr>ov_Duration := 0, ov_StartDate := ov_EndDate ol1\<rparr> else ol1
        else ol)"

definition adjust_end :: "TimelineRow \<Rightarrow> Overlay \<Rightarrow> Overlay" where
  "adjust_end d3row ol =
    (let overMs = ov_EndDate ol - tr_EndDate d3row
     in if overMs > 0 \<and> overMs < 60 * 1000
        then let ol1 = ol\<lparr>ov_EndDate := ov_EndDate ol - overMs, ov_Duration := ov_Duration ol - overMs\<rparr>
             in if ov_Duration ol1 \<le> 0 then ol1\<lparr>ov_Duration := 0, ov_EndDate := ov_StartDate ol1\<rparr> else ol1
        else ol)"

fun adjust_pass ::
  "(TimelineRow \<Rightarrow> Overlay \<Rightarrow> Overlay) \<Rightarrow> ('r \<times> TimelineRow) list \<Rightarrow> ('r \<Rightarrow> Overlay list) \<Rightarrow> 'r \<Rightarrow> Overlay list" where
  "adjust_pass f [] mem = mem"
| "adjust_pass f ((r, d3row) # rows) mem = adjust_pass f rows (mem(r := map (f d3row) (mem r)))"

definition adjustOverlays :: "('r \<times> TimelineRow) list \<Rightarrow> TimelineRow list" where
  "adjustOverlays rows =
    (let mem = (\<lambda>r. case map_of rows r of None \<Rightarrow> [] | Some d3row \<Rightarrow> tr_Overlays d3row);
         mem' = adjust_pass adjust_end rows (adjust_pass adjust_start rows mem)
     in map (\<lambda>(r, d3row). d3row\<lparr>tr_Overlays := mem' r\<rparr>) rows)"

text \<open>What \<open>outputRowValidation\<close> logs about the rows, with the numbers of each line.\<close>

datatype complaint = RowOrder int int | RowTimes int int int int | RowNegative int
  | OverlayOrder int int | OverlayTimes int int int int | OverlayNegative string int
  | OverlayEarly int int int | OverlayLate int int int

definition validate_overlay :: "TimelineRow \<Rightarrow> Overlay \<Rightarrow> complaint list" where
  "validate_overlay d3row ol =
    (if ov_StartDate ol > ov_EndDate ol then [OverlayOrder (ov_StartDate ol) (ov_EndDate ol)] else [])
    @ (if ov_StartDate ol + ov_Duration ol \<noteq> ov_EndDate ol
       then [OverlayTimes (ov_StartDate ol) (ov_Duration ol) (ov_EndDate ol) (ov_StartDate ol + ov_Duration ol - ov_EndDate ol)] else [])
    @ (if ov_Duration ol < 0 then [OverlayNegative (ov_Text ol) (ov_Duration ol)] else [])
    @ (if ov_StartDate ol < tr_StartDate d3row
       then [OverlayEarly (ov_StartDate ol) (tr_StartDate d3row) (tr_StartDate d3row - ov_StartDate ol)] else [])
    @ (if ov_EndDate ol > tr_EndDate d3row
       then [OverlayLate (ov_StartDate ol + ov_Duration ol) (tr_StartDate d3row + tr_Duration d3row)
               (ov_StartDate ol + ov_Duration ol - (tr_StartDate d3row + tr_Duration d3row))] else [])"

definition validate_row :: "TimelineRow \<Rightarrow> complaint list" where
  "validate_row d3row =
    (if tr_StartDate d3row > tr_EndDate d3row then [RowOrder (tr_StartDate d3row) (tr_EndDate d3row)] else [])
    @ (if tr_StartDate d3row + tr_Duration d3row \<noteq> tr_EndDate d3row
       then [RowTimes (tr_StartDate d3row) (tr_Duration d3row) (tr_EndDate d3row) (tr_StartDate d3row + tr_Duration d3row - tr_EndDate d3row)] else [])
    @ (if tr_Duration d3row < 0 then [RowNegative (tr_Duration d3row)] else [])
    @ concat (map (validate_overlay d3row) (tr_Overlays d3row))"

definition outputRowValidation :: "TimelineRow list \<Rightarrow> complaint list" where
  "outputRowValidation rows = concat (map validate_row rows)"

section \<open>The query\<close>

definition SortParam :: string where [go_defs]: "SortParam = ''sort''"

text \<open>What the query makes of the rows it read.\<close>

definition heatmap_rows ::
  "pb_lib \<Rightarrow> int \<Rightarrow> gotime \<Rightarrow> gotime \<Rightarrow> rawData \<Rightarrow> TimelineRow list res" where
  "heatmap_rows P pd queryStartTime queryEndTime rawRows =
    (let (r1, resources) = timeFilterResSumMap P (raw_Resources rawRows) queryStartTime queryEndTime;
         (r2, events) = timeFilterEventsMap (raw_Events rawRows) queryStartTime queryEndTime;
         watchActivity = timeFilterWatchActivityMap (raw_WatchActivity rawRows) queryStartTime queryEndTime
     in bind_res r1 (\<lambda>_. bind_res r2 (\<lambda>_.
          bind_res (adjustLastSeenTimeMap P resources queryEndTime (30 * Minute)) (\<lambda>resources'.
            bind_res (resSumRowsToD3GanttMap P resources') (\<lambda>d3.
              bind_res (eventCountsToOverlayMap pd events []) (\<lambda>overlays.
                bind_res (watchActivityToMap pd watchActivity []) (\<lambda>activity.
                  Ok (adjustOverlays (convertHeatmapToSlice
                    (mergeHeatmapWithWatchActivity (mergeHeatmapWithResources d3 overlays) activity))))))))))"

definition EventHeatMap3Query ::
  "('db, 'txn, 'it) badger \<Rightarrow> pb_lib \<Rightarrow> (TimelineRoot \<Rightarrow> string res) \<Rightarrow> int \<Rightarrow> url_values \<Rightarrow> 'db \<Rightarrow> gotime \<Rightarrow> gotime
     \<Rightarrow> string res option" where
  "EventHeatMap3Query B P json pd params db queryStartTime queryEndTime =
    bind_ores (getRawDataFromStore B P pd params db queryStartTime queryEndTime) (\<lambda>rawRows.
      Some (bind_res (heatmap_rows P pd queryStartTime queryEndTime rawRows) (\<lambda>outputRows.
        map_err (\<lambda>e. Wrapped e ''Failed to marshal json'')
          (json \<lparr>root_Sort = params_Get params SortParam, root_Rows = outputRows\<rparr>))))"

section \<open>Lemmas\<close>

definition overlay_ok :: "Overlay \<Rightarrow> bool" where
  "overlay_ok ol \<longleftrightarrow> ov_StartDate ol + ov_Duration ol = ov_EndDate ol \<and> 0 \<le> ov_Duration ol"

lemma adjust_start_ok: "overlay_ok ol \<Longrightarrow> overlay_ok (adjust_start row ol)"
  by (auto simp: overlay_ok_def adjust_start_def Let_def)

lemma adjust_end_ok: "overlay_ok ol \<Longrightarrow> overlay_ok (adjust_end row ol)"
  by (auto simp: overlay_ok_def adjust_end_def Let_def)

text \<open>An overlay that touches the row ends up inside it.\<close>

lemma adjust_inside:
  assumes "overlay_ok ol" "ov_Duration ol < 60000" "tr_StartDate row \<le> tr_EndDate row"
    and "ov_StartDate ol \<le> tr_EndDate row" "tr_StartDate row \<le> ov_EndDate ol"
  shows "tr_StartDate row \<le> ov_StartDate (adjust_end row (adjust_start row ol))"
    "ov_EndDate (adjust_end row (adjust_start row ol)) \<le> tr_EndDate row"
  using assms by (auto simp: overlay_ok_def adjust_start_def adjust_end_def Let_def)

lemma overlay_of_ok: "overlay_ok (overlay_of b)" "ov_Duration (overlay_of b) = 60" "ov_StartDate (overlay_of b) = fst b"
  by (auto simp: overlay_ok_def overlay_of_def Unix_def time_Add_def time_UTC_def time_Unix_def Minute_def split: prod.splits)

lemma takeNewest_Some: "\<exists>row'. takeNewest (Some row) r = Some row'"
  by (cases r) auto

lemma gantt_loop_Cons:
  assumes "gantt_loop P ((key, val) # s) result = Ok out"
  obtains row row' where "resSumRowToD3Gantt P (key\<lparr>rk_PartitionId := []\<rparr>) val = Ok row"
    "takeNewest (Some row) (map_of result (key\<lparr>rk_PartitionId := []\<rparr>)) = Some row'"
    "gantt_loop P s (AList.update (key\<lparr>rk_PartitionId := []\<rparr>) row' result) = Ok out"
proof -
  obtain row where row: "resSumRowToD3Gantt P (key\<lparr>rk_PartitionId := []\<rparr>) val = Ok row"
    using assms by (auto simp: Let_def bind_res_Ok_iff EmptyPartition_def)
  moreover obtain row' where row': "takeNewest (Some row) (map_of result (key\<lparr>rk_PartitionId := []\<rparr>)) = Some row'"
    using takeNewest_Some by blast
  moreover have "gantt_loop P s (AList.update (key\<lparr>rk_PartitionId := []\<rparr>) row' result) = Ok out"
    using assms row row' by (simp add: Let_def EmptyPartition_def)
  ultimately show thesis by (rule that)
qed

lemma gantt_loop_distinct:
  "gantt_loop P s result = Ok out \<Longrightarrow> distinct (map fst result) \<Longrightarrow> distinct (map fst out)"
proof (induction s arbitrary: result)
  case (Cons a s)
  obtain key val where a: "a = (key, val)" by (cases a)
  show ?case
    by (rule gantt_loop_Cons[OF Cons.prems(1)[unfolded a]]) (rule Cons.IH, assumption, simp add: distinct_update Cons.prems(2))
qed simp

lemma gantt_loop_converts:
  "gantt_loop P s result = Ok out \<Longrightarrow> kv \<in> set s
     \<Longrightarrow> \<exists>row. resSumRowToD3Gantt P ((fst kv)\<lparr>rk_PartitionId := []\<rparr>) (snd kv) = Ok row"
proof (induction s arbitrary: result)
  case (Cons a s)
  obtain key val where a: "a = (key, val)" by (cases a)
  show ?case
    by (rule gantt_loop_Cons[OF Cons.prems(1)[unfolded a]]) (use Cons.IH Cons.prems(2) a in auto)
qed simp

text \<open>The rows of the summaries of one resource.\<close>

definition rows_of ::
  "pb_lib \<Rightarrow> (ResourceSummaryKey \<times> ResourceSummary) list \<Rightarrow> ResourceSummaryKey \<Rightarrow> TimelineRow set" where
  "rows_of P summaries k = {row. \<exists>kv \<in> set summaries. (fst kv)\<lparr>rk_PartitionId := []\<rparr> = k \<and> resSumRowToD3Gantt P k (snd kv) = Ok row}"

definition newest_of :: "TimelineRow option \<Rightarrow> TimelineRow set \<Rightarrow> bool" where
  "newest_of r A \<longleftrightarrow> (case r of None \<Rightarrow> A = {}
     | Some row \<Rightarrow> row \<in> A \<and> (\<forall>row' \<in> A. tr_EndDate row' \<le> tr_EndDate row))"

lemma newest_of_takeNewest:
  assumes "newest_of r A" "takeNewest (Some row) r = Some row'"
  shows "newest_of (Some row') (insert row A)"
  using assms by (cases r) (force simp: newest_of_def split: if_splits)+

lemma gantt_loop_newest:
  assumes "gantt_loop P s result = Ok out" "\<forall>k. newest_of (map_of result k) (A k)"
  shows "newest_of (map_of out k) (A k \<union> rows_of P s k)"
  using assms
proof (induction s arbitrary: result A)
  case Nil
  then show ?case by (simp add: rows_of_def)
next
  case (Cons a s)
  obtain key val where a: "a = (key, val)" by (cases a)
  let ?k = "key\<lparr>rk_PartitionId := []\<rparr>"
  obtain row row' where row: "resSumRowToD3Gantt P ?k val = Ok row"
    and row': "takeNewest (Some row) (map_of result ?k) = Some row'"
    and lp: "gantt_loop P s (AList.update ?k row' result) = Ok out"
    by (rule gantt_loop_Cons[OF Cons.prems(1)[unfolded a]])
  let ?A = "A(?k := insert row (A ?k))"
  have "\<forall>k. newest_of (map_of (AList.update ?k row' result) k) (?A k)"
    using newest_of_takeNewest[OF Cons.prems(2)[rule_format, of ?k] row'] Cons.prems(2)
    by (simp add: map_of_AList_update)
  then have IH: "newest_of (map_of out k) (?A k \<union> rows_of P s k)" by (rule Cons.IH[OF lp])
  have "?A k \<union> rows_of P s k = A k \<union> rows_of P (a # s) k"
  proof (cases "k = ?k")
    case True
    then have "rows_of P (a # s) k = insert row (rows_of P s k)" using row a by (auto simp: rows_of_def)
    then show ?thesis using True by simp
  next
    case False
    then have "rows_of P (a # s) k = rows_of P s k" using a by (auto simp: rows_of_def)
    then show ?thesis using False by simp
  qed
  then show ?case using IH by simp
qed

text \<open>When no two rows share their overlays, a pass changes each row's own.\<close>

lemma adjust_pass_distinct:
  "distinct (map fst rows) \<Longrightarrow> adjust_pass f rows mem r =
     (case map_of rows r of None \<Rightarrow> mem r | Some row \<Rightarrow> map (f row) (mem r))"
  by (induction f rows mem rule: adjust_pass.induct) (auto split: option.splits dest: map_of_SomeD simp: rev_image_eqI)

lemma adjustOverlays_distinct:
  assumes "distinct (map fst rows)"
  shows "adjustOverlays rows = map (\<lambda>(r, row). row\<lparr>tr_Overlays := map (\<lambda>ol. adjust_end row (adjust_start row ol)) (tr_Overlays row)\<rparr>) rows"
  using assms by (auto simp: adjustOverlays_def Let_def adjust_pass_distinct comp_def)

section \<open>Properties\<close>

text \<open>
  C33: one row per resource, from its newest summary. Whatever the order in which the summaries
  of several partitions are visited, \<open>resSumRowsToD3GanttMap\<close> makes exactly one row for every
  resource that has a summary (its key without the partition), and of the rows that its
  summaries give it is one with the latest end.
\<close>

theorem gantt_rows_newest:
  assumes "resSumRowsToD3GanttMap P summaries = Ok rows"
  shows "distinct (map fst rows) \<and> (\<forall>k.
    (case map_of rows k of
       None \<Rightarrow> \<forall>kv \<in> set summaries. (fst kv)\<lparr>rk_PartitionId := []\<rparr> \<noteq> k
     | Some row \<Rightarrow> \<exists>kv \<in> set summaries. (fst kv)\<lparr>rk_PartitionId := []\<rparr> = k \<and> resSumRowToD3Gantt P k (snd kv) = Ok row)
    \<and> (\<forall>kv \<in> set summaries. \<forall>row row'. (fst kv)\<lparr>rk_PartitionId := []\<rparr> = k \<longrightarrow> map_of rows k = Some row
         \<longrightarrow> resSumRowToD3Gantt P k (snd kv) = Ok row' \<longrightarrow> tr_EndDate row' \<le> tr_EndDate row))"
proof -
  have lp: "gantt_loop P summaries [] = Ok rows" using assms by (simp add: resSumRowsToD3GanttMap_def)
  note conv = gantt_loop_converts[OF lp]
  have new: "newest_of (map_of rows k) (rows_of P summaries k)" for k
    using gantt_loop_newest[OF lp, of "\<lambda>_. {}"] by (simp add: newest_of_def)
  show ?thesis
  proof (intro conjI allI)
    show "distinct (map fst rows)" using gantt_loop_distinct[OF lp] by simp
    fix k
    show "case map_of rows k of
       None \<Rightarrow> \<forall>kv \<in> set summaries. (fst kv)\<lparr>rk_PartitionId := []\<rparr> \<noteq> k
     | Some row \<Rightarrow> \<exists>kv \<in> set summaries. (fst kv)\<lparr>rk_PartitionId := []\<rparr> = k \<and> resSumRowToD3Gantt P k (snd kv) = Ok row"
      using new[of k] conv by (auto simp: newest_of_def rows_of_def split: option.splits)
    show "\<forall>kv \<in> set summaries. \<forall>row row'. (fst kv)\<lparr>rk_PartitionId := []\<rparr> = k \<longrightarrow> map_of rows k = Some row
         \<longrightarrow> resSumRowToD3Gantt P k (snd kv) = Ok row' \<longrightarrow> tr_EndDate row' \<le> tr_EndDate row"
      using new[of k] unfolding newest_of_def rows_of_def mem_Collect_eq Ball_def by fastforce
  qed
qed

theorem gantt_rows_newest_witness:
  "let k = \<lambda>p. \<lparr>rk_PartitionId = p, rk_Kind = ''Pod'', rk_Namespace = ''ns'', rk_Name = ''n'', rk_Uid = ''u''\<rparr>;
       s = \<lambda>l. \<lparr>rsum_FirstSeen = None, rsum_LastSeen = Some \<lparr>pb_seconds = l, pb_nanos = 0\<rparr>,
             rsum_CreateTime = Some \<lparr>pb_seconds = 10, pb_nanos = 0\<rparr>, rsum_DeletedAtEnd = False, rsum_Relationships = []\<rparr>
   in \<exists>rows row. resSumRowsToD3GanttMap sample_pb [(k ''a'', s 90), (k ''b'', s 50)] = Ok rows
        \<and> map fst rows = [k []] \<and> map_of rows (k []) = Some row \<and> 90 \<le> tr_EndDate row"
proof -
  let ?k = "\<lambda>p. \<lparr>rk_PartitionId = p, rk_Kind = ''Pod'', rk_Namespace = ''ns'', rk_Name = ''n'', rk_Uid = ''u''\<rparr>"
  let ?s = "\<lambda>l. \<lparr>rsum_FirstSeen = None, rsum_LastSeen = Some \<lparr>pb_seconds = l, pb_nanos = 0\<rparr>,
             rsum_CreateTime = Some \<lparr>pb_seconds = 10, pb_nanos = 0\<rparr>, rsum_DeletedAtEnd = False, rsum_Relationships = []\<rparr>"
  let ?r = "\<lambda>l. \<lparr>tr_Text = ''n'', tr_Duration = l - 10, tr_Kind = ''Pod'', tr_Namespace = ''ns'', tr_Overlays = [],
      tr_ChangedAt = [], tr_NoChangeAt = [], tr_StartDate = 10, tr_EndDate = l\<rparr>"
  have row: "resSumRowToD3Gantt sample_pb (?k []) (?s l) = Ok (?r l)" for l
    by (simp add: resSumRowToD3Gantt_def sample_pb_def Unix_def)
  obtain rows where rows: "resSumRowsToD3GanttMap sample_pb [(?k ''a'', ?s 90), (?k ''b'', ?s 50)] = Ok rows"
    and keys: "map fst rows = [?k []]"
    using row by (simp add: resSumRowsToD3GanttMap_def EmptyPartition_def)
  obtain row' where m: "map_of rows (?k []) = Some row'" using keys by (cases rows) auto
  have "90 \<le> tr_EndDate row'"
    using gantt_rows_newest[OF rows, THEN conjunct2, rule_format, of "?k []", THEN conjunct2] m row[of 90] by simp
  then show ?thesis using rows keys m by (auto simp: Let_def)
qed



text \<open>
  Nodes of one name spoil each other's overlays. The events of a node are found under its
  name, so a node that was deleted and created again within the query gives two rows that share
  one slice of overlays, and \<open>adjustOverlays\<close> fits it to both in turn: a minute of events that
  lies inside the row of the second node (6060 to 6120, of 6000 to 9000) loses its duration,
  because it lies after the end of the first.
\<close>

lemma same_named_nodes_share_overlays:
  "let k = \<lambda>u. \<lparr>rk_PartitionId = [], rk_Kind = NodeKind, rk_Namespace = [], rk_Name = ''n'', rk_Uid = u\<rparr>;
       row = \<lambda>s e. \<lparr>tr_Text = ''n'', tr_Duration = e - s, tr_Kind = NodeKind, tr_Namespace = [], tr_Overlays = [],
             tr_ChangedAt = [], tr_NoChangeAt = [], tr_StartDate = s, tr_EndDate = e\<rparr>;
       out = adjustOverlays (convertHeatmapToSlice (mergeHeatmapWithResources
          [(k ''old'', row 0 5000), (k ''new'', row 6000 9000)] [(k ''n'', [overlay_of (6060, [(''NodeReady'', 1)])])]))
   in map (\<lambda>r. (tr_StartDate r, tr_EndDate r, map (\<lambda>o1. (ov_StartDate o1, ov_EndDate o1)) (tr_Overlays r))) out
        = [(0, 5000, [(6060, 6060)]), (6000, 9000, [(6060, 6060)])]"
  by (simp add: Let_def mergeHeatmapWithResources_def convertHeatmapToSlice_def overlay_key_def adjustOverlays_def
      adjust_start_def adjust_end_def overlay_of_def Unix_def time_Add_def time_UTC_def time_Unix_def Minute_def)

end
