(* ===== verification/Queries.thy ===== *)
theory Queries
  imports HeatMap
begin

text \<open>
  The remaining queries of \<open>pkg/sloop/queries\<close>: the lists of namespaces and kinds
  (\<open>queryfilter.go\<close>), the newest summary of a resource (\<open>ressumquery.go\<close>) and the dispatch from
  the name of a query to its function (\<open>query.go\<close>). The JSON encoders are the fields of the
  record \<open>json_lib\<close>; a Go map is an association list in the order in which it is visited.
\<close>

section \<open>Namespaces and kinds\<close>

definition resSumRowsToNamespaceStrings :: "(ResourceSummaryKey \<times> ResourceSummary) list \<Rightarrow> string list" where
  "resSumRowsToNamespaceStrings resources =
    (let (namespaceList, namespaceExists) =
       fold (\<lambda>(key, _) (lst, seen). if rk_Name key \<notin> seen then (lst @ [rk_Name key], insert (rk_Name key) seen) else (lst, seen))
         resources ([], {})
     in sort namespaceList)"

definition isNamespace :: "string \<Rightarrow> bool" where
  "isNamespace k = (case ResourceSummaryKey_Parse k of
     Ok key \<Rightarrow> rk_Kind key = NamespaceKind
   | _ \<Rightarrow> False)"

definition resSumRowsToKindStrings :: "(ResourceSummaryKey \<times> ResourceSummary) list \<Rightarrow> string list" where
  "resSumRowsToKindStrings resources =
    (let (kindList, kindExists) =
       fold (\<lambda>(key, _) (lst, seen). if rk_Kind key \<notin> seen then (lst @ [rk_Kind key], insert (rk_Kind key) seen) else (lst, seen))
         resources ([[]], {})
     in sort kindList)"

text \<open>The map of the kinds seen is the list of its keys; the predicate updates it in place.\<close>

definition keepResourceSummaryKind :: "string \<Rightarrow> string list \<Rightarrow> bool \<times> string list" where
  "keepResourceSummaryKind key kindExists =
    (case ResourceSummaryKey_Parse key of
       Ok k \<Rightarrow> if rk_Kind k \<notin> set kindExists then (True, kindExists @ [rk_Kind k]) else (False, kindExists)
     | _ \<Rightarrow> (False, kindExists))"

definition isKind :: "string list keypred" where
  "isKind = Some keepResourceSummaryKind"

definition NamespaceQuery ::
  "('db, 'txn, 'it) badger \<Rightarrow> pb_lib \<Rightarrow> (string list \<Rightarrow> string res) \<Rightarrow> int \<Rightarrow> 'db \<Rightarrow> gotime \<Rightarrow> gotime \<Rightarrow> string res option" where
  "NamespaceQuery B P json pd db startTime endTime =
    bind_ores (db_View B db (\<lambda>txn. map_option rows_or_error
        (ResourceSummaryTable_RangeRead B P pd txn None (stateless isNamespace) () None startTime endTime)))
      (\<lambda>resourcesNs. Some (map_err (\<lambda>e. Wrapped e ''Failed to marshal json'')
        (json (resSumRowsToNamespaceStrings resourcesNs @ [AllNamespaces]))))"

text \<open>The kinds that a range read has seen, or its error.\<close>

definition state_or_error :: "('k, 'v, 'p) rr_result \<Rightarrow> 'p res" where
  "state_or_error r = (case r of
       Err e \<Rightarrow> Err e | Panic m \<Rightarrow> Panic m | Ok (rows, Some e) \<Rightarrow> Err e | Ok ((rows, stats, p), None) \<Rightarrow> Ok p)"

definition KindQuery ::
  "('db, 'txn, 'it) badger \<Rightarrow> pb_lib \<Rightarrow> (string list \<Rightarrow> string res) \<Rightarrow> int \<Rightarrow> 'db \<Rightarrow> gotime \<Rightarrow> gotime \<Rightarrow> string res option" where
  "KindQuery B P json pd db startTime endTime =
    bind_ores (db_View B db (\<lambda>txn. map_option state_or_error
        (ResourceSummaryTable_RangeRead B P pd txn None isKind [] None startTime endTime)))
      (\<lambda>kindExists. Some (map_err (\<lambda>e. Wrapped e ''Failed to marshal json'')
        (json (sort (AllKinds # kindExists)))))"

section \<open>The summary of a resource\<close>

text \<open>The embedded key and summary; the zero value has empty strings, nil pointers and no relationships.\<close>

record ResSummaryOutput =
  rso_Key :: ResourceSummaryKey
  rso_Summary :: ResourceSummary

definition empty_output :: ResSummaryOutput where
  "empty_output = \<lparr>
     rso_Key = \<lparr>rk_PartitionId = [], rk_Kind = [], rk_Namespace = [], rk_Name = [], rk_Uid = []\<rparr>,
     rso_Summary = \<lparr>rsum_FirstSeen = None, rsum_LastSeen = None, rsum_CreateTime = None,
       rsum_DeletedAtEnd = False, rsum_Relationships = []\<rparr>\<rparr>"

definition IsEmpty :: "ResSummaryOutput \<Rightarrow> bool" where
  "IsEmpty r \<longleftrightarrow> empty_output = r"

definition GetResSummaryData ::
  "('db, 'txn, 'it) badger \<Rightarrow> pb_lib \<Rightarrow> (ResSummaryOutput \<Rightarrow> string res) \<Rightarrow> int \<Rightarrow> url_values \<Rightarrow> 'db \<Rightarrow> gotime \<Rightarrow> gotime
     \<Rightarrow> string res option" where
  "GetResSummaryData B P json pd params db startTime endTime =
    bind_ores (db_View B db (\<lambda>txn. map_option rows_or_error
        (ResourceSummaryTable_RangeRead B P pd txn None (stateless (paramFilterResSumFn params)) ()
          (Some (isResSummaryValInTimeRange P startTime endTime)) startTime endTime)))
      (\<lambda>resSummaries.
        let output = (case resSummaries of
              [] \<Rightarrow> empty_output
            | (key, val) # _ \<Rightarrow> \<lparr>rso_Key = key, rso_Summary = val\<rparr>)
        in if IsEmpty output then Some (Ok [])
           else Some (map_err (\<lambda>e. Wrapped e ''failed to marshal json'') (json output)))"

section \<open>Dispatch\<close>

record json_lib =
  json_strings :: "string list \<Rightarrow> string res"
  json_timeline :: "TimelineRoot \<Rightarrow> string res"
  json_payloads :: "PayloadOuput list \<Rightarrow> string res"
  json_events :: "EventOutput list \<Rightarrow> string res"
  json_summary :: "ResSummaryOutput \<Rightarrow> string res"

definition Default :: string where "Default = ''EventHeatMap''"

definition GetNamesOfQueries :: "string list" where "GetNamesOfQueries = [''EventHeatMap'']"

definition QueryAvailableQueries :: "(string list \<Rightarrow> string res) \<Rightarrow> string res option" where
  "QueryAvailableQueries json =
    Some (map_err (\<lambda>e. Wrapped e ''Failed to marshal json'') (json GetNamesOfQueries))"

definition funcMap ::
  "('db, 'txn, 'it) badger \<Rightarrow> pb_lib \<Rightarrow> 'j ext_lib \<Rightarrow> json_lib \<Rightarrow> int
     \<Rightarrow> (string \<times> (url_values \<Rightarrow> 'db \<Rightarrow> gotime \<Rightarrow> gotime \<Rightarrow> string res option)) list" where
  "funcMap B P X J pd =
    [(''EventHeatMap'', EventHeatMap3Query B P (json_timeline J) pd),
     (''GetEventData'', GetEventData B P X (json_events J) pd),
     (''GetResPayload'', GetResPayload B P (json_payloads J) pd),
     (''Namespaces'', (\<lambda>params. NamespaceQuery B P (json_strings J) pd)),
     (''Kinds'', (\<lambda>params. KindQuery B P (json_strings J) pd)),
     (''Queries'', (\<lambda>params db startTime endTime. QueryAvailableQueries (json_strings J))),
     (''GetResSummaryData'', GetResSummaryData B P (json_summary J) pd)]"

definition RunQuery ::
  "('db, 'txn, 'it) badger \<Rightarrow> pb_lib \<Rightarrow> 'j ext_lib \<Rightarrow> json_lib \<Rightarrow> (string \<Rightarrow> int res) \<Rightarrow> (string \<Rightarrow> gotime res) \<Rightarrow> int
     \<Rightarrow> gotime \<Rightarrow> string \<Rightarrow> url_values \<Rightarrow> 'db \<Rightarrow> int \<Rightarrow> string res option" where
  "RunQuery B P X J parseDuration parseLayout pd now queryName params db maxLookBack =
    bind_ores (Some (computeTimeRange B parseDuration parseLayout pd now params db maxLookBack))
      (\<lambda>(startTime, endTime).
        case map_of (funcMap B P X J pd) queryName of
          None \<Rightarrow> Some (Err (Errorf (''Query not found: '' @ queryName)))
        | Some fn \<Rightarrow> fn params db startTime endTime)"

section \<open>Lemmas\<close>

text \<open>A range read whose key predicate keeps a state: the state has seen every row of the range.\<close>

context badger_store
begin

lemma range_row_state:
  assumes "table_key K wfk" "row_ok K C wfk (s, b)"
  shows "\<exists>res' stats'. range_row B K C (Some f) vp \<lparr>item_key = s, item_value = b\<rparr> (res, stats, ps)
    = Continue (res', stats', snd (f s ps))"
proof -
  obtain k where k: "k_Parse K s = Ok k" using assms table_key.parse_string by (fastforce simp: row_ok_def)
  obtain v where v: "c_Unmarshal C b = Ok v" using assms(2) by (auto simp: row_ok_def)
  show ?thesis
    unfolding range_row_def Let_def prod.case store_item.simps option.case
    by (cases "f s ps") (auto simp: k v valuecopy)
qed

lemma range_rows_state:
  assumes "table_key K wfk" "\<forall>kv \<in> set xs. row_ok K C wfk kv"
  shows "\<exists>res' stats'. list_loop (\<lambda>kv. range_row B K C (Some f) vp \<lparr>item_key = fst kv, item_value = snd kv\<rparr>) xs (res, stats, ps)
    = Inl (res', stats', fold (\<lambda>kv ps. snd (f (fst kv) ps)) xs ps)"
  using assms(2)
proof (induction xs arbitrary: res stats ps)
  case (Cons kv xs)
  obtain s b where kv: "kv = (s, b)" by (cases kv)
  obtain res1 stats1 where "range_row B K C (Some f) vp \<lparr>item_key = s, item_value = b\<rparr> (res, stats, ps)
    = Continue (res1, stats1, snd (f s ps))"
    using range_row_state[OF assms(1), of C s b] Cons.prems kv by fastforce
  then show ?case using Cons.IH[of res1 stats1 "snd (f s ps)"] Cons.prems by (simp add: kv)
qed simp

lemma range_partitions_state:
  assumes "tok t" "table_key K wfk"
    and "\<forall>p \<in> set parts. \<forall>kv \<in> set (rows_at (tview t) (seek_string K None p)). row_ok K C wfk kv"
  shows "\<exists>res' stats'. range_partitions B K C t None (Some f) vp parts (res, stats, ps)
    = Some (Inl (res', stats',
        fold (\<lambda>kv ps. snd (f (fst kv) ps)) (concat (map (\<lambda>p. rows_at (tview t) (seek_string K None p)) parts)) ps))"
  using assms(3)
proof (induction parts arbitrary: res stats ps)
  case (Cons p parts)
  let ?o = "DefaultIteratorOptions\<lparr>opt_Prefix := seek_string K None p\<rparr>"
  have o: "plain_opts ?o" "\<not> opt_Reverse ?o" "opt_Prefix ?o = seek_string K None p"
    by (simp_all add: plain_opts_def DefaultIteratorOptions_def)
  have rows: "\<forall>kv \<in> set (rows_at (tview t) (seek_string K None p)). row_ok K C wfk kv" using Cons.prems by simp
  obtain res1 stats1 where "list_loop (\<lambda>kv. range_row B K C (Some f) vp \<lparr>item_key = fst kv, item_value = snd kv\<rparr>)
      (rows_at (tview t) (seek_string K None p)) (res, stats, ps)
    = Inl (res1, stats1, fold (\<lambda>kv ps. snd (f (fst kv) ps)) (rows_at (tview t) (seek_string K None p)) ps)"
    using range_rows_state[OF assms(2) rows, of f vp res stats ps] by (elim exE) (rule that)
  then show ?case
    using Cons.IH Cons.prems by (simp add: Let_def scan_prefix[OF assms(1) o] rows_at_def[symmetric])
qed simp

end

text \<open>The keys of the resource summaries in some partitions of a store.\<close>

definition stored_resources :: "(string \<rightharpoonup> string) \<Rightarrow> string list \<Rightarrow> ResourceSummaryKey set" where
  "stored_resources m ids = {k. ressum_key_wf k \<and> rk_PartitionId k \<in> set ids \<and> ResourceSummaryKey_String k \<in> dom m}"

lemma sep_unique:
  "c \<notin> set a \<Longrightarrow> c \<notin> set b \<Longrightarrow> a @ c # x = b @ c # y \<longleftrightarrow> a = b \<and> x = y"
proof (induction a arbitrary: b)
  case Nil
  then show ?case by (cases b) auto
next
  case (Cons d a)
  then show ?case by (cases b) auto
qed

lemma ressum_seek_iff:
  assumes "ressum_key_wf k" "CHR ''/'' \<notin> set p"
  shows "prefix (seek_string ressum_key_ops None p) (ResourceSummaryKey_String k) \<longleftrightarrow> rk_PartitionId k = p"
  using assms by (auto simp: seek_string_def OpenTable_def key_ops_defs ResourceSummaryKey_String_def table_names
      slashed_simps key_wf_defs prefix_def sep_unique)

lemma namespace_strings:
  "sorted (resSumRowsToNamespaceStrings rows) \<and> distinct (resSumRowsToNamespaceStrings rows)
    \<and> set (resSumRowsToNamespaceStrings rows) = (rk_Name \<circ> fst) ` set rows"
proof -
  let ?step = "\<lambda>(key :: ResourceSummaryKey, _ :: ResourceSummary) (lst, seen).
    if rk_Name key \<notin> seen then (lst @ [rk_Name key], insert (rk_Name key) seen) else (lst, seen)"
  have "\<exists>out. fold ?step rows (lst, set lst) = (out, set out) \<and> distinct out
      \<and> set out = set lst \<union> (rk_Name \<circ> fst) ` set rows" if "distinct lst" for lst
    using that
  proof (induction rows arbitrary: lst)
    case (Cons r rows)
    obtain k v where r: "r = (k, v)" by (cases r)
    show ?case
    proof (cases "rk_Name k \<in> set lst")
      case True
      then show ?thesis using Cons.IH[OF Cons.prems] r by auto
    next
      case False
      then show ?thesis using Cons.IH[of "lst @ [rk_Name k]"] Cons.prems r by auto
    qed
  qed simp
  from this[of "[]"] obtain out where "fold ?step rows ([], {}) = (out, set out)" "distinct out"
    "set out = (rk_Name \<circ> fst) ` set rows" by auto
  then show ?thesis by (simp add: resSumRowsToNamespaceStrings_def)
qed

lemma kinds_seen:
  assumes "distinct ks" "\<forall>kv \<in> set xs. \<exists>k. ressum_key_wf k \<and> fst kv = ResourceSummaryKey_String k"
  shows "distinct (fold (\<lambda>kv ks. snd (keepResourceSummaryKind (fst kv) ks)) xs ks)
    \<and> set (fold (\<lambda>kv ks. snd (keepResourceSummaryKind (fst kv) ks)) xs ks)
        = set ks \<union> {rk_Kind k |k. ressum_key_wf k \<and> ResourceSummaryKey_String k \<in> fst ` set xs}"
  using assms
proof (induction xs arbitrary: ks)
  case (Cons kv xs)
  obtain k where k: "ressum_key_wf k" "fst kv = ResourceSummaryKey_String k" using Cons.prems(2) by auto
  have parse: "ResourceSummaryKey_Parse (ResourceSummaryKey_String l) = Ok l" if "ressum_key_wf l" for l
    using rsk.parse_string[OF that] by (simp add: ressum_key_ops_def)
  have same: "ResourceSummaryKey_String l = fst kv \<longleftrightarrow> l = k" if "ressum_key_wf l" for l
    using parse[OF that] parse[OF k(1)] k(2) by (metis res.inject(1))
  let ?ks = "snd (keepResourceSummaryKind (fst kv) ks)"
  have step: "distinct ?ks" "set ?ks = insert (rk_Kind k) (set ks)"
    using Cons.prems(1) parse[OF k(1)] k(2) by (auto simp: keepResourceSummaryKind_def)
  have "{rk_Kind l |l. ressum_key_wf l \<and> ResourceSummaryKey_String l \<in> fst ` set (kv # xs)}
      = insert (rk_Kind k) {rk_Kind l |l. ressum_key_wf l \<and> ResourceSummaryKey_String l \<in> fst ` set xs}"
    using same k by auto
  then show ?case using Cons.IH[OF step(1)] Cons.prems(2) step(2) by simp
qed simp

section \<open>Properties\<close>

text \<open>What a store of resource summaries must hold: storable keys and values that decode.\<close>

definition summaries_ok :: "pb_lib \<Rightarrow> (string \<rightharpoonup> string) \<Rightarrow> bool" where
  "summaries_ok P m \<longleftrightarrow> (\<forall>key b. m key = Some b \<and> prefix ''/ressum/'' key
     \<longrightarrow> row_ok ressum_key_ops (ressum_codec P) ressum_key_wf (key, b))"

lemma summaries_row_ok:
  assumes "summaries_ok P m" "m key = Some b" "prefix (seek_string ressum_key_ops None p) key"
  shows "row_ok ressum_key_ops (ressum_codec P) ressum_key_wf (key, b)"
proof -
  have "prefix ''/ressum/'' key"
    using assms(3) by (auto simp: seek_string_def OpenTable_def key_ops_defs table_names prefix_def)
  then show ?thesis using assms(1,2) by (auto simp: summaries_ok_def)
qed

lemma stored_resource_iff:
  assumes "\<forall>p \<in> set ids. CHR ''/'' \<notin> set p" "ressum_key_wf k"
  shows "(\<exists>p \<in> set ids. prefix (seek_string ressum_key_ops None p) (ResourceSummaryKey_String k)
      \<and> ResourceSummaryKey_String k \<in> dom m) \<longleftrightarrow> k \<in> stored_resources m ids"
  using assms ressum_seek_iff by (auto simp: stored_resources_def)

lemma partition_ids_no_slash:
  assumes "p \<in> set (map pid (part_starts pd a b))"
  shows "CHR ''/'' \<notin> set p"
  using assms format_012d_digits digit_not_sign by (fastforce simp: pid_def)

text \<open>The rows that a read of the summaries keeps by their keys.\<close>

lemma summaries_read:
  assumes "badger_store B dview dok tview tok writable ahead iopts" "dok db" "summaries_ok P (dview db)"
    and "valid_pd pd" "tloc s = UTC" "tloc e = UTC"
    and "0 \<le> Unix s" "Unix s < 10 ^ 12" "0 \<le> Unix e" "Unix e + pd_secs pd < 10 ^ 12"
  obtains ids rows stats where "GetPartitionsFromTimeRange pd s e = Some (Ok (ids, None))"
    "RangeRead B ressum_key_ops (ressum_codec P) pd (db_NewTxn B db True) None kp () None s e = Some (Ok ((rows, stats, ()), None))"
    "fst ` set rows = {k \<in> stored_resources (dview db) ids. keeps kp (ResourceSummaryKey_String k)}"
proof -
  let ?t = "db_NewTxn B db True"
  have t: "tok ?t" "tview ?t = dview db" using badger_store.newtxn[OF assms(1,2)] by auto
  have ok: "\<forall>p key b. tview ?t key = Some b \<and> prefix (seek_string ressum_key_ops None p) key
      \<longrightarrow> row_ok ressum_key_ops (ressum_codec P) ressum_key_wf (key, b)"
    unfolding t(2) using summaries_row_ok[OF assms(3)] by blast
  obtain ids rows stats where ids: "GetPartitionsFromTimeRange pd s e = Some (Ok (ids, None))"
    and rr: "RangeRead B ressum_key_ops (ressum_codec P) pd ?t None kp () None s e = Some (Ok ((rows, stats, ()), None))"
    and rows: "\<forall>k v. map_of rows k = Some v \<longleftrightarrow>
         (\<exists>p \<in> set ids. \<exists>b. ressum_key_wf k \<and> prefix (seek_string ressum_key_ops None p) (k_String ressum_key_ops k)
            \<and> tview ?t (k_String ressum_key_ops k) = Some b \<and> c_Unmarshal (ressum_codec P) b = Ok v
            \<and> keeps kp (k_String ressum_key_ops k) \<and> passes (ressum_codec P) None b)"
    using range_read_rows[OF assms(1) rsk.table_key_axioms t(1) assms(4-10) ok, of kp None]
    by (elim exE conjE) (rule that)
  have slash: "\<forall>p \<in> set ids. CHR ''/'' \<notin> set p"
    using ids time_range_walk[OF assms(4-10)] partition_ids_no_slash by auto
  have str: "k_String ressum_key_ops = ResourceSummaryKey_String" by (simp add: ressum_key_ops_def)
  have "k \<in> fst ` set rows \<longleftrightarrow> k \<in> stored_resources (dview db) ids \<and> keeps kp (ResourceSummaryKey_String k)" for k
  proof -
    have dec: "\<exists>v. c_Unmarshal (ressum_codec P) b = Ok v"
      if "p \<in> set ids" "prefix (seek_string ressum_key_ops None p) key" "dview db key = Some b" for p key b
      using summaries_row_ok[OF assms(3) that(3,2)] by (auto simp: row_ok_def)
    have "k \<in> fst ` set rows \<longleftrightarrow> (\<exists>v. map_of rows k = Some v)"
      by (simp add: dom_map_of_conv_image_fst[symmetric] dom_def)
    also have "\<dots> \<longleftrightarrow> ressum_key_wf k \<and> keeps kp (ResourceSummaryKey_String k) \<and> (\<exists>p \<in> set ids.
        prefix (seek_string ressum_key_ops None p) (ResourceSummaryKey_String k) \<and> ResourceSummaryKey_String k \<in> dom (dview db))"
      unfolding rows[rule_format] str t(2) using dec[of _ "ResourceSummaryKey_String k"] by (auto simp: passes_def)
    also have "\<dots> \<longleftrightarrow> k \<in> stored_resources (dview db) ids \<and> keeps kp (ResourceSummaryKey_String k)"
      using stored_resource_iff[OF slash, of k "dview db"] by (auto simp: stored_resources_def)
    finally show ?thesis .
  qed
  then show ?thesis using that[OF ids rr] by blast
qed

text \<open>
  The list of namespaces. \<open>NamespaceQuery\<close> encodes the names of the namespace objects
  whose summaries are stored in the partitions of the time range, sorted and each once, followed
  by the entry for all namespaces.
\<close>

lemma namespace_query_exact:
  assumes "badger_store B dview dok tview tok writable ahead iopts" "dok db" "summaries_ok P (dview db)"
    and "valid_pd pd" "tloc s = UTC" "tloc e = UTC"
    and "0 \<le> Unix s" "Unix s < 10 ^ 12" "0 \<le> Unix e" "Unix e + pd_secs pd < 10 ^ 12"
  shows "\<exists>ids ns. GetPartitionsFromTimeRange pd s e = Some (Ok (ids, None))
    \<and> NamespaceQuery B P json pd db s e = Some (map_err (\<lambda>x. Wrapped x ''Failed to marshal json'') (json (ns @ [''_all''])))
    \<and> sorted ns \<and> distinct ns
    \<and> set ns = rk_Name ` {k \<in> stored_resources (dview db) ids. rk_Kind k = ''Namespace''}"
proof -
  let ?kp = "stateless isNamespace"
  obtain ids rows stats where r: "GetPartitionsFromTimeRange pd s e = Some (Ok (ids, None))"
    "RangeRead B ressum_key_ops (ressum_codec P) pd (db_NewTxn B db True) None ?kp () None s e = Some (Ok ((rows, stats, ()), None))"
    "fst ` set rows = {k \<in> stored_resources (dview db) ids. keeps ?kp (ResourceSummaryKey_String k)}"
    using summaries_read[OF assms] .
  have kept: "keeps ?kp (ResourceSummaryKey_String k) \<longleftrightarrow> rk_Kind k = ''Namespace''" if "ressum_key_wf k" for k
    using rsk.parse_string[OF that]
    by (simp add: keeps_def stateless_def isNamespace_def NamespaceKind_def ressum_key_ops_def)
  have keys: "fst ` set rows = {k \<in> stored_resources (dview db) ids. rk_Kind k = ''Namespace''}"
    unfolding r(3) using kept by (auto simp: stored_resources_def)
  have "NamespaceQuery B P json pd db s e = Some (map_err (\<lambda>x. Wrapped x ''Failed to marshal json'')
      (json (resSumRowsToNamespaceStrings rows @ [''_all''])))"
    by (simp add: NamespaceQuery_def db_View_def ResourceSummaryTable_RangeRead_def r(2) rows_or_error_def bind_ores_def
        AllNamespaces_def)
  then show ?thesis
    using r(1) namespace_strings[of rows] unfolding image_comp[symmetric] keys by blast
qed

lemma filter_singleton: "{k \<in> {c}. Q k} = (if Q c then {c} else {})"
  by auto

text \<open>A store with one resource, read within its partition.\<close>

definition one_resource :: "string \<Rightarrow> MockDb" where
  "one_resource kind = \<lparr>mock_data = [(''/ressum/001546398000/'' @ kind @ ''/ns1/ns1/u1'',
     ok_of (c_Marshal sample_ressum_codec (rso_Summary empty_output)))]\<rparr>"

lemma one_resource_ids:
  "GetPartitionsFromTimeRange Hour (Time 1546398245000000000 UTC) (Time 1546398245000000000 UTC) = Some (Ok ([''001546398000''], None))"
proof -
  have pd: "valid_pd Hour" by (simp add: valid_pd_def Hour_def)
  have "part_starts Hour 1546398000 1546398000 = [1546398000]"
    using part_starts_Cons[OF pd, of 1546398000 1546398000] part_starts_empty[OF pd, of 1546398000 "1546398000 + pd_secs Hour"]
    by (simp add: pd_secs_def Hour_def)
  then show ?thesis
    using time_range_walk[OF pd, of "Time 1546398245000000000 UTC" "Time 1546398245000000000 UTC"]
    by (simp add: Unix_def part_start_def pd_secs_def Hour_def pid_def go_defs go_eval)
qed

lemma one_resource_store:
  assumes "CHR ''/'' \<notin> set kind"
  shows "mock_dok (one_resource kind)" "summaries_ok sample_pb (mock_dview (one_resource kind))"
    "stored_resources (mock_dview (one_resource kind)) [''001546398000'']
      = {\<lparr>rk_PartitionId = ''001546398000'', rk_Kind = kind, rk_Namespace = ''ns1'', rk_Name = ''ns1'', rk_Uid = ''u1''\<rparr>}"
proof -
  let ?k = "\<lparr>rk_PartitionId = ''001546398000'', rk_Kind = kind, rk_Namespace = ''ns1'', rk_Name = ''ns1'', rk_Uid = ''u1''\<rparr>"
  let ?b = "ok_of (c_Marshal sample_ressum_codec (rso_Summary empty_output))"
  have k: "ressum_key_wf ?k" "ResourceSummaryKey_String ?k = ''/ressum/001546398000/'' @ kind @ ''/ns1/ns1/u1''"
    using assms by (simp_all add: key_wf_defs ResourceSummaryKey_String_def slashed_simps table_names)
  have b: "\<exists>v. c_Unmarshal sample_ressum_codec ?b = Ok v" by (simp add: sample_ressum_codec_def nat_codec_def)
  have view: "mock_dview (one_resource kind) = [ResourceSummaryKey_String ?k \<mapsto> ?b]"
    by (simp add: mock_dview_def one_resource_def fun_eq_iff k(2))
  show "mock_dok (one_resource kind)" by (simp add: mock_dok_def one_resource_def)
  show "summaries_ok sample_pb (mock_dview (one_resource kind))"
    unfolding summaries_ok_def view using k(1) b
    by (auto simp: row_ok_def ressum_key_ops_def sample_pb_def split: if_splits)
  have "l = ?k" if "ressum_key_wf l" "ResourceSummaryKey_String l = ResourceSummaryKey_String ?k" for l
    using rsk.parse_string[OF that(1)] rsk.parse_string[OF k(1)] that(2) by (simp add: ressum_key_ops_def)
  then show "stored_resources (mock_dview (one_resource kind)) [''001546398000''] = {?k}"
    unfolding stored_resources_def view using k(1) by auto
qed

lemma namespace_query_exact_witness:
  "NamespaceQuery mock_ops sample_pb (\<lambda>l. Ok (concat l)) Hour (one_resource ''Namespace'')
     (Time 1546398245000000000 UTC) (Time 1546398245000000000 UTC) = Some (Ok ''ns1_all'')"
proof -
  let ?t = "Time 1546398245000000000 UTC" and ?db = "one_resource ''Namespace''"
  have u: "tloc ?t = UTC" "0 \<le> Unix ?t" "Unix ?t < 10 ^ 12" "Unix ?t + pd_secs Hour < 10 ^ 12" "valid_pd Hour"
    by (simp_all add: Unix_def pd_secs_def Hour_def valid_pd_def)
  have sl: "CHR ''/'' \<notin> set ''Namespace''" by simp
  have one: "rk_Name ` {k \<in> stored_resources (mock_dview ?db) [''001546398000'']. rk_Kind k = ''Namespace''} = {''ns1''}"
    unfolding one_resource_store(3)[OF sl] filter_singleton by simp
  obtain ns where ns: "NamespaceQuery mock_ops sample_pb (\<lambda>l. Ok (concat l)) Hour ?db ?t ?t
      = Some (map_err (\<lambda>x. Wrapped x ''Failed to marshal json'') (Ok (concat (ns @ [''_all'']))))"
    and d: "distinct ns" and set: "set ns = {''ns1''}"
    using namespace_query_exact[OF mock.badger_store_axioms, OF one_resource_store(1,2)[OF sl] u(5,1,1,2,3,2,4), of "\<lambda>l. Ok (concat l)"]
    unfolding one_resource_ids by (auto simp: one)
  have "ns = [''ns1'']" using set d by (cases ns; cases "tl ns") auto
  then show ?thesis using ns by simp
qed

text \<open>
  The list of kinds. The predicate that \<open>KindQuery\<close> gives to the range read collects the
  kinds of all resources of the partitions of the range, each once, although it lets pass only
  the first row of each kind; the query encodes them sorted, with the entry for all kinds.
\<close>

lemma kind_query_exact:
  assumes "badger_store B dview dok tview tok writable ahead iopts" "dok db" "summaries_ok P (dview db)"
    and "valid_pd pd" "tloc s = UTC" "tloc e = UTC"
    and "0 \<le> Unix s" "Unix s < 10 ^ 12" "0 \<le> Unix e" "Unix e + pd_secs pd < 10 ^ 12"
  shows "\<exists>ids ks. GetPartitionsFromTimeRange pd s e = Some (Ok (ids, None))
    \<and> KindQuery B P json pd db s e = Some (map_err (\<lambda>x. Wrapped x ''Failed to marshal json'') (json (sort (''_all'' # ks))))
    \<and> distinct ks \<and> set ks = rk_Kind ` stored_resources (dview db) ids"
proof -
  let ?t = "db_NewTxn B db True" and ?K = ressum_key_ops
  let ?ids = "map pid (part_starts pd (part_start pd (Unix s)) (part_start pd (Unix e)))"
  have t: "tok ?t" "tview ?t = dview db" using badger_store.newtxn[OF assms(1,2)] by auto
  have mem: "kv \<in> set (rows_at (dview db) q) \<longleftrightarrow> prefix q (fst kv) \<and> dview db (fst kv) = Some (snd kv)" for kv q
    using items_of_set[OF badger_store.finite_view[OF assms(1) t(1)]] t(2) by (cases kv) (auto simp: rows_at_def)
  let ?xs = "concat (map (\<lambda>p. rows_at (dview db) (seek_string ?K None p)) ?ids)"
  have ok: "\<forall>p \<in> set ?ids. \<forall>kv \<in> set (rows_at (tview ?t) (seek_string ?K None p)). row_ok ?K (ressum_codec P) ressum_key_wf kv"
    unfolding t(2) using mem summaries_row_ok[OF assms(3)] by (metis prod.collapse)
  define ks where "ks = fold (\<lambda>kv ks. snd (keepResourceSummaryKind (fst kv) ks)) ?xs []"
  obtain res stats where rr: "range_partitions B ?K (ressum_codec P) ?t None (Some keepResourceSummaryKind) None ?ids
      ([], no_stats\<lparr>rs_PartitionCount := int (length ?ids)\<rparr>, []) = Some (Inl (res, stats, ks))"
    using badger_store.range_partitions_state[OF assms(1) t(1) rsk.table_key_axioms ok,
        of keepResourceSummaryKind None "[]" "no_stats\<lparr>rs_PartitionCount := int (length ?ids)\<rparr>" "[]"]
    unfolding t(2) ks_def[symmetric] by (elim exE) (rule that)
  have "KindQuery B P json pd db s e = Some (map_err (\<lambda>x. Wrapped x ''Failed to marshal json'') (json (sort (''_all'' # ks))))"
    unfolding KindQuery_def db_View_def ResourceSummaryTable_RangeRead_def RangeRead_def time_range_walk[OF assms(4-10)]
      option.simps bind.simps res.case prod.case Let_def isKind_def rr
    by (simp add: state_or_error_def bind_ores_def AllKinds_def)
  moreover have keys: "\<forall>kv \<in> set ?xs. \<exists>k. ressum_key_wf k \<and> fst kv = ResourceSummaryKey_String k"
    using ok unfolding t(2) by (fastforce simp: row_ok_def ressum_key_ops_def)
  note seen = kinds_seen[OF distinct.simps(1)[THEN iffD2, OF TrueI] keys, folded ks_def]
  have "ressum_key_wf k \<and> ResourceSummaryKey_String k \<in> fst ` set ?xs \<longleftrightarrow> k \<in> stored_resources (dview db) ?ids" for k
  proof -
    have at: "x \<in> fst ` set (rows_at (dview db) q) \<longleftrightarrow> prefix q x \<and> x \<in> dom (dview db)" for x q
    proof
      assume "x \<in> fst ` set (rows_at (dview db) q)"
      then show "prefix q x \<and> x \<in> dom (dview db)" using mem by auto
    next
      assume "prefix q x \<and> x \<in> dom (dview db)"
      then obtain b where "prefix q x" "dview db x = Some b" by blast
      then have "(x, b) \<in> set (rows_at (dview db) q)" using mem by simp
      then show "x \<in> fst ` set (rows_at (dview db) q)" by force
    qed
    have "ResourceSummaryKey_String k \<in> fst ` set ?xs \<longleftrightarrow> (\<exists>p \<in> set ?ids.
        prefix (seek_string ?K None p) (ResourceSummaryKey_String k) \<and> ResourceSummaryKey_String k \<in> dom (dview db))"
      by (simp add: image_UN at)
    then show ?thesis
      using stored_resource_iff[of ?ids k "dview db"] partition_ids_no_slash by (auto simp: stored_resources_def)
  qed
  then have "set ks = rk_Kind ` stored_resources (dview db) ?ids" using seen by auto
  ultimately show ?thesis using time_range_walk[OF assms(4-10)] seen by blast
qed

lemma kind_query_exact_witness:
  "KindQuery mock_ops sample_pb (\<lambda>l. Ok (concat l)) Hour (one_resource ''Pod'')
     (Time 1546398245000000000 UTC) (Time 1546398245000000000 UTC) = Some (Ok (concat (sort [''_all'', ''Pod''])))"
proof -
  let ?t = "Time 1546398245000000000 UTC" and ?db = "one_resource ''Pod''"
  have u: "tloc ?t = UTC" "0 \<le> Unix ?t" "Unix ?t < 10 ^ 12" "Unix ?t + pd_secs Hour < 10 ^ 12" "valid_pd Hour"
    by (simp_all add: Unix_def pd_secs_def Hour_def valid_pd_def)
  have sl: "CHR ''/'' \<notin> set ''Pod''" by simp
  obtain ks where ks: "KindQuery mock_ops sample_pb (\<lambda>l. Ok (concat l)) Hour ?db ?t ?t
      = Some (map_err (\<lambda>x. Wrapped x ''Failed to marshal json'') (Ok (concat (sort (''_all'' # ks)))))"
    and d: "distinct ks" and set: "set ks = {''Pod''}"
    using kind_query_exact[OF mock.badger_store_axioms, OF one_resource_store(1,2)[OF sl] u(5,1,1,2,3,2,4), of "\<lambda>l. Ok (concat l)"]
    unfolding one_resource_ids by (auto simp: one_resource_store(3)[OF sl] simp del: sort_key_simps)
  have "ks = [''Pod'']" using set d by (cases ks; cases "tl ks") auto
  then show ?thesis using ks by (simp del: sort_key_simps)
qed

end
