(* ===== verification/Web.thy ===== *)
theory Web
  imports Queries "HOL-Library.Signed_Division"
begin

text \<open>
  \<open>pkg/sloop/webserver\<close>, what the handlers compute before a page is rendered: the parameters of a
  request (\<open>params.go\<close>), links (\<open>links.go\<close>), the data of the resource and index pages
  (\<open>resourcehandler.go\<close>, \<open>indexhandler.go\<close>), which file a request for a web file reads
  (\<open>webserver.go\<close>, \<open>webfiles.go\<close>), and the labels of the user metrics (\<open>server_metrics.go\<close>,
  \<open>middleware.go\<close>). A request's query is a \<open>url_values\<close>. The template engine, the file system and
  the embedded files are parameters; \<open>path.Join\<close> of the standard library is modelled.
\<close>

section \<open>Parameters of a request\<close>

definition timeFromUnixTimeParam :: "url_values \<Rightarrow> string \<Rightarrow> gotime \<Rightarrow> int \<Rightarrow> gotime res" where
  "timeFromUnixTimeParam query paramName defaultTs unit1 =
    (let unixStr = params_Get query paramName
     in if unixStr = [] then Ok defaultTs
        else bind_res (parse_int64 unixStr) (\<lambda>startDateInt64.
          if unit1 = Second then Ok (time_UTC (time_Unix UTC startDateInt64 0))
          else if unit1 = 1000000
          then Ok (time_UTC (time_Unix UTC (startDateInt64 sdiv 1000) (1000 * 1000 * (startDateInt64 smod 1000))))
          else Err (Errorf ''Invalid unit.  Only second and millisecond are supported'')))"

definition durationFromParam :: "(string \<Rightarrow> int res) \<Rightarrow> url_values \<Rightarrow> string \<Rightarrow> int \<Rightarrow> int res" where
  "durationFromParam parseDuration query paramName defaultDuration =
    (let durStr = params_Get query paramName
     in if durStr = [] then Ok defaultDuration else parseDuration durStr)"

text \<open>The characters that the regular expression lets through, and the removal of pairs of dots.\<close>

definition allowed_char :: "char \<Rightarrow> bool" where
  "allowed_char c = (let n = of_char c :: nat in
     97 \<le> n \<and> n \<le> 122 \<or> 65 \<le> n \<and> n \<le> 90 \<or> 48 \<le> n \<and> n \<le> 57 \<or> c = CHR ''-'' \<or> c = CHR ''_'' \<or> c = CHR ''.'')"

fun remove_dots :: "string \<Rightarrow> string" where
  "remove_dots (a # b # s) = (if a = CHR ''.'' \<and> b = CHR ''.'' then remove_dots s else a # remove_dots (b # s))"
| "remove_dots s = s"

definition cleanStringFromParam :: "url_values \<Rightarrow> string \<Rightarrow> string \<Rightarrow> string" where
  "cleanStringFromParam query paramName defaultStr =
    (let strVal = params_Get query paramName
     in if strVal = [] then defaultStr
        else let clean = filter allowed_char strVal in remove_dots clean)"

definition numberFromParam :: "url_values \<Rightarrow> string \<Rightarrow> int \<Rightarrow> int" where
  "numberFromParam query paramName defaultNum =
    (let numStr = params_Get query paramName
     in if numStr = [] then defaultNum
        else case parse_int64 numStr of Ok numVal \<Rightarrow> numVal | _ \<Rightarrow> defaultNum)"

section \<open>Links\<close>

record LinkTemplate =
  lt_Text :: string
  lt_UrlTemplate :: string

record ResourceLinkTemplate =
  rlt_Text :: string
  rlt_UrlTemplate :: string
  rlt_Kinds :: "string list"

record ComputedLink =
  cl_Text :: string
  cl_Url :: string

text \<open>\<open>runTextTemplate\<close>: the template and the fields of its data to the text, or an error.\<close>

type_synonym template_engine = "string \<Rightarrow> (string \<times> string) list \<Rightarrow> string res"

fun makeResourceLinks ::
  "template_engine \<Rightarrow> string \<Rightarrow> string \<Rightarrow> string \<Rightarrow> ResourceLinkTemplate list \<Rightarrow> ComputedLink list res" where
  "makeResourceLinks run namespace name kind [] = Ok []"
| "makeResourceLinks run namespace name kind (thisLink # resLinks) =
    (if rlt_Text thisLink = [] then makeResourceLinks run namespace name kind resLinks
     else bind_res (run (rlt_UrlTemplate thisLink) [(''Name'', name), (''Namespace'', namespace), (''Kind'', kind)]) (\<lambda>linkUrl.
       let kindMatch = (rlt_Kinds thisLink = [] \<or> list_ex (\<lambda>linkKind. linkKind = kind) (rlt_Kinds thisLink))
       in bind_res (makeResourceLinks run namespace name kind resLinks) (\<lambda>ret.
            Ok (if kindMatch then \<lparr>cl_Text = rlt_Text thisLink, cl_Url = linkUrl\<rparr> # ret else ret))))"

fun makeLeftBarLinks :: "template_engine \<Rightarrow> LinkTemplate list \<Rightarrow> ComputedLink list res" where
  "makeLeftBarLinks run [] = Ok []"
| "makeLeftBarLinks run (thisLink # lbLinks) =
    (if lt_Text thisLink = [] then makeLeftBarLinks run lbLinks
     else bind_res (run (lt_UrlTemplate thisLink) []) (\<lambda>linkUrl.
       bind_res (makeLeftBarLinks run lbLinks) (\<lambda>ret. Ok (\<lparr>cl_Text = lt_Text thisLink, cl_Url = linkUrl\<rparr> # ret))))"

section \<open>Paths\<close>

text \<open>
  \<open>path.Clean\<close>: empty and dot segments vanish, two dots take back the segment before them (at the
  start they stay, or vanish behind the root). The segments so far are in reverse.
\<close>

definition path_step :: "bool \<Rightarrow> string \<Rightarrow> string list \<Rightarrow> string list" where
  "path_step rooted seg acc =
    (if seg = [] \<or> seg = ''.'' then acc
     else if seg = ''..'' then
       (case acc of [] \<Rightarrow> if rooted then [] else [''..'']
        | s # acc' \<Rightarrow> if s = ''..'' then ''..'' # acc else acc')
     else seg # acc)"

definition is_rooted :: "string \<Rightarrow> bool" where
  "is_rooted p \<longleftrightarrow> p \<noteq> [] \<and> hd p = CHR ''/''"

definition path_segments :: "string \<Rightarrow> string list" where
  "path_segments p = rev (fold (path_step (is_rooted p)) (split_on CHR ''/'' p) [])"

definition path_Clean :: "string \<Rightarrow> string" where
  "path_Clean p =
    (let body = join_with CHR ''/'' (path_segments p)
     in if is_rooted p then CHR ''/'' # body else if body = [] then ''.'' else body)"

definition path_join_raw :: "string list \<Rightarrow> string" where
  "path_join_raw elems = join_with CHR ''/'' (filter (\<lambda>e. e \<noteq> []) elems)"

definition path_Join :: "string list \<Rightarrow> string" where
  "path_Join elems = (if path_join_raw elems = [] then [] else path_Clean (path_join_raw elems))"

definition GetFilePath :: "string \<Rightarrow> string \<Rightarrow> string" where
  "GetFilePath filePath fileName = path_Join [filePath, fileName]"

section \<open>Web files\<close>

text \<open>The file system and the embedded files (\<open>bindata.go\<close>): the names and the content of each.\<close>

record file_lib =
  fl_ReadFile :: "string \<Rightarrow> string res"
  fl_AssetNames :: "string list"
  fl_Asset :: "string \<Rightarrow> string res"

definition webfiles_prefix :: string where "webfiles_prefix = ''webfiles/''"

definition readWebfile :: "file_lib \<Rightarrow> string \<Rightarrow> string \<Rightarrow> string res" where
  "readWebfile L webFilesPath fileName =
    (case fl_ReadFile L (GetFilePath webFilesPath fileName) of
       Ok data \<Rightarrow> Ok data
     | Panic m \<Rightarrow> Panic m
     | Err e \<Rightarrow>
         let binFileName = GetFilePath webfiles_prefix fileName
         in if Contains (fl_AssetNames L) binFileName then fl_Asset L binFileName
            else Err (Errorf (''Webfile '' @ fileName @ '' does not exist in local directory or in binary form.'')))"

definition trim_prefix :: "string \<Rightarrow> string \<Rightarrow> string" where
  "trim_prefix s p = (if prefix p s then drop (length p) s else s)"

definition webFileHandler :: "file_lib \<Rightarrow> string \<Rightarrow> string \<Rightarrow> string \<Rightarrow> string res" where
  "webFileHandler L webFilesPath currentContext url =
    (let webFilesPathToTrim = path_Join [''/'', currentContext, ''/webfiles''];
         fixedUrl = trim_prefix url webFilesPathToTrim
     in if contains_str fixedUrl ''..'' then Err (Errorf ''Not allowed'')
        else readWebfile L webFilesPath fixedUrl)"

definition redirect_target :: "string \<Rightarrow> string \<Rightarrow> string option" where
  "redirect_target currentContext urlPath = (if urlPath \<noteq> ''/'' then None else Some (path_Join [''/'', currentContext]))"

section \<open>Pages\<close>

record resourceData =
  rd_Namespace :: string
  rd_Name :: string
  rd_Kind :: string
  rd_Uuid :: string
  rd_ClickTime :: gotime
  rd_SelfUrl :: string
  rd_Links :: "ComputedLink list"
  rd_EventsUrl :: string
  rd_PayloadUrl :: string
  rd_PlusMinusTime :: int

definition ClickTimeParam :: string where "ClickTimeParam = ''click_time''"

definition data_url :: "string \<Rightarrow> string \<Rightarrow> string \<Rightarrow> int \<Rightarrow> int \<Rightarrow> string \<Rightarrow> string \<Rightarrow> string" where
  "data_url currentContext query namespace queryStart queryEnd kind name =
    path_Join [''/'', currentContext, ''data'' @ ''?query='' @ query @ ''&namespace='' @ namespace
      @ ''&start_time='' @ format_int queryStart @ ''&end_time='' @ format_int queryEnd @ ''&kind='' @ kind @ ''&name='' @ name]"

definition resourceHandler ::
  "template_engine \<Rightarrow> ResourceLinkTemplate list \<Rightarrow> string \<Rightarrow> string \<Rightarrow> url_values \<Rightarrow> resourceData res" where
  "resourceHandler run resLinks currentContext selfUrl query =
    (let namespace = cleanStringFromParam query NamespaceParam [];
         name = cleanStringFromParam query NameParam [];
         kind = cleanStringFromParam query KindParam [];
         uuid = cleanStringFromParam query UuidParam [];
         plusMinus = Minute * 15
     in bind_res (map_err (\<lambda>e. Wrapped e ''Invalid click time'') (timeFromUnixTimeParam query ClickTimeParam zero_time 1000000)) (\<lambda>clickTime.
          if clickTime = zero_time then Err (Errorf ''Invalid click time'')
          else bind_res (map_err (\<lambda>e. Wrapped e ''Error creating external links'') (makeResourceLinks run namespace name kind resLinks)) (\<lambda>links.
            let queryStart = Unix (time_Add clickTime (-1 * plusMinus)); queryEnd = Unix (time_Add clickTime plusMinus)
            in Ok \<lparr>rd_Namespace = namespace, rd_Name = name, rd_Kind = kind, rd_Uuid = uuid, rd_ClickTime = clickTime,
                 rd_SelfUrl = selfUrl, rd_Links = links,
                 rd_EventsUrl = data_url currentContext ''GetEventData'' namespace queryStart queryEnd kind name,
                 rd_PayloadUrl = data_url currentContext ''GetResPayload'' namespace queryStart queryEnd kind name,
                 rd_PlusMinusTime = plusMinus\<rparr>)))"

record WebConfig =
  wc_BindAddress :: string
  wc_Port :: int
  wc_WebFilesPath :: string
  wc_DefaultNamespace :: string
  wc_DefaultLookback :: string
  wc_DefaultResources :: string
  wc_MaxLookback :: int
  wc_ConfigYaml :: string
  wc_ResourceLinks :: "ResourceLinkTemplate list"
  wc_LeftBarLinks :: "LinkTemplate list"
  wc_CurrentContext :: string
  wc_EnableUserMetrics :: bool

record indexData =
  id_DefaultLookback :: string
  id_DefaultNamespace :: string
  id_DefaultKind :: string
  id_LeftBarLinks :: "ComputedLink list"
  id_CurrentContext :: string

definition indexHandler :: "template_engine \<Rightarrow> WebConfig \<Rightarrow> indexData res" where
  "indexHandler run config =
    bind_res (map_err (\<lambda>e. Wrapped e ''Could not make left bar links'') (makeLeftBarLinks run (wc_LeftBarLinks config))) (\<lambda>links.
      Ok \<lparr>id_DefaultLookback = wc_DefaultLookback config, id_DefaultNamespace = wc_DefaultNamespace config,
          id_DefaultKind = wc_DefaultResources config, id_LeftBarLinks = links, id_CurrentContext = wc_CurrentContext config\<rparr>)"

text \<open>The query of a request, and its answer: the bytes, or a page with the error.\<close>

definition queryHandler ::
  "('db, 'txn, 'it) badger \<Rightarrow> pb_lib \<Rightarrow> 'j ext_lib \<Rightarrow> json_lib \<Rightarrow> (string \<Rightarrow> int res) \<Rightarrow> (string \<Rightarrow> gotime res) \<Rightarrow> int
     \<Rightarrow> gotime \<Rightarrow> url_values \<Rightarrow> 'db \<Rightarrow> int \<Rightarrow> string res option" where
  "queryHandler B P X J parseDuration parseLayout pd now query db maxLookBack =
    map_option (map_err (\<lambda>e. Wrapped e ''Failed to run query''))
      (RunQuery B P X J parseDuration parseLayout pd now (params_Get query ''query'') query db maxLookBack)"

section \<open>Metrics of users\<close>

record UserMetricsConfig =
  um_Label :: string
  um_Headers :: "string list"

definition builtInLabels :: "string list" where
  "builtInLabels = [''handler'', ''cluster'', ''query'', ''namespace'', ''kind'', ''name'', ''lookback'']"

definition GetDefaultUserMetricsConfig :: "UserMetricsConfig list" where
  "GetDefaultUserMetricsConfig =
    [\<lparr>um_Label = ''username'', um_Headers = [''X-Username'', ''x-username'']\<rparr>,
     \<lparr>um_Label = ''user_agent'', um_Headers = [''User-Agent'']\<rparr>]"

text \<open>The rules and the labels, in order, that \<open>InitUserMetrics\<close> sets up.\<close>

definition InitUserMetrics :: "UserMetricsConfig list \<Rightarrow> UserMetricsConfig list \<times> string list" where
  "InitUserMetrics config =
    (let rules = (if config = [] then GetDefaultUserMetricsConfig else config);
         labels = builtInLabels @ filter (\<lambda>l. l \<noteq> []) (map um_Label rules)
     in (rules, sort (remdups labels)))"

text \<open>The headers are a function: the first value of a header, or the empty string.\<close>

fun getHeaderWithFallback :: "(string \<Rightarrow> string) \<Rightarrow> string list \<Rightarrow> string" where
  "getHeaderWithFallback headers [] = []"
| "getHeaderWithFallback headers (headerName # headerNames) =
    (if headers headerName \<noteq> [] then headers headerName else getHeaderWithFallback headers headerNames)"

fun extractRequesterInfo :: "UserMetricsConfig list \<Rightarrow> (string \<Rightarrow> string) \<Rightarrow> (string \<times> string) list \<Rightarrow> (string \<times> string) list" where
  "extractRequesterInfo [] headers info = info"
| "extractRequesterInfo (rule # rules) headers info =
    extractRequesterInfo rules headers
      (if um_Label rule \<noteq> [] \<and> um_Headers rule \<noteq> []
       then AList.update (um_Label rule) (getHeaderWithFallback headers (um_Headers rule)) info else info)"

definition mergeMaps :: "(string \<times> string) list \<Rightarrow> (string \<times> string) list \<Rightarrow> (string \<times> string) list" where
  "mergeMaps bas additional = fold (\<lambda>(k, v). AList.update k v) additional (fold (\<lambda>(k, v). AList.update k v) bas [])"

definition user_tags :: "string \<Rightarrow> string \<Rightarrow> url_values \<Rightarrow> (string \<times> string) list" where
  "user_tags handlerName urlPath queryParams =
    (let pathParts = split_on CHR ''/'' (trim_prefix urlPath ''/'');
         cluster = (if pathParts \<noteq> [] \<and> hd pathParts \<noteq> [] then hd pathParts else [])
     in [(''handler'', handlerName), (''cluster'', cluster), (''query'', params_Get queryParams ''query''),
         (''namespace'', params_Get queryParams ''namespace''), (''kind'', params_Get queryParams ''kind''),
         (''name'', params_Get queryParams ''namematch''), (''lookback'', params_Get queryParams ''lookback'')])"

text \<open>The values of the labels of the counter that is incremented, in the order of the labels.\<close>

definition PublishHeaderMetrics ::
  "UserMetricsConfig list \<times> string list \<Rightarrow> (string \<Rightarrow> string) \<Rightarrow> (string \<times> string) list \<Rightarrow> bool \<Rightarrow> string list option" where
  "PublishHeaderMetrics cfg headers additionalTags enableUserMetrics =
    (if \<not> enableUserMetrics then None
     else let userInfo = extractRequesterInfo (fst cfg) headers [];
              allLabels = mergeMaps userInfo additionalTags
          in Some (map (\<lambda>label. case map_of allLabels label of None \<Rightarrow> [] | Some v \<Rightarrow> v) (snd cfg)))"

section \<open>Lemmas\<close>

lemma remove_dots_hd: "b \<noteq> CHR ''.'' \<Longrightarrow> \<exists>t. remove_dots (b # s) = b # t"
  by (cases s) auto

lemma contains_Cons2:
  "contains_str (a # s) ''..'' \<longleftrightarrow> (a = CHR ''.'' \<and> (\<exists>t. s = CHR ''.'' # t)) \<or> contains_str s ''..''"
  by (cases s) auto

lemma remove_dots_none: "\<not> contains_str (remove_dots s) ''..''"
proof (induction s rule: remove_dots.induct)
  case (1 a b s)
  show ?case
  proof (cases "a = CHR ''.'' \<and> b = CHR ''.''")
    case True
    then show ?thesis using 1 by simp
  next
    case False
    have "\<not> (a = CHR ''.'' \<and> (\<exists>t. remove_dots (b # s) = CHR ''.'' # t))"
      using False remove_dots_hd[of b s] by auto
    moreover have "remove_dots (a # b # s) = a # remove_dots (b # s)" using False by (simp only: remove_dots.simps if_False)
    ultimately show ?thesis using 1(2)[OF False] by (simp only: contains_Cons2) blast
  qed
qed auto

lemma remove_dots_chars: "set (remove_dots s) \<subseteq> set s"
  by (induction s rule: remove_dots.induct) auto

lemma remove_dots_id: "\<not> contains_str s ''..'' \<Longrightarrow> remove_dots s = s"
  by (induction s rule: remove_dots.induct) (auto simp: contains_Cons2)

text \<open>A path in segments: joining appends them, and segments other than dots are kept.\<close>

lemma split_on_join: "split_on c (a @ c # b) = split_on c a @ split_on c b"
  by (induction a) (auto split: list.split)

lemma fold_path_step_plain:
  "\<forall>p \<in> set segs. p \<noteq> ''..'' \<Longrightarrow> fold (path_step r) segs acc = rev (filter (\<lambda>p. p \<noteq> [] \<and> p \<noteq> ''.'') segs) @ acc"
  by (induction segs arbitrary: acc) (auto simp: path_step_def)

lemma split_on_infix: "p \<in> set (split_on c s) \<Longrightarrow> \<exists>a b. s = a @ p @ b"
proof (induction s arbitrary: p)
  case (Cons x s)
  show ?case
  proof (cases "x = c")
    case True
    then consider "p = []" | "p \<in> set (split_on c s)" using Cons.prems by auto
    then show ?thesis
    proof cases
      case 1
      then show ?thesis by (intro exI[of _ "[]"] exI[of _ "x # s"]) simp
    next
      case 2
      then obtain a b where "s = a @ p @ b" using Cons.IH by blast
      then show ?thesis by (metis append_Cons)
    qed
  next
    case False
    obtain y ys where y: "split_on c s = y # ys" by (cases "split_on c s") auto
    consider "p = x # y" | "p \<in> set ys" using Cons.prems False y by auto
    then show ?thesis
    proof cases
      case 1
      have "\<exists>b. s = y @ b" using join_split[of c s] y by (cases ys) auto
      then show ?thesis using 1 by (metis append_Cons append_Nil)
    next
      case 2
      then have "p \<in> set (split_on c s)" using y by simp
      then obtain a b where "s = a @ p @ b" using Cons.IH by blast
      then show ?thesis by (metis append_Cons)
    qed
  qed
qed simp

lemma no_dots_segments: "\<not> contains_str s ''..'' \<Longrightarrow> \<forall>p \<in> set (split_on CHR ''/'' s). p \<noteq> ''..''"
  using split_on_infix contains_str_iff by metis

section \<open>Properties\<close>

text \<open>
  Parameters are cleaned. A parameter that is present comes out with only the characters of
  Kubernetes names and without two dots in a row, so it never names another directory, and a
  value that has only such characters and no two dots is not changed.
\<close>

lemma clean_string_safe:
  assumes "params_Get query name \<noteq> []"
  shows "(\<forall>c \<in> set (cleanStringFromParam query name dflt). allowed_char c)
    \<and> \<not> contains_str (cleanStringFromParam query name dflt) ''..''
    \<and> ((\<forall>c \<in> set (params_Get query name). allowed_char c) \<and> \<not> contains_str (params_Get query name) ''..''
         \<longrightarrow> cleanStringFromParam query name dflt = params_Get query name)"
proof -
  let ?f = "filter allowed_char (params_Get query name)"
  have c: "cleanStringFromParam query name dflt = remove_dots ?f"
    using assms by (simp add: cleanStringFromParam_def Let_def)
  have "\<forall>c \<in> set (remove_dots ?f). allowed_char c" using remove_dots_chars[of ?f] by auto
  moreover have "remove_dots ?f = params_Get query name"
    if "\<forall>c \<in> set (params_Get query name). allowed_char c" "\<not> contains_str (params_Get query name) ''..''"
  proof -
    have "?f = params_Get query name" using that(1) by (simp add: filter_id_conv)
    then show ?thesis using remove_dots_id that(2) by simp
  qed
  ultimately show ?thesis unfolding c using remove_dots_none[of ?f] by blast
qed

lemma clean_string_safe_witness:
  "\<not> contains_str (cleanStringFromParam [(''name'', [''a/.././b''])] ''name'' []) ''..''"
  using clean_string_safe[of "[(''name'', [''a/.././b''])]" "''name''" "[]"] by (simp add: params_Get_def)

text \<open>The path of some segments below a directory.\<close>

definition below :: "string \<Rightarrow> string list \<Rightarrow> string" where
  "below dir rest = (let body = join_with CHR ''/'' (path_segments dir @ rest)
     in if is_rooted dir then CHR ''/'' # body else if body = [] then ''.'' else body)"

lemma GetFilePath_below:
  assumes "dir \<noteq> []" "\<not> contains_str url ''..''"
  shows "\<exists>rest. GetFilePath dir url = below dir rest \<and> ''..'' \<notin> set rest"
proof (cases "url = []")
  case True
  then have "GetFilePath dir url = below dir []"
    using assms(1) by (simp add: GetFilePath_def path_Join_def path_join_raw_def below_def path_Clean_def)
  then show ?thesis by (intro exI[of _ "[]"]) simp
next
  case False
  let ?rest = "filter (\<lambda>p. p \<noteq> [] \<and> p \<noteq> ''.'') (split_on CHR ''/'' url)"
  have r: "is_rooted (dir @ ''/'' @ url) = is_rooted dir" using assms(1) by (simp add: is_rooted_def)
  have s: "split_on CHR ''/'' (dir @ ''/'' @ url) = split_on CHR ''/'' dir @ split_on CHR ''/'' url"
    using split_on_join[of "CHR ''/''" dir url] by simp
  have "GetFilePath dir url = path_Clean (dir @ ''/'' @ url)"
    using assms(1) False by (simp add: GetFilePath_def path_Join_def path_join_raw_def)
  moreover have "path_segments (dir @ ''/'' @ url) = path_segments dir @ ?rest"
    using fold_path_step_plain[OF no_dots_segments[OF assms(2)]]
    by (simp only: path_segments_def r s fold_append comp_apply rev_append rev_rev_ident)
  ultimately have "GetFilePath dir url = below dir ?rest" by (simp only: path_Clean_def below_def r Let_def)
  moreover have "''..'' \<notin> set ?rest" using no_dots_segments[OF assms(2)] by auto
  ultimately show ?thesis by blast
qed



end
