(* ===== verification/Config.thy ===== *)
theory Config
  imports Web GoFloat
begin

text \<open>
  The configuration (\<open>pkg/sloop/server/internal/config/config.go\<close>): the fields, their defaults, the
  command line flags that set them, the file that is read first, and the validation. The flag
  package of Go is written out, its number and duration parsers, the file system, the YAML and JSON
  decoders and the flags that glog registers are parameters.
\<close>

section \<open>Fields and defaults\<close>

record 'r SloopConfig =
  ConfigFile :: string
  LeftBarLinks :: "LinkTemplate list"
  ResourceLinks :: "ResourceLinkTemplate list"
  ExclusionRules :: "(string \<times> 'r list) list"
  UserMetricsHeaders :: "UserMetricsConfig list"
  DisableKubeWatcher :: bool
  KubeWatchResyncInterval :: int
  WebFilesPath :: string
  BindAddress :: string
  Port :: int
  StoreRoot :: string
  MaxLookback :: int
  MaxDiskMb :: int
  DebugPlaybackFile :: string
  DebugRecordFile :: string
  DeletionBatchSize :: int
  UseMockBadger :: bool
  DisableStoreManager :: bool
  CleanupFrequency :: int
  KeepMinorNodeUpdates :: bool
  DefaultNamespace :: string
  DefaultKind :: string
  DefaultLookback :: string
  UseKubeContext :: string
  DisplayContext :: string
  ApiServerHost :: string
  WatchCrds :: bool
  CrdRefreshInterval :: int
  ThresholdForGC :: f64
  RestoreDatabaseFile :: string
  BadgerDiscardRatio :: f64
  BadgerVLogGCFreq :: int
  BadgerMaxTableSize :: int
  BadgerLevelOneSize :: int
  BadgerLevSizeMultiplier :: int
  BadgerKeepL0InMemory :: bool
  BadgerVLogFileSize :: int
  BadgerVLogMaxEntries :: int
  BadgerUseLSMOnlyOptions :: bool
  BadgerEnableEventLogging :: bool
  BadgerNumOfCompactors :: int
  BadgerNumL0Tables :: int
  BadgerNumL0TablesStall :: int
  BadgerSyncWrites :: bool
  BadgerVLogFileIOMapping :: bool
  BadgerVLogTruncate :: bool
  EnableDeleteKeys :: bool
  EnableGranularMetrics :: bool
  EnableUserMetrics :: bool
  PrivilegedAccess :: bool
  BadgerDetailLogEnabled :: bool

definition getDefaultConfig :: "'r SloopConfig" where
  "getDefaultConfig =
    \<lparr>ConfigFile = [], LeftBarLinks = [], ResourceLinks = [], ExclusionRules = [],
     UserMetricsHeaders = [], DisableKubeWatcher = False, KubeWatchResyncInterval = 30 * Minute,
     WebFilesPath = ''./pkg/sloop/webserver/webfiles'', BindAddress = [], Port = 8080,
     StoreRoot = ''./data'', MaxLookback = (14 * 24) * Hour, MaxDiskMb = 32 * 1024,
     DebugPlaybackFile = [], DebugRecordFile = [], DeletionBatchSize = 1000, UseMockBadger = False,
     DisableStoreManager = False, CleanupFrequency = Minute * 30, KeepMinorNodeUpdates = False,
     DefaultNamespace = ''default'', DefaultKind = ''_all'', DefaultLookback = ''1h'',
     UseKubeContext = [], DisplayContext = [], ApiServerHost = [], WatchCrds = True,
     CrdRefreshInterval = 5 * Minute, ThresholdForGC = fround (8 / 10), RestoreDatabaseFile = [],
     BadgerDiscardRatio = fround (99 / 100), BadgerVLogGCFreq = Minute * 1, BadgerMaxTableSize = 0,
     BadgerLevelOneSize = 0, BadgerLevSizeMultiplier = 0, BadgerKeepL0InMemory = True,
     BadgerVLogFileSize = 0, BadgerVLogMaxEntries = 200000, BadgerUseLSMOnlyOptions = True,
     BadgerEnableEventLogging = False, BadgerNumOfCompactors = 0, BadgerNumL0Tables = 0,
     BadgerNumL0TablesStall = 0, BadgerSyncWrites = True, BadgerVLogFileIOMapping = False,
     BadgerVLogTruncate = True, EnableDeleteKeys = False, EnableGranularMetrics = False,
     EnableUserMetrics = False, PrivilegedAccess = True, BadgerDetailLogEnabled = False\<rparr>"

section \<open>Flags\<close>

text \<open>
  A variable that a flag sets, by its type. A flag set is the list of its names and variables in
  the order of registration.
\<close>

datatype 'c flag_var =
    StringVar "string \<Rightarrow> 'c \<Rightarrow> 'c"
  | BoolVar "bool \<Rightarrow> 'c \<Rightarrow> 'c"
  | IntVar "int \<Rightarrow> 'c \<Rightarrow> 'c"
  | Int64Var "int \<Rightarrow> 'c \<Rightarrow> 'c"
  | UintVar "int \<Rightarrow> 'c \<Rightarrow> 'c"
  | Float64Var "f64 \<Rightarrow> 'c \<Rightarrow> 'c"
  | DurationVar "int \<Rightarrow> 'c \<Rightarrow> 'c"

type_synonym 'c flag_set = "(string \<times> 'c flag_var) list"

definition registerFlags :: "'r SloopConfig flag_set" where
  "registerFlags =
    [(''config'', StringVar (\<lambda>v c. c\<lparr>ConfigFile := v\<rparr>)),
     (''disable-kube-watch'', BoolVar (\<lambda>v c. c\<lparr>DisableKubeWatcher := v\<rparr>)),
     (''kube-watch-resync-interval'', DurationVar (\<lambda>v c. c\<lparr>KubeWatchResyncInterval := v\<rparr>)),
     (''web-files-path'', StringVar (\<lambda>v c. c\<lparr>WebFilesPath := v\<rparr>)),
     (''bind-address'', StringVar (\<lambda>v c. c\<lparr>BindAddress := v\<rparr>)),
     (''port'', IntVar (\<lambda>v c. c\<lparr>Port := v\<rparr>)),
     (''store-root'', StringVar (\<lambda>v c. c\<lparr>StoreRoot := v\<rparr>)),
     (''max-look-back'', DurationVar (\<lambda>v c. c\<lparr>MaxLookback := v\<rparr>)),
     (''max-disk-mb'', IntVar (\<lambda>v c. c\<lparr>MaxDiskMb := v\<rparr>)),
     (''playback-file'', StringVar (\<lambda>v c. c\<lparr>DebugPlaybackFile := v\<rparr>)),
     (''record-file'', StringVar (\<lambda>v c. c\<lparr>DebugRecordFile := v\<rparr>)),
     (''use-mock-badger'', BoolVar (\<lambda>v c. c\<lparr>UseMockBadger := v\<rparr>)),
     (''disable-store-manager'', BoolVar (\<lambda>v c. c\<lparr>DisableStoreManager := v\<rparr>)),
     (''cleanup-frequency'', DurationVar (\<lambda>v c. c\<lparr>CleanupFrequency := v\<rparr>)),
     (''keep-minor-node-updates'', BoolVar (\<lambda>v c. c\<lparr>KeepMinorNodeUpdates := v\<rparr>)),
     (''default-lookback'', StringVar (\<lambda>v c. c\<lparr>DefaultLookback := v\<rparr>)),
     (''default-kind'', StringVar (\<lambda>v c. c\<lparr>DefaultKind := v\<rparr>)),
     (''default-namespace'', StringVar (\<lambda>v c. c\<lparr>DefaultNamespace := v\<rparr>)),
     (''deletion-batch-size'', IntVar (\<lambda>v c. c\<lparr>DeletionBatchSize := v\<rparr>)),
     (''context'', StringVar (\<lambda>v c. c\<lparr>UseKubeContext := v\<rparr>)),
     (''display-context'', StringVar (\<lambda>v c. c\<lparr>DisplayContext := v\<rparr>)),
     (''apiserver-host'', StringVar (\<lambda>v c. c\<lparr>ApiServerHost := v\<rparr>)),
     (''watch-crds'', BoolVar (\<lambda>v c. c\<lparr>WatchCrds := v\<rparr>)),
     (''crd-refresh-interval'', DurationVar (\<lambda>v c. c\<lparr>CrdRefreshInterval := v\<rparr>)),
     (''restore-database-file'', StringVar (\<lambda>v c. c\<lparr>RestoreDatabaseFile := v\<rparr>)),
     (''badger-discard-ratio'', Float64Var (\<lambda>v c. c\<lparr>BadgerDiscardRatio := v\<rparr>)),
     (''gc-threshold'', Float64Var (\<lambda>v c. c\<lparr>ThresholdForGC := v\<rparr>)),
     (''badger-vlog-gc-freq'', DurationVar (\<lambda>v c. c\<lparr>BadgerVLogGCFreq := v\<rparr>)),
     (''badger-max-table-size'', Int64Var (\<lambda>v c. c\<lparr>BadgerMaxTableSize := v\<rparr>)),
     (''badger-level-one-size'', Int64Var (\<lambda>v c. c\<lparr>BadgerLevelOneSize := v\<rparr>)),
     (''badger-level-size-multiplier'', IntVar (\<lambda>v c. c\<lparr>BadgerLevSizeMultiplier := v\<rparr>)),
     (''badger-keep-l0-in-memory'', BoolVar (\<lambda>v c. c\<lparr>BadgerKeepL0InMemory := v\<rparr>)),
     (''badger-vlog-file-size'', Int64Var (\<lambda>v c. c\<lparr>BadgerVLogFileSize := v\<rparr>)),
     (''badger-vlog-max-entries'', UintVar (\<lambda>v c. c\<lparr>BadgerVLogMaxEntries := v\<rparr>)),
     (''badger-use-lsm-only-options'', BoolVar (\<lambda>v c. c\<lparr>BadgerUseLSMOnlyOptions := v\<rparr>)),
     (''badger-enable-event-logging'', BoolVar (\<lambda>v c. c\<lparr>BadgerEnableEventLogging := v\<rparr>)),
     (''badger-number-of-compactors'', IntVar (\<lambda>v c. c\<lparr>BadgerNumOfCompactors := v\<rparr>)),
     (''badger-number-of-level-zero-tables'', IntVar (\<lambda>v c. c\<lparr>BadgerNumL0Tables := v\<rparr>)),
     (''badger-number-of-zero-tables-stall'', IntVar (\<lambda>v c. c\<lparr>BadgerNumL0TablesStall := v\<rparr>)),
     (''badger-sync-writes'', BoolVar (\<lambda>v c. c\<lparr>BadgerSyncWrites := v\<rparr>)),
     (''enable-delete-keys'', BoolVar (\<lambda>v c. c\<lparr>EnableDeleteKeys := v\<rparr>)),
     (''enable-granular-metrics'', BoolVar (\<lambda>v c. c\<lparr>EnableGranularMetrics := v\<rparr>)),
     (''enable-user-metrics'', BoolVar (\<lambda>v c. c\<lparr>EnableUserMetrics := v\<rparr>)),
     (''allow-privileged-access'', BoolVar (\<lambda>v c. c\<lparr>PrivilegedAccess := v\<rparr>)),
     (''badger-vlog-fileIO-mapping'', BoolVar (\<lambda>v c. c\<lparr>BadgerVLogFileIOMapping := v\<rparr>)),
     (''badger-vlog-truncate'', BoolVar (\<lambda>v c. c\<lparr>BadgerVLogTruncate := v\<rparr>)),
     (''badger-detail-log-enabled'', BoolVar (\<lambda>v c. c\<lparr>BadgerDetailLogEnabled := v\<rparr>))]"

definition registerDummyGlogFlags :: "'c flag_set" where
  "registerDummyGlogFlags =
    [(''logtostderr'', BoolVar (\<lambda>v c. c)), (''alsologtostderr'', BoolVar (\<lambda>v c. c)), (''v'', IntVar (\<lambda>v c. c)),
     (''stderrthreshold'', IntVar (\<lambda>v c. c)), (''vmodule'', StringVar (\<lambda>v c. c)),
     (''log_backtrace_at'', StringVar (\<lambda>v c. c))]"

record flag_lib =
  fg_ParseInt :: "string \<Rightarrow> int res"
  fg_ParseUint :: "string \<Rightarrow> int res"
  fg_ParseFloat :: "string \<Rightarrow> f64 res"
  fg_ParseDuration :: "string \<Rightarrow> int res"

definition ParseBool :: "string \<Rightarrow> bool res" where
  "ParseBool s =
    (if s \<in> {''1'', ''t'', ''T'', ''true'', ''TRUE'', ''True''} then Ok True
     else if s \<in> {''0'', ''f'', ''F'', ''false'', ''FALSE'', ''False''} then Ok False
     else Err (NumSyntax s))"

fun is_bool_flag :: "'c flag_var \<Rightarrow> bool" where
  "is_bool_flag (BoolVar f) = True"
| "is_bool_flag v = False"

fun set_flag :: "flag_lib \<Rightarrow> 'c flag_var \<Rightarrow> string \<Rightarrow> 'c \<Rightarrow> 'c res" where
  "set_flag L (StringVar f) s c = Ok (f s c)"
| "set_flag L (BoolVar f) s c = bind_res (ParseBool s) (\<lambda>v. Ok (f v c))"
| "set_flag L (IntVar f) s c = bind_res (fg_ParseInt L s) (\<lambda>v. Ok (f v c))"
| "set_flag L (Int64Var f) s c = bind_res (fg_ParseInt L s) (\<lambda>v. Ok (f v c))"
| "set_flag L (UintVar f) s c = bind_res (fg_ParseUint L s) (\<lambda>v. Ok (f v c))"
| "set_flag L (Float64Var f) s c = bind_res (fg_ParseFloat L s) (\<lambda>v. Ok (f v c))"
| "set_flag L (DurationVar f) s c = bind_res (fg_ParseDuration L s) (\<lambda>v. Ok (f v c))"

text \<open>The name and the value behind the first equals sign that is not the first character.\<close>

definition split_flag :: "string \<Rightarrow> string \<times> string option" where
  "split_flag name =
    (let rest = tl name; before = takeWhile (\<lambda>c. c \<noteq> CHR ''='') rest
     in if CHR ''='' \<in> set rest then (hd name # before, Some (drop (Suc (length before)) rest)) else (name, None))"

text \<open>
  \<open>FlagSet.Parse\<close>: it stops at the first argument that is no flag, at two dashes, or at an error.
  The result is the configuration after the flags before that, and the error.
\<close>

definition flag_arg :: "string \<Rightarrow> bool" where
  "flag_arg s \<longleftrightarrow> 2 \<le> length s \<and> hd s = CHR ''-'' \<and> s \<noteq> ''--''"

definition flag_text :: "string \<Rightarrow> string" where
  "flag_text s = (if s ! 1 = CHR ''-'' then drop 2 s else drop 1 s)"

fun parse_flags :: "flag_lib \<Rightarrow> 'c flag_set \<Rightarrow> string list \<Rightarrow> 'c \<Rightarrow> 'c \<times> gerror option" where
  "parse_flags L fs [] c = (c, None)"
| "parse_flags L fs (s # args) c =
    (if \<not> flag_arg s then (c, None)
     else if flag_text s = [] \<or> hd (flag_text s) = CHR ''-'' \<or> hd (flag_text s) = CHR ''='' then
       (c, Some (Errorf (''bad flag syntax: '' @ s)))
     else case split_flag (flag_text s) of (name, val) \<Rightarrow>
       (case map_of fs name of
          None \<Rightarrow> (c, Some (if name = ''help'' \<or> name = ''h'' then LibError ''flag: help requested''
              else Errorf (''flag provided but not defined: -'' @ name)))
        | Some var \<Rightarrow>
            if is_bool_flag var \<or> val \<noteq> None then
              (case set_flag L var (case val of None \<Rightarrow> ''true'' | Some v \<Rightarrow> v) c of
                 Ok c' \<Rightarrow> parse_flags L fs args c'
               | Err e \<Rightarrow> (c, Some e) | Panic m \<Rightarrow> (c, Some (LibError m)))
            else (case args of
                [] \<Rightarrow> (c, Some (Errorf (''flag needs an argument: -'' @ name)))
              | v # args' \<Rightarrow> (case set_flag L var v c of
                   Ok c' \<Rightarrow> parse_flags L fs args' c'
                 | Err e \<Rightarrow> (c, Some e) | Panic m \<Rightarrow> (c, Some (LibError m))))))"

section \<open>Reading the configuration\<close>

record 'r config_lib =
  cf_flags :: flag_lib
  cf_glog_flags :: "'r SloopConfig flag_set"
  cf_ReadFile :: "string \<Rightarrow> string res"
  cf_yaml_Unmarshal :: "string \<Rightarrow> 'r SloopConfig \<Rightarrow> 'r SloopConfig res"
  cf_json_Unmarshal :: "string \<Rightarrow> 'r SloopConfig \<Rightarrow> 'r SloopConfig res"
  cf_Getenv :: "string \<Rightarrow> string"

definition sloopConfigEnvVar :: string where "sloopConfigEnvVar = ''SLOOP_CONFIG''"

text \<open>The zero value of the configuration, of which only the name of the file is read.\<close>

definition empty_config :: "'r SloopConfig" where
  "empty_config = \<lparr>ConfigFile = [], LeftBarLinks = [], ResourceLinks = [], ExclusionRules = [],
     UserMetricsHeaders = [], DisableKubeWatcher = False, KubeWatchResyncInterval = 0,
     WebFilesPath = [], BindAddress = [], Port = 0, StoreRoot = [], MaxLookback = 0, MaxDiskMb = 0,
     DebugPlaybackFile = [], DebugRecordFile = [], DeletionBatchSize = 0, UseMockBadger = False,
     DisableStoreManager = False, CleanupFrequency = 0, KeepMinorNodeUpdates = False,
     DefaultNamespace = [], DefaultKind = [], DefaultLookback = [], UseKubeContext = [],
     DisplayContext = [], ApiServerHost = [], WatchCrds = False, CrdRefreshInterval = 0,
     ThresholdForGC = Fin 0, RestoreDatabaseFile = [], BadgerDiscardRatio = Fin 0,
     BadgerVLogGCFreq = 0, BadgerMaxTableSize = 0, BadgerLevelOneSize = 0,
     BadgerLevSizeMultiplier = 0, BadgerKeepL0InMemory = False, BadgerVLogFileSize = 0,
     BadgerVLogMaxEntries = 0, BadgerUseLSMOnlyOptions = False, BadgerEnableEventLogging = False,
     BadgerNumOfCompactors = 0, BadgerNumL0Tables = 0, BadgerNumL0TablesStall = 0,
     BadgerSyncWrites = False, BadgerVLogFileIOMapping = False, BadgerVLogTruncate = False,
     EnableDeleteKeys = False, EnableGranularMetrics = False, EnableUserMetrics = False,
     PrivilegedAccess = False, BadgerDetailLogEnabled = False\<rparr>"

text \<open>The first pass over the flags, for the name of the file; its error is only printed.\<close>

definition getConfigFlag :: "'r config_lib \<Rightarrow> string list \<Rightarrow> string" where
  "getConfigFlag L args =
    ConfigFile (fst (parse_flags (cf_flags L) (registerFlags @ registerDummyGlogFlags) args (empty_config :: 'r SloopConfig)))"

definition getConfigFilePath :: "'r config_lib \<Rightarrow> string list \<Rightarrow> string" where
  "getConfigFilePath L args =
    (let configFileFlag = getConfigFlag L args
     in if configFileFlag \<noteq> [] then configFileFlag else cf_Getenv L sloopConfigEnvVar)"

text \<open>The file's values replace those of the configuration it is given. Every failure panics.\<close>

definition panic_on_err :: "string \<Rightarrow> 'a res \<Rightarrow> 'a res" where
  "panic_on_err msg r = (case r of Ok x \<Rightarrow> Ok x | Err e \<Rightarrow> Panic msg | Panic m \<Rightarrow> Panic m)"

definition loadFromFile :: "'r config_lib \<Rightarrow> string \<Rightarrow> 'r SloopConfig \<Rightarrow> 'r SloopConfig res" where
  "loadFromFile L filename config =
    bind_res (panic_on_err (''failed to read '' @ filename) (cf_ReadFile L filename)) (\<lambda>configFile.
      if contains_str filename ''.yaml'' then panic_on_err (''failed to unmarshal '' @ filename) (cf_yaml_Unmarshal L configFile config)
      else if contains_str filename ''.json'' then panic_on_err (''failed to unmarshal '' @ filename) (cf_json_Unmarshal L configFile config)
      else Panic (''incorrect file format '' @ filename))"

text \<open>The second pass parses the flags for good; an error there ends the program.\<close>

definition Init :: "'r config_lib \<Rightarrow> string list \<Rightarrow> 'r SloopConfig res" where
  "Init L args =
    (let configFileName = getConfigFilePath L args
     in bind_res (if configFileName \<noteq> [] then loadFromFile L configFileName getDefaultConfig else Ok getDefaultConfig) (\<lambda>finalConfig.
          case parse_flags (cf_flags L) (registerFlags @ cf_glog_flags L) args finalConfig of
            (c, None) \<Rightarrow> Ok (c\<lparr>ConfigFile := configFileName\<rparr>)
          | (c, Some e) \<Rightarrow> Panic ''exit status 2''))"

definition Validate :: "(string \<Rightarrow> int res) \<Rightarrow> 'r SloopConfig \<Rightarrow> unit res" where
  "Validate parseDuration c =
    (if MaxLookback c \<le> 0 then Err (Errorf ''SloopConfig value MaxLookback can not be <= 0'')
     else if DefaultLookback c = [] then Err (Errorf ''DefaultLookback can not be empty string'')
     else bind_res (map_err (\<lambda>e. Wrapped e (''DefaultLookback is an invalid duration: '' @ DefaultLookback c))
            (parseDuration (DefaultLookback c))) (\<lambda>_.
       if CleanupFrequency c < Minute * 15 then Err (Errorf ''CleanupFrequency can not be less than 15 minutes'')
       else Ok ()))"

section \<open>Lemmas\<close>

text \<open>An argument that gives a flag its value, and the reference: the values are set one after the other.\<close>

definition assignment :: "string \<times> string \<Rightarrow> string" where
  "assignment nv = ''-'' @ fst nv @ ''='' @ snd nv"

definition flag_name :: "string \<Rightarrow> bool" where
  "flag_name n \<longleftrightarrow> n \<noteq> [] \<and> hd n \<noteq> CHR ''-'' \<and> CHR ''='' \<notin> set n"

fun apply_flags :: "flag_lib \<Rightarrow> 'c flag_set \<Rightarrow> (string \<times> string) list \<Rightarrow> 'c \<Rightarrow> 'c res" where
  "apply_flags L fs [] c = Ok c"
| "apply_flags L fs ((n, v) # nvs) c =
    (case map_of fs n of
       None \<Rightarrow> Err (Errorf (''flag provided but not defined: -'' @ n))
     | Some var \<Rightarrow> bind_res (set_flag L var v c) (apply_flags L fs nvs))"

lemma split_flag_assignment:
  assumes "flag_name n"
  shows "split_flag (n @ CHR ''='' # v) = (n, Some v)"
proof -
  obtain a b where n: "n = a # b" using assms by (cases n) (auto simp: flag_name_def)
  then have b: "\<forall>x \<in> set b. x \<noteq> CHR ''=''" using assms by (auto simp: flag_name_def)
  have "takeWhile (\<lambda>c. c \<noteq> CHR ''='') (b @ CHR ''='' # v) = b"
    using b by (simp add: takeWhile_append2)
  then show ?thesis by (simp add: split_flag_def n Let_def)
qed

lemma assignment_arg:
  assumes "flag_name n"
  shows "flag_arg (assignment (n, v))" "flag_text (assignment (n, v)) = n @ CHR ''='' # v"
proof -
  obtain a b where "n = a # b" "a \<noteq> CHR ''-''" using assms by (cases n) (auto simp: flag_name_def)
  then show "flag_arg (assignment (n, v))" "flag_text (assignment (n, v)) = n @ CHR ''='' # v"
    by (simp_all add: flag_arg_def flag_text_def assignment_def)
qed

lemma parse_assignment:
  assumes "flag_name n"
  shows "parse_flags L fs (assignment (n, v) # args) c =
    (case map_of fs n of
       None \<Rightarrow> (c, Some (if n = ''help'' \<or> n = ''h'' then LibError ''flag: help requested''
           else Errorf (''flag provided but not defined: -'' @ n)))
     | Some var \<Rightarrow> (case set_flag L var v c of
           Ok c' \<Rightarrow> parse_flags L fs args c' | Err e \<Rightarrow> (c, Some e) | Panic m \<Rightarrow> (c, Some (LibError m))))"
proof -
  have "n \<noteq> []" "hd n \<noteq> CHR ''-''" "hd n \<noteq> CHR ''=''" using assms hd_in_set[of n] by (auto simp: flag_name_def simp del: hd_in_set)
  then show ?thesis
    using assignment_arg[OF assms, of v] split_flag_assignment[OF assms, of v]
    by (cases "map_of fs n") (simp_all only: parse_flags.simps(2), simp_all)
qed

lemma parse_assignments:
  assumes "\<forall>(n, v) \<in> set nvs. flag_name n" "apply_flags L fs nvs c = Ok c'"
  shows "parse_flags L fs (map assignment nvs) c = (c', None)"
  using assms
proof (induction nvs arbitrary: c)
  case (Cons nv nvs)
  obtain n v where nv: "nv = (n, v)" by fastforce
  then obtain var c1 where *: "map_of fs n = Some var" "set_flag L var v c = Ok c1" "apply_flags L fs nvs c1 = Ok c'"
    using Cons.prems(2) by (auto simp: bind_res_Ok_iff split: option.splits)
  then show ?case
    using Cons.IH[OF _ *(3)] Cons.prems(1) nv by (simp add: parse_assignment del: parse_flags.simps)
qed simp

lemma flag_name_list:
  "map fst (registerFlags @ registerDummyGlogFlags) =
    [''config'', ''disable-kube-watch'', ''kube-watch-resync-interval'', ''web-files-path'',
     ''bind-address'', ''port'', ''store-root'', ''max-look-back'', ''max-disk-mb'', ''playback-file'',
     ''record-file'', ''use-mock-badger'', ''disable-store-manager'', ''cleanup-frequency'',
     ''keep-minor-node-updates'', ''default-lookback'', ''default-kind'', ''default-namespace'',
     ''deletion-batch-size'', ''context'', ''display-context'', ''apiserver-host'', ''watch-crds'',
     ''crd-refresh-interval'', ''restore-database-file'', ''badger-discard-ratio'', ''gc-threshold'',
     ''badger-vlog-gc-freq'', ''badger-max-table-size'', ''badger-level-one-size'',
     ''badger-level-size-multiplier'', ''badger-keep-l0-in-memory'', ''badger-vlog-file-size'',
     ''badger-vlog-max-entries'', ''badger-use-lsm-only-options'', ''badger-enable-event-logging'',
     ''badger-number-of-compactors'', ''badger-number-of-level-zero-tables'',
     ''badger-number-of-zero-tables-stall'', ''badger-sync-writes'', ''enable-delete-keys'',
     ''enable-granular-metrics'', ''enable-user-metrics'', ''allow-privileged-access'',
     ''badger-vlog-fileIO-mapping'', ''badger-vlog-truncate'', ''badger-detail-log-enabled'',
     ''logtostderr'', ''alsologtostderr'', ''v'', ''stderrthreshold'', ''vmodule'',
     ''log_backtrace_at'']"
  by (simp add: registerFlags_def registerDummyGlogFlags_def)

lemma flag_names:
  "list_all flag_name (map fst (registerFlags @ registerDummyGlogFlags))"
  "distinct (map fst (registerFlags @ registerDummyGlogFlags))"
  unfolding flag_name_list by code_simp+

text \<open>Of the flags only \<open>config\<close> changes the name of the file.\<close>

definition keeps_file :: "'r SloopConfig flag_var \<Rightarrow> bool" where
  "keeps_file var \<longleftrightarrow> (\<forall>L v c c'. set_flag L var v c = Ok c' \<longrightarrow> ConfigFile c' = ConfigFile c)"

lemma keeps_fileI:
  "(\<And>v c. ConfigFile (f v c) = ConfigFile c) \<Longrightarrow> keeps_file (StringVar f)"
  "(\<And>v c. ConfigFile (g v c) = ConfigFile c) \<Longrightarrow> keeps_file (BoolVar g)"
  "(\<And>v c. ConfigFile (h v c) = ConfigFile c) \<Longrightarrow> keeps_file (IntVar h)"
  "(\<And>v c. ConfigFile (h v c) = ConfigFile c) \<Longrightarrow> keeps_file (Int64Var h)"
  "(\<And>v c. ConfigFile (h v c) = ConfigFile c) \<Longrightarrow> keeps_file (UintVar h)"
  "(\<And>v c. ConfigFile (k v c) = ConfigFile c) \<Longrightarrow> keeps_file (Float64Var k)"
  "(\<And>v c. ConfigFile (h v c) = ConfigFile c) \<Longrightarrow> keeps_file (DurationVar h)"
  by (auto simp: keeps_file_def bind_res_Ok_iff)

lemma flags_keep_file:
  "list_all keeps_file (map snd (tl (registerFlags @ registerDummyGlogFlags)))"
  by (simp add: registerFlags_def registerDummyGlogFlags_def keeps_fileI)

lemma config_flag:
  "map_of (registerFlags @ fs) ''config'' = Some (StringVar (\<lambda>v c. c\<lparr>ConfigFile := v\<rparr>))"
  by (simp add: registerFlags_def)

lemma ConfigFile_set_flag:
  assumes "map_of (registerFlags @ registerDummyGlogFlags) n = Some var" "set_flag L var v c = Ok c'"
  shows "ConfigFile c' = (if n = ''config'' then v else ConfigFile c)"
proof (cases "n = ''config''")
  case True
  then have "var = StringVar (\<lambda>v c. c\<lparr>ConfigFile := v\<rparr>)" using assms(1) config_flag by (metis option.inject)
  then show ?thesis using True assms(2) by auto
next
  case False
  have "(n, var) \<in> set (registerFlags @ registerDummyGlogFlags)" using assms(1) by (rule map_of_SomeD)
  moreover have "registerFlags @ registerDummyGlogFlags
      = (''config'', StringVar (\<lambda>v c. c\<lparr>ConfigFile := v\<rparr>)) # tl (registerFlags @ registerDummyGlogFlags)"
    by (simp add: registerFlags_def)
  ultimately have "(n, var) \<in> set (tl (registerFlags @ registerDummyGlogFlags))"
    using False by (metis fst_conv set_ConsD)
  then have "keeps_file var" using flags_keep_file by (force simp: list_all_iff)
  then show ?thesis using False assms(2) by (simp add: keeps_file_def)
qed

definition valid_flag :: "flag_lib \<Rightarrow> 'c flag_set \<Rightarrow> string \<times> string \<Rightarrow> bool" where
  "valid_flag L fs nv \<longleftrightarrow> flag_name (fst nv)
    \<and> (\<exists>var. map_of fs (fst nv) = Some var \<and> (\<forall>c. \<exists>c'. set_flag L var (snd nv) c = Ok c'))"

lemma apply_flags_Ok: "\<forall>nv \<in> set nvs. valid_flag L fs nv \<Longrightarrow> \<exists>c'. apply_flags L fs nvs c = Ok c'"
proof (induction nvs arbitrary: c)
  case (Cons nv nvs)
  obtain n v where nv: "nv = (n, v)" by fastforce
  then obtain var c1 where "map_of fs n = Some var" "set_flag L var v c = Ok c1"
    using Cons.prems by (fastforce simp: valid_flag_def)
  then show ?case using Cons.IH[of c1] Cons.prems nv by simp
qed simp

lemma apply_flags_append:
  "\<forall>nv \<in> set nvs. valid_flag L fs nv \<Longrightarrow> apply_flags L (fs @ fs') nvs c = apply_flags L fs nvs c"
proof (induction nvs arbitrary: c)
  case (Cons nv nvs)
  obtain n v where nv: "nv = (n, v)" by fastforce
  then obtain var where var: "map_of fs n = Some var" using Cons.prems by (auto simp: valid_flag_def)
  have "apply_flags L (fs @ fs') nvs = apply_flags L fs nvs" using Cons by auto
  then show ?case using var nv by (simp add: map_add_def)
qed simp

lemma apply_flags_file:
  assumes "apply_flags L (registerFlags @ registerDummyGlogFlags) nvs c = Ok c'"
  shows "ConfigFile c' = (case map_of (rev nvs) ''config'' of None \<Rightarrow> ConfigFile c | Some v \<Rightarrow> v)"
  using assms
proof (induction nvs arbitrary: c)
  case (Cons nv nvs)
  obtain n v where nv: "nv = (n, v)" by fastforce
  then obtain var c1 where *: "map_of (registerFlags @ registerDummyGlogFlags) n = Some var"
    "set_flag L var v c = Ok c1" "apply_flags L (registerFlags @ registerDummyGlogFlags) nvs c1 = Ok c'"
    using Cons.prems by (auto simp: bind_res_Ok_iff simp del: map_of_append split: option.splits)
  from ConfigFile_set_flag[OF *(1,2)] have "ConfigFile c1 = (if n = ''config'' then v else ConfigFile c)" .
  then show ?case
    using Cons.IH[OF *(3)] by (auto simp: nv map_add_def split: option.split)
qed simp

lemma parse_registered:
  fixes c :: "'r SloopConfig"
  assumes "\<forall>nv \<in> set nvs. valid_flag L (registerFlags :: 'r SloopConfig flag_set) nv"
  shows "\<exists>c'. apply_flags L registerFlags nvs c = Ok c' \<and> parse_flags L (registerFlags @ fs) (map assignment nvs) c = (c', None)"
proof -
  obtain c' where "apply_flags L registerFlags nvs c = Ok c'" using apply_flags_Ok[OF assms] by blast
  moreover have "\<forall>(n, v) \<in> set nvs. flag_name n" using assms by (auto simp: valid_flag_def)
  ultimately show ?thesis
    using parse_assignments[of nvs L "registerFlags @ fs" c c'] apply_flags_append[OF assms, of fs c] by simp
qed

lemma empty_config_file: "ConfigFile empty_config = []"
  by (simp add: empty_config_def)

section \<open>Properties\<close>

text \<open>
  C20: what wins. For flags given with their values, the configuration starts from the defaults, then
  takes the values of the file, then those of the flags in their order. The file is the one of
  the last \<open>-config\<close>, or of the environment when there is none or it is empty; and the field that
  names the file says so, whatever the file itself contains.
\<close>

theorem config_precedence:
  fixes L :: "'r config_lib"
  assumes "\<forall>nv \<in> set nvs. valid_flag (cf_flags L) (registerFlags :: 'r SloopConfig flag_set) nv"
    and "name = (case map_of (rev nvs) ''config'' of None \<Rightarrow> cf_Getenv L ''SLOOP_CONFIG''
      | Some f \<Rightarrow> if f = [] then cf_Getenv L ''SLOOP_CONFIG'' else f)"
  shows "Init L (map assignment nvs) =
    bind_res (if name = [] then Ok getDefaultConfig else loadFromFile L name getDefaultConfig) (\<lambda>c.
    bind_res (apply_flags (cf_flags L) registerFlags nvs c) (\<lambda>c'.
      Ok (c'\<lparr>ConfigFile := name\<rparr>)))"
proof -
  obtain e :: "'r SloopConfig" where e: "apply_flags (cf_flags L) registerFlags nvs empty_config = Ok e"
    "parse_flags (cf_flags L) (registerFlags @ registerDummyGlogFlags) (map assignment nvs) empty_config = (e, None)"
    using parse_registered[OF assms(1)] by blast
  have "ConfigFile e = (case map_of (rev nvs) ''config'' of None \<Rightarrow> [] | Some v \<Rightarrow> v)"
    using apply_flags_file[of "cf_flags L" nvs empty_config e] e(1) apply_flags_append[OF assms(1)]
    by (simp add: empty_config_file cong: option.case_cong)
  then have name: "getConfigFilePath L (map assignment nvs) = name"
    using e(2) assms(2)
    by (simp add: getConfigFilePath_def getConfigFlag_def Let_def sloopConfigEnvVar_def split: option.split)
  have "(case parse_flags (cf_flags L) (registerFlags @ cf_glog_flags L) (map assignment nvs) c of
        (c', None) \<Rightarrow> Ok (c'\<lparr>ConfigFile := name\<rparr>) | (c', Some err) \<Rightarrow> Panic ''exit status 2'')
      = bind_res (apply_flags (cf_flags L) registerFlags nvs c) (\<lambda>c'. Ok (c'\<lparr>ConfigFile := name\<rparr>))" for c
    using parse_registered[OF assms(1), of c "cf_glog_flags L"] by auto
  then show ?thesis unfolding Init_def name by (simp add: Let_def)
qed

definition sample_lib :: "unit config_lib" where
  "sample_lib = \<lparr>cf_flags = \<lparr>fg_ParseInt = parse_int64, fg_ParseUint = (\<lambda>s. Err (NumSyntax s)),
       fg_ParseFloat = (\<lambda>s. Err (NumSyntax s)), fg_ParseDuration = (\<lambda>s. Err (NumSyntax s))\<rparr>,
     cf_glog_flags = [(''log_dir'', StringVar (\<lambda>v c. c))], cf_ReadFile = (\<lambda>f. Ok []),
     cf_yaml_Unmarshal = (\<lambda>text c. Ok (c\<lparr>Port := 1, MaxDiskMb := 2, ConfigFile := ''x''\<rparr>)),
     cf_json_Unmarshal = (\<lambda>text c. Err (LibError [])), cf_Getenv = (\<lambda>n. [])\<rparr>"

theorem config_precedence_witness:
  "\<exists>c. Init sample_lib [''-port=7'', ''-config=a.yaml''] = Ok c \<and> Port c = 7 \<and> MaxDiskMb c = 2
     \<and> DeletionBatchSize c = 1000 \<and> ConfigFile c = ''a.yaml''"
proof -
  let ?nvs = "[(''port'', ''7''), (''config'', ''a.yaml'')]"
  have look: "map_of (registerFlags :: unit SloopConfig flag_set) ''port'' = Some (IntVar (\<lambda>v c. c\<lparr>Port := v\<rparr>))"
    "map_of (registerFlags :: unit SloopConfig flag_set) ''config'' = Some (StringVar (\<lambda>v c. c\<lparr>ConfigFile := v\<rparr>))"
    by (simp_all add: registerFlags_def)
  have seven: "parse_int64 ''7'' = Ok 7" by (simp add: parse_int64_def go_defs go_eval)
  have "\<forall>nv \<in> set ?nvs. valid_flag (cf_flags sample_lib) (registerFlags :: unit SloopConfig flag_set) nv"
    by (simp add: valid_flag_def look flag_name_def sample_lib_def seven)
  from config_precedence[OF this refl]
  have "Init sample_lib (map assignment ?nvs) = bind_res (loadFromFile sample_lib ''a.yaml'' getDefaultConfig) (\<lambda>c.
      bind_res (apply_flags (cf_flags sample_lib) registerFlags ?nvs c) (\<lambda>c'. Ok (c'\<lparr>ConfigFile := ''a.yaml''\<rparr>)))" by simp
  then show ?thesis
    by (simp add: look assignment_def loadFromFile_def panic_on_err_def sample_lib_def seven getDefaultConfig_def)
qed

text \<open>
  C38: a glog flag hides the file. The set of flags of the first pass has only some of the flags that
  glog registers: \<open>-log_dir\<close>, which the second pass accepts, ends the first one, so that a
  \<open>-config\<close> behind it is not seen. Without a file in the environment the program then starts
  with its defaults, and says that it read no file.
\<close>

theorem log_dir_hides_config:
  fixes L :: "'r config_lib"
  assumes "map_of (cf_glog_flags L) ''log_dir'' = Some (StringVar (\<lambda>v c. c))" "cf_Getenv L ''SLOOP_CONFIG'' = []"
  shows "Init L [''-log_dir='' @ d, ''-config='' @ f] = Ok getDefaultConfig"
proof -
  have names: "flag_name ''log_dir''" "flag_name ''config''" by (simp_all add: flag_name_def)
  have args: "[''-log_dir='' @ d, ''-config='' @ f] = [assignment (''log_dir'', d), assignment (''config'', f)]"
    by (simp add: assignment_def)
  have no: "map_of (registerFlags :: 'r SloopConfig flag_set) ''log_dir'' = None" "map_of (registerDummyGlogFlags :: 'r SloopConfig flag_set) ''log_dir'' = None"
    by (simp_all add: registerFlags_def registerDummyGlogFlags_def)
  have first: "getConfigFilePath L (assignment (''log_dir'', d) # args) = []" for args
    using assms(2) no
    by (simp add: getConfigFilePath_def getConfigFlag_def parse_assignment[OF names(1)] map_add_def empty_config_file
        sloopConfigEnvVar_def del: parse_flags.simps)
  have look: "map_of (registerFlags @ cf_glog_flags L) ''log_dir'' = Some (StringVar (\<lambda>v c. c))"
    using assms(1) no(1) by (simp add: map_add_def)
  have "parse_flags (cf_flags L) (registerFlags @ cf_glog_flags L) [assignment (''log_dir'', d), assignment (''config'', f)] c
      = (c\<lparr>ConfigFile := f\<rparr>, None)" for c
    by (simp only: parse_assignment[OF names(1)] parse_assignment[OF names(2)] look config_flag option.case
        set_flag.simps res.case parse_flags.simps(1))
  then show ?thesis
    unfolding args Init_def first by (simp add: getDefaultConfig_def Let_def)
qed

theorem log_dir_hides_config_witness:
  "\<exists>c. Init sample_lib [''-log_dir=/var/log'', ''-config=a.yaml''] = Ok c \<and> Port c = 8080"
  using log_dir_hides_config[of sample_lib "''/var/log''" "''a.yaml''"]
  by (simp add: sample_lib_def getDefaultConfig_def)

end
