(* ===== verification/GarbageCollect.thy ===== *)
theory GarbageCollect
  imports Tables GoFloat
begin

text \<open>
  The clean-up of \<open>pkg/sloop/storemanager/storemanager.go\<close>: which partitions are dropped, when,
  and how. \<open>B\<close> is the store, \<open>pd\<close> the partition duration, \<open>plat\<close> the platform's answer to a
  conversion of a float that does not fit. Metrics, logging and the clock are left out. A
  function that calls \<open>DeleteKeysWithPrefix\<close> or reads the histogram returns \<open>None\<close> when that
  does not end.
\<close>

section \<open>The conditions\<close>

definition cleanUpTimeCondition :: "int \<Rightarrow> string \<Rightarrow> string \<Rightarrow> int \<Rightarrow> bool res" where
  "cleanUpTimeCondition pd minPartition maxPartition timeLimit =
    (case GetTimeRangeForPartition pd minPartition of
       Err e \<Rightarrow> Ok False
     | Panic m \<Rightarrow> Panic m
     | Ok (oldestTime, _) \<Rightarrow>
        (case GetTimeRangeForPartition pd maxPartition of
           Err e \<Rightarrow> Ok False
         | Panic m \<Rightarrow> Panic m
         | Ok (_, latestTime) \<Rightarrow>
             let timeDiff = time_Sub latestTime oldestTime
             in if timeDiff > timeLimit then Ok True else Ok False))"

definition hasFilesOnDiskExceededThreshold :: "int \<Rightarrow> int \<Rightarrow> f64 \<Rightarrow> bool" where
  "hasFilesOnDiskExceededThreshold diskSizeBytes sizeLimitBytes gcThreshold =
    (let sizeThreshold = f_mul gcThreshold (f_of_int sizeLimitBytes);
         currentDiskSize = f_of_int diskSizeBytes
     in f_less sizeThreshold currentDiskSize)"

definition cleanUpFileSizeCondition :: "int \<Rightarrow> int \<Rightarrow> f64 \<Rightarrow> bool \<Rightarrow> int \<Rightarrow> bool" where
  "cleanUpFileSizeCondition diskSizeBytes sizeLimitBytes gcThreshold enableDeleteKeys numOfKeysToDelete =
    (if enableDeleteKeys then numOfKeysToDelete > 0
     else hasFilesOnDiskExceededThreshold diskSizeBytes sizeLimitBytes gcThreshold)"

definition getGarbageCollectionRatio :: "f64 \<Rightarrow> int \<Rightarrow> f64 \<Rightarrow> f64" where
  "getGarbageCollectionRatio currentDiskSize sizeLimitBytes gcThreshold =
    (let sizeThreshold = f_mul gcThreshold (f_of_int sizeLimitBytes)
     in if f_less sizeThreshold currentDiskSize
        then f_div (f_sub currentDiskSize sizeThreshold) currentDiskSize
        else Fin 0)"

definition getNumberOfKeysToDelete :: "(f64 \<Rightarrow> int) \<Rightarrow> f64 \<Rightarrow> nat \<Rightarrow> int" where
  "getNumberOfKeysToDelete plat garbageCollectionRatio totalKeyCount =
    (if f_le garbageCollectionRatio (Fin 0) \<or> f_less (Fin 1) garbageCollectionRatio then 0
     else let keysToDelete = f_mul garbageCollectionRatio (f_of_int (int totalKeyCount))
          in f_to_uint64 plat (f_Ceil keysToDelete))"

section \<open>Choosing the partitions\<close>

text \<open>
  The loop of \<open>getPartitionsToDeleteWhenSizeConditionHasBeenMet\<close>; the list argument is the rest
  of the sorted partitions, whose head the index points at.
\<close>

fun size_loop ::
  "int \<Rightarrow> (string \<times> PartitionInfo) list \<Rightarrow> string list \<Rightarrow> int \<Rightarrow> string list \<Rightarrow> string list res" where
  "size_loop num partitionMap [] keysToBeCollected partitionsToDelete =
    (if keysToBeCollected < num then Panic ''index out of range'' else Ok partitionsToDelete)"
| "size_loop num partitionMap (p # ps) keysToBeCollected partitionsToDelete =
    (if keysToBeCollected < num
     then size_loop num partitionMap ps
            (keysToBeCollected + int (pi_TotalKeyCount (info_of partitionMap p))) (partitionsToDelete @ [p])
     else Ok partitionsToDelete)"

definition getPartitionsToDeleteWhenSizeConditionHasBeenMet ::
  "(f64 \<Rightarrow> int) \<Rightarrow> int \<Rightarrow> int \<Rightarrow> f64 \<Rightarrow> nat \<Rightarrow> (string \<times> PartitionInfo) list \<Rightarrow> string list \<Rightarrow> string list res" where
  "getPartitionsToDeleteWhenSizeConditionHasBeenMet plat sizeLimitBytes diskSizeBytes gcThreshold
      totalKeysCount partitionMap sortedPartitionsList =
    (let garbageCollectionRatio = getGarbageCollectionRatio (f_of_int diskSizeBytes) sizeLimitBytes gcThreshold;
         numOfKeys = getNumberOfKeysToDelete plat garbageCollectionRatio totalKeysCount
     in size_loop numOfKeys partitionMap sortedPartitionsList 0 [])"

text \<open>
  The second loop adds the partitions that are too old; afterwards the code reads the first
  partition that is left for a metric, which is out of range when none is left.
\<close>

fun time_loop :: "int \<Rightarrow> string \<Rightarrow> int \<Rightarrow> string list \<Rightarrow> string list \<Rightarrow> string list res" where
  "time_loop pd maxPartition timeLimit [] partitionsToDelete = Panic ''index out of range''"
| "time_loop pd maxPartition timeLimit (p # ps) partitionsToDelete =
    bind_res (cleanUpTimeCondition pd p maxPartition timeLimit) (\<lambda>old.
      if old then time_loop pd maxPartition timeLimit ps (partitionsToDelete @ [p])
      else Ok partitionsToDelete)"

definition getPartitionsToDelete ::
  "('db, 'txn, 'it) badger \<Rightarrow> int \<Rightarrow> (f64 \<Rightarrow> int) \<Rightarrow> 'db \<Rightarrow> int \<Rightarrow> int \<Rightarrow> int \<Rightarrow> f64
     \<Rightarrow> (string list \<times> (string \<times> PartitionInfo) list) res option" where
  "getPartitionsToDelete B pd plat db timeLimit sizeLimitBytes diskSizeBytes gcThreshold =
    (case GetMinAndMaxPartition B db of
       Err e \<Rightarrow> Some (Ok ([], []))
     | Panic m \<Rightarrow> Some (Panic m)
     | Ok (ok, minPartition, maxPartition) \<Rightarrow>
       if \<not> ok then Some (Ok ([], []))
       else let sizeConditionMet = hasFilesOnDiskExceededThreshold diskSizeBytes sizeLimitBytes gcThreshold
       in case (if sizeConditionMet then Ok True else cleanUpTimeCondition pd minPartition maxPartition timeLimit) of
         Err e \<Rightarrow> Some (Err e)
       | Panic m \<Rightarrow> Some (Panic m)
       | Ok needCleanUp \<Rightarrow>
         if \<not> needCleanUp then Some (Ok ([], []))
         else map_option (\<lambda>r. bind_res r (\<lambda>(partitionMap, totalKeysCount).
           let sortedPartitionsList = GetSortedPartitionIDs partitionMap
           in bind_res
             (if sizeConditionMet
              then getPartitionsToDeleteWhenSizeConditionHasBeenMet plat sizeLimitBytes diskSizeBytes
                     gcThreshold totalKeysCount partitionMap sortedPartitionsList
              else Ok [])
             (\<lambda>partitionsToDelete.
               if length partitionsToDelete = length sortedPartitionsList
               then Ok (partitionsToDelete, partitionMap)
               else bind_res
                 (time_loop pd maxPartition timeLimit
                   (drop (length partitionsToDelete) sortedPartitionsList) partitionsToDelete)
                 (\<lambda>ps. Ok (ps, partitionMap)))))
           (GetPartitionsInfo B db))"

section \<open>Deleting them\<close>

text \<open>
  One table of a partition. Both calls of \<open>DropPrefix\<close> assign the same error variable, so
  the error of the first is lost. An error message leaves out the elapsed time and the error.
\<close>

definition delete_table ::
  "('db, 'txn, 'it) badger \<Rightarrow> int \<Rightarrow> bool \<Rightarrow> PartitionInfo \<Rightarrow> string \<Rightarrow> string \<Rightarrow> 'db
     \<Rightarrow> (nat \<times> nat \<times> string list \<times> 'db) res option" where
  "delete_table B deletionBatchSize enableDeleteKeys partitionInfo minPartition tableName db =
    (let pre = ''/'' @ tableName @ ''/'' @ minPartition;
         numberOfKeysToRemove = map_count (pi_TableNameToKeyCountMap partitionInfo) tableName;
         messages = (\<lambda>err. case err of None \<Rightarrow> [] | Some e \<Rightarrow> [''failed to cleanup with min key: '' @ pre])
     in if enableDeleteKeys then
          map_option (\<lambda>r. bind_res r (\<lambda>(err, deleted, toDelete, db').
              Ok (deleted, toDelete, messages err, db')))
            (DeleteKeysWithPrefix B pre db deletionBatchSize numberOfKeysToRemove)
        else
          (let (err1, db1) = db_DropPrefix B db pre;
               (err, db2) = db_DropPrefix B db1 (''!badger!move'' @ pre)
           in Some (Ok (numberOfKeysToRemove, numberOfKeysToRemove, messages err, db2))))"

fun delete_tables ::
  "('db, 'txn, 'it) badger \<Rightarrow> int \<Rightarrow> bool \<Rightarrow> PartitionInfo \<Rightarrow> string \<Rightarrow> string list \<Rightarrow> 'db \<Rightarrow> nat \<Rightarrow> nat
     \<Rightarrow> string list \<Rightarrow> (nat \<times> nat \<times> string list \<times> 'db) res option" where
  "delete_tables B batch enable info minPartition [] db deleted toDelete errMessages =
    Some (Ok (deleted, toDelete, errMessages, db))"
| "delete_tables B batch enable info minPartition (tableName # tableNames) db deleted toDelete errMessages =
    Option.bind (delete_table B batch enable info minPartition tableName db) (\<lambda>r. case r of
      Ok (n, k, msgs, db') \<Rightarrow>
        delete_tables B batch enable info minPartition tableNames db' (deleted + n) (toDelete + k) (errMessages @ msgs)
    | Err e \<Rightarrow> Some (Err e)
    | Panic m \<Rightarrow> Some (Panic m))"

definition deletePartition ::
  "('db, 'txn, 'it) badger \<Rightarrow> int \<Rightarrow> string \<Rightarrow> 'db \<Rightarrow> int \<Rightarrow> bool \<Rightarrow> PartitionInfo
     \<Rightarrow> (nat \<times> nat \<times> string list \<times> 'db) res option" where
  "deletePartition B pd minPartition db deletionBatchSize enableDeleteKeys partitionInfo =
    (case GetTimeRangeForPartition pd minPartition of
       Panic m \<Rightarrow> Some (Panic m)
     | _ \<Rightarrow> delete_tables B deletionBatchSize enableDeleteKeys partitionInfo minPartition
              (GetTableNames (NewTableList db)) db 0 0 [])"

text \<open>The result of \<open>doCleanup\<close>: whether it cleaned up, the two totals, the error, and the store.\<close>

record 'db cleanup =
  cl_performed :: bool
  cl_deleted :: nat
  cl_toDelete :: nat
  cl_err :: "gerror option"
  cl_db :: 'db

fun cleanup_loop ::
  "('db, 'txn, 'it) badger \<Rightarrow> int \<Rightarrow> int \<Rightarrow> bool \<Rightarrow> (string \<times> PartitionInfo) list \<Rightarrow> string list
     \<Rightarrow> 'db cleanup \<Rightarrow> 'db cleanup res option" where
  "cleanup_loop B pd batch enable infos [] s = Some (Ok s)"
| "cleanup_loop B pd batch enable infos (p # ps) s =
    Option.bind (deletePartition B pd p (cl_db s) batch enable (info_of infos p)) (\<lambda>r. case r of
      Ok (n, k, errMessages, db') \<Rightarrow>
        if errMessages \<noteq> []
        then Some (Ok (s\<lparr>cl_performed := False, cl_db := db',
               cl_err := Some (Errorf (concat (map (\<lambda>er. er @ '','') errMessages)))\<rparr>))
        else cleanup_loop B pd batch enable infos ps
               \<lparr>cl_performed = True, cl_deleted = cl_deleted s + n, cl_toDelete = cl_toDelete s + k,
                cl_err = None, cl_db = db'\<rparr>
    | Err e \<Rightarrow> Some (Err e)
    | Panic m \<Rightarrow> Some (Panic m))"

definition doCleanup ::
  "('db, 'txn, 'it) badger \<Rightarrow> int \<Rightarrow> (f64 \<Rightarrow> int) \<Rightarrow> 'db \<Rightarrow> int \<Rightarrow> int \<Rightarrow> int \<Rightarrow> int \<Rightarrow> f64 \<Rightarrow> bool
     \<Rightarrow> 'db cleanup res option" where
  "doCleanup B pd plat db timeLimit sizeLimitBytes diskSizeBytes deletionBatchSize gcThreshold enableDeletePrefix =
    Option.bind (getPartitionsToDelete B pd plat db timeLimit sizeLimitBytes diskSizeBytes gcThreshold) (\<lambda>r.
      case r of
        Err e \<Rightarrow> Some (Err e)
      | Panic m \<Rightarrow> Some (Panic m)
      | Ok (partitionsToDelete, partitionsInfoMap) \<Rightarrow>
          map_option (\<lambda>r. bind_res r (\<lambda>s.
              if cl_err s \<noteq> None then Ok s
              else if enableDeletePrefix
              then let (err, db') = db_DropPrefix B (cl_db s) [] in Ok (s\<lparr>cl_db := db'\<rparr>)
              else Ok s))
            (cleanup_loop B pd deletionBatchSize enableDeletePrefix partitionsInfoMap partitionsToDelete
              \<lparr>cl_performed = False, cl_deleted = 0, cl_toDelete = 0, cl_err = None, cl_db = db\<rparr>))"

section \<open>Lemmas\<close>

subsection \<open>The number of keys to delete\<close>

lemma ratio_not_nan: "0 < c \<Longrightarrow> getGarbageCollectionRatio (Fin c) limit thr \<noteq> NaN"
  by (cases "f_mul thr (f_of_int limit)")
     (auto simp: getGarbageCollectionRatio_def f_sub_def fround_def)

lemma f_to_uint64_int: "0 \<le> z \<Longrightarrow> z < 2 ^ 64 \<Longrightarrow> f_to_uint64 plat (Fin (of_int z)) = z"
  by (simp add: trunc_def)

lemma keys_to_delete_le:
  assumes "int n \<le> 2 ^ 53" "r \<noteq> NaN"
  shows "getNumberOfKeysToDelete plat r n \<le> int n"
proof (cases r)
  case (Fin x)
  show ?thesis
  proof (cases "x \<le> 0 \<or> 1 < x")
    case True
    then show ?thesis using Fin by (auto simp: getNumberOfKeysToDelete_def f_le_def)
  next
    case False
    then have x: "0 \<le> x * of_int (int n)" "x * of_int (int n) \<le> of_int (int n)"
      by (simp_all add: mult_left_le_one_le)
    obtain y where y: "fround (x * of_int (int n)) = Fin y" "0 \<le> y" "y \<le> of_int (int n)"
      using fround_small[OF x assms(1)] .
    have c: "0 \<le> \<lceil>y\<rceil>" "\<lceil>y\<rceil> \<le> int n" using y(2,3) by (simp_all add: ceiling_le_iff)
    have "\<lceil>y\<rceil> \<le> 2 ^ 53" using c(2) assms(1) by (rule order_trans)
    also have "(2::int) ^ 53 < 2 ^ 64" by simp
    finally have "\<lceil>y\<rceil> < 2 ^ 64" .
    with c(1) have v: "f_to_uint64 plat (Fin (of_int \<lceil>y\<rceil>)) = \<lceil>y\<rceil>" by (rule f_to_uint64_int)
    then show ?thesis
      using False Fin f_of_int_small[of "int n"] assms(1) y(1) c
      by (simp add: getNumberOfKeysToDelete_def f_le_def v del: f_to_uint64.simps)
  qed
next
  case (Inf s)
  then show ?thesis by (cases s) (auto simp: getNumberOfKeysToDelete_def f_le_def)
qed (use assms in simp)

subsection \<open>The loops\<close>

lemma size_loop_ok:
  assumes "num \<le> c + (\<Sum>p\<leftarrow>ps. int (pi_TotalKeyCount (info_of m p)))"
  shows "\<exists>k. size_loop num m ps c acc = Ok (acc @ take k ps) \<and> k \<le> length ps
    \<and> num \<le> c + (\<Sum>p\<leftarrow>take k ps. int (pi_TotalKeyCount (info_of m p)))
    \<and> (\<forall>j < k. c + (\<Sum>p\<leftarrow>take j ps. int (pi_TotalKeyCount (info_of m p))) < num)"
  using assms
proof (induction ps arbitrary: c acc)
  case Nil
  then show ?case by simp
next
  case (Cons p ps)
  show ?case
  proof (cases "c < num")
    case False
    then show ?thesis by (intro exI[of _ 0]) simp
  next
    case True
    let ?c = "c + int (pi_TotalKeyCount (info_of m p))"
    obtain k where k: "size_loop num m ps ?c (acc @ [p]) = Ok ((acc @ [p]) @ take k ps)" "k \<le> length ps"
      "num \<le> ?c + (\<Sum>p\<leftarrow>take k ps. int (pi_TotalKeyCount (info_of m p)))"
      "\<forall>j < k. ?c + (\<Sum>p\<leftarrow>take j ps. int (pi_TotalKeyCount (info_of m p))) < num"
      using Cons.IH[of ?c "acc @ [p]"] Cons.prems by (auto simp: add.assoc)
    have "c + (\<Sum>p\<leftarrow>take j (p # ps). int (pi_TotalKeyCount (info_of m p))) < num" if "j < Suc k" for j
      using that k(4) True by (cases j) (auto simp: add.assoc)
    then show ?thesis using k True by (intro exI[of _ "Suc k"]) (auto simp: add.assoc)
  qed
qed

lemma size_loop_take: "size_loop num m ps c acc = Ok r \<Longrightarrow> \<exists>k. r = acc @ take k ps"
proof (induction ps arbitrary: c acc)
  case Nil
  then show ?case by (auto split: if_splits)
next
  case (Cons p ps)
  show ?case
  proof (cases "c < num")
    case True
    then obtain k where "r = (acc @ [p]) @ take k ps" using Cons by fastforce
    then show ?thesis by (intro exI[of _ "Suc k"]) simp
  next
    case False
    then show ?thesis using Cons.prems by (intro exI[of _ 0]) simp
  qed
qed

lemma time_loop_takeWhile:
  assumes "time_loop pd mx limit ps acc = Ok r"
  shows "r = acc @ takeWhile (\<lambda>p. cleanUpTimeCondition pd p mx limit = Ok True) ps"
  using assms
proof (induction ps arbitrary: acc)
  case (Cons p ps)
  then obtain old where "cleanUpTimeCondition pd p mx limit = Ok old"
    "(if old then time_loop pd mx limit ps (acc @ [p]) else Ok acc) = Ok r"
    by (auto simp: bind_res_Ok_iff)
  then show ?case using Cons.IH[of "acc @ [p]"] by (cases old) auto
qed simp

lemma time_loop_panic:
  assumes "\<forall>p \<in> set ps. cleanUpTimeCondition pd p mx limit = Ok True"
  shows "time_loop pd mx limit ps acc = Panic ''index out of range''"
  using assms by (induction ps arbitrary: acc) auto

lemma time_condition_range:
  assumes "cleanUpTimeCondition pd p mx limit = Ok True" "- (2 ^ 63) \<le> limit"
  shows "\<exists>lo hi lo' hi'. GetTimeRangeForPartition pd p = Ok (lo, hi)
    \<and> GetTimeRangeForPartition pd mx = Ok (lo', hi') \<and> limit < tns hi' - tns lo"
  using assms by (auto simp: cleanUpTimeCondition_def time_Sub_def Let_def split: res.splits if_splits)

text \<open>What a successful choice looks like.\<close>

lemma getPartitionsToDelete_OkE:
  assumes "getPartitionsToDelete B pd plat db limit szlim disk thr = Some (Ok (ps, m))"
  obtains "ps = []" "m = []"
  | mn mx n qs where "GetMinAndMaxPartition B db = Ok (True, mn, mx)" "GetPartitionsInfo B db = Some (Ok (m, n))"
      "if hasFilesOnDiskExceededThreshold disk szlim thr
       then getPartitionsToDeleteWhenSizeConditionHasBeenMet plat szlim disk thr n m (GetSortedPartitionIDs m) = Ok qs
       else qs = []"
      "length qs = length (GetSortedPartitionIDs m) \<and> ps = qs
       \<or> time_loop pd mx limit (drop (length qs) (GetSortedPartitionIDs m)) qs = Ok ps"
  using assms
  by (auto simp: getPartitionsToDelete_def bind_res_Ok_iff Let_def split: res.splits if_splits)

lemma getPartitionsToDelete_take:
  assumes "getPartitionsToDelete B pd plat db limit szlim disk thr = Some (Ok (ps, m))"
  shows "\<exists>k. ps = take k (GetSortedPartitionIDs m)"
  using assms
proof (cases rule: getPartitionsToDelete_OkE)
  case (2 mn mx n qs)
  have "\<exists>k. qs = take k (GetSortedPartitionIDs m)"
    using 2(3) size_loop_take[of _ m "GetSortedPartitionIDs m" 0 "[]" qs]
    by (auto simp: getPartitionsToDeleteWhenSizeConditionHasBeenMet_def Let_def split: if_splits)
  then have qs: "qs = take (length qs) (GetSortedPartitionIDs m)" by (metis length_take min.commute take_take take_all_iff nle_le)
  show ?thesis
  proof (cases "length qs = length (GetSortedPartitionIDs m) \<and> ps = qs")
    case True
    then show ?thesis using qs by metis
  next
    case False
    then have "ps = qs @ takeWhile (\<lambda>p. cleanUpTimeCondition pd p mx limit = Ok True)
        (drop (length qs) (GetSortedPartitionIDs m))"
      using 2(4) time_loop_takeWhile by blast
    then have "ps = take (length qs) (GetSortedPartitionIDs m) @ take (length ps - length qs) (drop (length qs) (GetSortedPartitionIDs m))"
      using qs takeWhile_eq_take by (metis add_diff_cancel_left' length_append)
    then show ?thesis by (metis take_add)
  qed
qed auto

subsection \<open>Dropping partitions\<close>

lemma valid_range_no_panic: "valid_pd pd \<Longrightarrow> GetTimeRangeForPartition pd p \<noteq> Panic x"
  by (auto simp: GetTimeRangeForPartition_def valid_pd_def bind_res_Panic_iff)

text \<open>The keys that dropping a partition removes: those below its prefix in one of the tables.\<close>

definition gc_match :: "string \<Rightarrow> string \<Rightarrow> bool" where
  "gc_match p k \<longleftrightarrow> (\<exists>t \<in> set (GetTableNames (NewTableList ())). del_match (''/'' @ t @ ''/'' @ p) k)"

lemma table_names_any: "GetTableNames (NewTableList d) = GetTableNames (NewTableList ())"
  by (simp add: GetTableNames_def NewTableList_def)

context badger_store
begin

lemma drop_table:
  assumes "dok d"
  shows "\<exists>n d'. delete_table B batch False info p t d = Some (Ok (n, n, [], d')) \<and> dok d'
    \<and> dview d' = (\<lambda>k. if del_match (''/'' @ t @ ''/'' @ p) k then None else dview d k)"
proof -
  let ?p = "''/'' @ t @ ''/'' @ p"
  obtain d1 where d1: "db_DropPrefix B d ?p = (None, d1)" "dok d1"
    "dview d1 = (\<lambda>k. if prefix ?p k then None else dview d k)"
    using drop[OF assms, of ?p] by auto
  obtain d2 where d2: "db_DropPrefix B d1 (''!badger!move'' @ ?p) = (None, d2)" "dok d2"
    "dview d2 = (\<lambda>k. if prefix (''!badger!move'' @ ?p) k then None else dview d1 k)"
    using drop[OF d1(2), of "''!badger!move'' @ ?p"] by auto
  have view: "dview d2 = (\<lambda>k. if del_match ?p k then None else dview d k)"
    unfolding d2(3) d1(3) del_match_def by (rule ext) simp
  have "delete_table B batch False info p t d = Some (Ok (map_count (pi_TableNameToKeyCountMap info) t,
      map_count (pi_TableNameToKeyCountMap info) t, [], d2))"
    using d1(1) d2(1) by (simp add: delete_table_def Let_def)
  then show ?thesis using d2(2) view by blast
qed

lemma drop_tables:
  assumes "dok d"
  shows "\<exists>n k d'. delete_tables B batch False info p ts d a b [] = Some (Ok (n, k, [], d')) \<and> dok d'
    \<and> dview d' = (\<lambda>k. if \<exists>t \<in> set ts. del_match (''/'' @ t @ ''/'' @ p) k then None else dview d k)"
  using assms
proof (induction ts arbitrary: d a b)
  case (Cons t ts)
  obtain n d1 where d1: "delete_table B batch False info p t d = Some (Ok (n, n, [], d1))" "dok d1"
    "dview d1 = (\<lambda>k. if del_match (''/'' @ t @ ''/'' @ p) k then None else dview d k)"
    using drop_table[OF Cons.prems, of batch info p t] by blast
  obtain n' k' d2 where d2: "delete_tables B batch False info p ts d1 (a + n) (b + n) [] = Some (Ok (n', k', [], d2))"
    "dok d2" "dview d2 = (\<lambda>k. if \<exists>t \<in> set ts. del_match (''/'' @ t @ ''/'' @ p) k then None else dview d1 k)"
    using Cons.IH[OF d1(2), of "a + n" "b + n"] by blast
  show ?case
    unfolding delete_tables.simps d1(1) using d2 by (auto simp: d1(3) fun_eq_iff)
qed simp

lemma drop_partition:
  assumes "dok d" "valid_pd pd"
  shows "\<exists>n k d'. deletePartition B pd p d batch False info = Some (Ok (n, k, [], d')) \<and> dok d'
    \<and> dview d' = (\<lambda>k. if gc_match p k then None else dview d k)"
  using drop_tables[OF assms(1), of batch info p "GetTableNames (NewTableList ())" 0 0]
    valid_range_no_panic[OF assms(2), of p]
  by (auto simp: deletePartition_def gc_match_def table_names_any[of d] split: res.split)

lemma drop_partitions:
  assumes "dok (cl_db s)" "valid_pd pd" "cl_err s = None"
  shows "\<exists>s'. cleanup_loop B pd batch False infos ps s = Some (Ok s') \<and> cl_err s' = None
    \<and> (cl_performed s' \<longleftrightarrow> cl_performed s \<or> ps \<noteq> []) \<and> dok (cl_db s')
    \<and> dview (cl_db s') = (\<lambda>k. if \<exists>p \<in> set ps. gc_match p k then None else dview (cl_db s) k)"
  using assms(1,3)
proof (induction ps arbitrary: s)
  case (Cons p ps)
  obtain n k d1 where d1: "deletePartition B pd p (cl_db s) batch False (info_of infos p) = Some (Ok (n, k, [], d1))"
    "dok d1" "dview d1 = (\<lambda>k. if gc_match p k then None else dview (cl_db s) k)"
    using drop_partition[OF Cons.prems(1) assms(2), of p batch "info_of infos p"] by blast
  let ?s = "\<lparr>cl_performed = True, cl_deleted = cl_deleted s + n, cl_toDelete = cl_toDelete s + k,
    cl_err = None, cl_db = d1\<rparr>"
  obtain s' where "cleanup_loop B pd batch False infos ps ?s = Some (Ok s')" "cl_err s' = None"
    "cl_performed s'" "dok (cl_db s')"
    "dview (cl_db s') = (\<lambda>k. if \<exists>p \<in> set ps. gc_match p k then None else dview d1 k)"
    using Cons.IH[of ?s] d1(2) unfolding cleanup.simps by auto
  then show ?case
    unfolding cleanup_loop.simps d1(1) by (auto simp: d1(3) fun_eq_iff)
qed simp

end

lemma doCleanup_drops:
  assumes "badger_store B dview dok tview tok writable ahead iopts" "dok d" "valid_pd pd"
    and "getPartitionsToDelete B pd plat d limit szlim disk thr = Some (Ok (ps, m))"
  shows "\<exists>s. doCleanup B pd plat d limit szlim disk batch thr False = Some (Ok s)
    \<and> cl_err s = None \<and> (cl_performed s \<longleftrightarrow> ps \<noteq> []) \<and> dok (cl_db s)
    \<and> dview (cl_db s) = (\<lambda>k. if \<exists>p \<in> set ps. gc_match p k then None else dview d k)"
  using badger_store.drop_partitions[OF assms(1) _ assms(3), where ps = ps and infos = m and batch = batch
      and s = "\<lparr>cl_performed = False, cl_deleted = 0, cl_toDelete = 0, cl_err = None, cl_db = d\<rparr>"] assms(2)
  by (auto simp: doCleanup_def assms(4) fun_eq_iff)

section \<open>A sample store\<close>

text \<open>Two rows of the watch activity table, two hours apart: the witnesses clean it up.\<close>

definition sample_store :: MockDb where
  "sample_store = \<lparr>mock_data = [(''/watchactivity/001546398000/P/ns/n/u'', ''v''),
     (''/watchactivity/001546405200/P/ns/n/u'', ''w'')]\<rparr>"

lemma sample_dom: "dom (mock_dview sample_store)
    = {''/watchactivity/001546398000/P/ns/n/u'', ''/watchactivity/001546405200/P/ns/n/u''}"
  by (auto simp: sample_store_def mock_dview_def)

lemma sample_ok: "mock_dok sample_store"
  by (simp add: sample_store_def mock_dok_def)

lemma sample_parse:
  "WatchActivityKey_Parse ''/watchactivity/001546398000/P/ns/n/u''
    = Ok \<lparr>wa_PartitionId = ''001546398000'', wa_Kind = ''P'', wa_Namespace = ''ns'', wa_Name = ''n'', wa_Uid = ''u''\<rparr>"
  "WatchActivityKey_Parse ''/watchactivity/001546405200/P/ns/n/u''
    = Ok \<lparr>wa_PartitionId = ''001546405200'', wa_Kind = ''P'', wa_Namespace = ''ns'', wa_Name = ''n'', wa_Uid = ''u''\<rparr>"
  by (simp_all add: WatchActivityKey_Parse_def parse_table_key_def ParseKey_def WatchActivityKey_TableName_def)

lemma sample_ids:
  "key_id ''/watchactivity/001546398000/P/ns/n/u'' = Some (''watchactivity'', ''001546398000'')"
  "key_id ''/watchactivity/001546405200/P/ns/n/u'' = Some (''watchactivity'', ''001546405200'')"
  by (simp_all add: key_id_def GetSloopKey_def ParseKey_def)

lemma sample_tables: "tables_parse (mock_dview sample_store)"
  by (simp add: tables_parse_def table_parses_def sample_dom key_ops_defs sample_parse go_defs
      table_prefix_def OpenTable_def table_names)

lemma activity_key_sel:
  "k_Parse activity_key_ops = WatchActivityKey_Parse" "k_PartitionId activity_key_ops = wa_PartitionId"
  by (simp_all add: activity_key_ops_def)

lemma table_partitions_image:
  "table_partitions K m = (\<Union>s \<in> set (table_keys K m). {p. \<exists>k. k_Parse K s = Ok k \<and> p = k_PartitionId K k})"
  by (auto simp: table_partitions_def)

lemma sample_partitions: "all_partitions (mock_dview sample_store) = {''001546398000'', ''001546405200''}"
proof -
  have k: "set (table_keys activity_key_ops (mock_dview sample_store)) = dom (mock_dview sample_store)"
    "table_keys event_key_ops (mock_dview sample_store) = []"
    "table_keys ressum_key_ops (mock_dview sample_store) = []"
    "table_keys watch_key_ops (mock_dview sample_store) = []"
    by (auto simp: table_keys_def sample_dom key_ops_defs table_prefix_def OpenTable_def table_names)
  show ?thesis
    unfolding all_partitions_def table_partitions_image k sample_dom
    by (simp add: activity_key_sel sample_parse insert_commute)
qed

lemma sample_min_max: "GetMinAndMaxPartition mock_ops sample_store = Ok (True, ''001546398000'', ''001546405200'')"
  using mock.min_and_max_partition[OF sample_ok sample_tables]
  by (auto simp: sample_partitions less_eq_char_def)

lemma sample_info:
  "\<exists>m. GetPartitionsInfo mock_ops sample_store = Some (Ok (m, 2))
    \<and> GetSortedPartitionIDs m = [''001546398000'', ''001546405200'']"
proof -
  obtain r where "GetPartitionsInfo mock_ops sample_store = Some (Ok r)"
    "hist_ok (keys_of (mock_dview sample_store)) r"
    using mock.partitions_info[OF sample_ok] by blast
  then obtain m n where m: "GetPartitionsInfo mock_ops sample_store = Some (Ok (m, n))"
    "hist_ok (keys_of (mock_dview sample_store)) (m, n)" by (cases r) simp
  have ks: "keys_of (mock_dview sample_store)
      = [''/watchactivity/001546398000/P/ns/n/u'', ''/watchactivity/001546405200/P/ns/n/u'']"
    unfolding sample_dom by (simp add: less_char_def)
  note h = m(2)[unfolded ks hist_ok_def fst_conv snd_conv]
  have n: "n = 2" using h by (simp add: sample_ids)
  have "fst ` set m = {''001546398000'', ''001546405200''}"
    using h by (simp add: sample_ids set_eq_iff eq_commute[of "''001546398000''"] eq_commute[of "''001546405200''"])
  then have "set (GetSortedPartitionIDs m) = {''001546398000'', ''001546405200''}"
    by (simp only: sort_partition_ids_set)
  moreover have "distinct (GetSortedPartitionIDs m)" "sorted (GetSortedPartitionIDs m)"
    using m(2) by (simp_all add: hist_ok_def GetSortedPartitionIDs_def)
  ultimately have "GetSortedPartitionIDs m = sorted_list_of_set {''001546398000'', ''001546405200''}"
    by (metis sorted_list_of_set.idem_if_sorted_distinct)
  then show ?thesis using m(1) n by (simp add: less_char_def)
qed

lemma sample_ranges:
  "GetTimeRangeForPartition Hour ''001546398000'' = Ok (Time 1546398000000000000 UTC, Time 1546401600000000000 UTC)"
  "GetTimeRangeForPartition Hour ''001546405200'' = Ok (Time 1546405200000000000 UTC, Time 1546408800000000000 UTC)"
  by (simp_all add: GetTimeRangeForPartition_def GetTimeForPartition_def parse_int64_def go_defs Let_def)

lemma sample_conditions:
  "cleanUpTimeCondition Hour ''001546398000'' ''001546405200'' (2 * Hour) = Ok True"
  "cleanUpTimeCondition Hour ''001546405200'' ''001546405200'' (2 * Hour) = Ok False"
  by (simp_all add: cleanUpTimeCondition_def sample_ranges) (simp_all add: time_Sub_def Hour_def)

lemma sample_size_ok: "\<not> hasFilesOnDiskExceededThreshold 10 1000 (Fin 1)"
  using f_of_int_small[of 1000] f_of_int_small[of 10]
  by (simp add: hasFilesOnDiskExceededThreshold_def f_of_int_def)

lemma sample_choice:
  "\<exists>m. getPartitionsToDelete mock_ops Hour plat sample_store (2 * Hour) 1000 10 (Fin 1)
      = Some (Ok ([''001546398000''], m)) \<and> GetSortedPartitionIDs m = [''001546398000'', ''001546405200'']"
proof -
  show ?thesis
    using sample_info
    by (auto simp: getPartitionsToDelete_def sample_min_max sample_size_ok sample_conditions)
qed

section \<open>Properties\<close>

text \<open>
  The oldest partitions go first. Whatever triggers a clean-up, the partitions chosen for
  deletion are an initial part of the sorted list of partitions: every chosen one is older
  than every one that is kept.
\<close>

lemma gc_deletes_oldest_first:
  assumes "getPartitionsToDelete B pd plat db limit szlim disk thr = Some (Ok (ps, m))"
  shows "(\<exists>k. ps = take k (GetSortedPartitionIDs m))
    \<and> (\<forall>p \<in> set ps. \<forall>q \<in> set (GetSortedPartitionIDs m) - set ps. p < q)"
proof -
  let ?all = "GetSortedPartitionIDs m"
  obtain k where k: "ps = take k ?all" using getPartitionsToDelete_take[OF assms] by blast
  have "sorted ?all" by (simp add: GetSortedPartitionIDs_def)
  then have "sorted (take k ?all @ drop k ?all)" by simp
  then have "\<forall>p \<in> set (take k ?all). \<forall>q \<in> set (drop k ?all). p \<le> q"
    unfolding sorted_append by blast
  moreover have "q \<in> set ?all - set ps \<Longrightarrow> q \<in> set (drop k ?all)" for q
    unfolding k by (metis DiffE UnE append_take_drop_id set_append)
  ultimately show ?thesis using k by (metis DiffD2 order_le_imp_less_or_eq)
qed

lemma gc_deletes_oldest_first_witness:
  "\<exists>m. getPartitionsToDelete mock_ops Hour (\<lambda>_. 0) sample_store (2 * Hour) 1000 10 (Fin 1)
      = Some (Ok ([''001546398000''], m)) \<and> (\<exists>k. [''001546398000''] = take k (GetSortedPartitionIDs m))"
  using sample_choice gc_deletes_oldest_first by metis


text \<open>
  The size condition asks for no more keys than there are. For a store of up to
  \<open>2 ^ 53\<close> keys and a disk size of up to \<open>2 ^ 53\<close> bytes, with the float arithmetic of the code,
  the loop over the sorted partitions never runs past the last one: it returns the shortest
  initial part whose keys reach the number asked for.
\<close>

lemma size_condition_stays_in_range:
  assumes "badger_store B dview dok tview tok writable ahead iopts" "dok d"
    and "GetPartitionsInfo B d = Some (Ok (m, n))" "int n \<le> 2 ^ 53" "0 < disk" "disk \<le> 2 ^ 53"
    and num_def: "num = getNumberOfKeysToDelete plat (getGarbageCollectionRatio (f_of_int disk) szlim thr) n"
  shows "\<exists>k. getPartitionsToDeleteWhenSizeConditionHasBeenMet plat szlim disk thr n m (GetSortedPartitionIDs m)
      = Ok (take k (GetSortedPartitionIDs m))
    \<and> num \<le> (\<Sum>p\<leftarrow>take k (GetSortedPartitionIDs m). int (pi_TotalKeyCount (info_of m p)))
    \<and> (\<forall>j < k. (\<Sum>p\<leftarrow>take j (GetSortedPartitionIDs m). int (pi_TotalKeyCount (info_of m p))) < num)"
proof -
  have h: "hist_ok (keys_of (dview d)) (m, n)"
    using badger_store.partitions_info[OF assms(1,2)] assms(3) by auto
  then have dist: "distinct (map fst m)" and sum: "sum_list (map (\<lambda>pi. pi_TotalKeyCount (snd pi)) m) = n"
    by (simp_all add: hist_ok_def)
  have info: "info_of m (fst pi) = snd pi" if "pi \<in> set m" for pi
    using map_of_is_SomeI[OF dist, of "fst pi" "snd pi"] that by (simp add: info_of_def)
  have "(\<Sum>p\<leftarrow>GetSortedPartitionIDs m. int (pi_TotalKeyCount (info_of m p)))
      = (\<Sum>p\<leftarrow>map fst m. int (pi_TotalKeyCount (info_of m p)))"
    by (simp add: GetSortedPartitionIDs_def multiset.map_comp comp_def flip: sum_mset_sum_list)
  also have "\<dots> = (\<Sum>pi\<leftarrow>m. int (pi_TotalKeyCount (snd pi)))"
    unfolding map_map by (intro arg_cong[where f = sum_list] map_cong) (simp_all add: info)
  also have "\<dots> = int n" unfolding sum[symmetric] by (induction m) simp_all
  finally have total: "(\<Sum>p\<leftarrow>GetSortedPartitionIDs m. int (pi_TotalKeyCount (info_of m p))) = int n" .
  have "f_of_int disk = Fin (of_int disk)" using f_of_int_small assms(5,6) by simp
  then have "num \<le> int n"
    unfolding num_def using assms(4,5) by (intro keys_to_delete_le) (simp_all add: ratio_not_nan)
  then show ?thesis
    using size_loop_ok[of num 0 m "GetSortedPartitionIDs m" "[]"] total
    by (auto simp: getPartitionsToDeleteWhenSizeConditionHasBeenMet_def num_def Let_def)
qed

lemma size_condition_stays_in_range_witness:
  "\<exists>m k. getPartitionsToDeleteWhenSizeConditionHasBeenMet (\<lambda>_. 0) 10 1000 (Fin 1) 2 m (GetSortedPartitionIDs m)
      = Ok (take k (GetSortedPartitionIDs m)) \<and> GetSortedPartitionIDs m = [''001546398000'', ''001546405200'']"
proof -
  obtain m where m: "GetPartitionsInfo mock_ops sample_store = Some (Ok (m, 2))"
    "GetSortedPartitionIDs m = [''001546398000'', ''001546405200'']" using sample_info by blast
  obtain k where "getPartitionsToDeleteWhenSizeConditionHasBeenMet (\<lambda>_. 0) 10 1000 (Fin 1) 2 m (GetSortedPartitionIDs m)
      = Ok (take k (GetSortedPartitionIDs m))"
    using size_condition_stays_in_range[OF mock.badger_store_axioms sample_ok m(1), of 1000 _ "\<lambda>_. 0" 10 "Fin 1"]
    by auto
  then show ?thesis using m(2) by blast
qed


text \<open>
  C8: dropping partitions removes exactly their keys. Without key-by-key deletion, a clean-up
  that chose its partitions ends without an error on any store that meets the contract; it
  reports that it cleaned up exactly when it chose some partition, and the store afterwards
  lacks the keys below a chosen partition of one of the four tables and has every other
  key with its value.
\<close>

theorem cleanup_drops_exactly:
  assumes "badger_store B dview dok tview tok writable ahead iopts" "dok d" "valid_pd pd"
    and "getPartitionsToDelete B pd plat d limit szlim disk thr = Some (Ok (ps, m))"
  shows "\<exists>s. doCleanup B pd plat d limit szlim disk batch thr False = Some (Ok s)
    \<and> cl_err s = None \<and> (cl_performed s \<longleftrightarrow> ps \<noteq> []) \<and> dok (cl_db s)
    \<and> dview (cl_db s) = (\<lambda>k. if \<exists>p \<in> set ps. gc_match p k then None else dview d k)"
  using assms by (rule doCleanup_drops)

theorem cleanup_drops_exactly_witness:
  "\<exists>s. doCleanup mock_ops Hour (\<lambda>_. 0) sample_store (2 * Hour) 1000 10 5 (Fin 1) False = Some (Ok s)
     \<and> mock_dview (cl_db s) ''/watchactivity/001546405200/P/ns/n/u'' = Some ''w''"
proof -
  obtain m where m: "getPartitionsToDelete mock_ops Hour (\<lambda>_. 0) sample_store (2 * Hour) 1000 10 (Fin 1)
      = Some (Ok ([''001546398000''], m))" using sample_choice by blast
  have keep: "\<not> gc_match ''001546398000'' ''/watchactivity/001546405200/P/ns/n/u''"
    by (simp add: gc_match_def GetTableNames_def NewTableList_def OpenKubeWatchResultTable_def
        OpenResourceSummaryTable_def OpenResourceEventCountsTable_def OpenWatchActivityTable_def
        OpenTable_def key_ops_defs table_names del_match_def)
  have "mock_dview sample_store ''/watchactivity/001546405200/P/ns/n/u'' = Some ''w''"
    by (simp add: mock_dview_def sample_store_def)
  then show ?thesis
    using cleanup_drops_exactly[OF mock.badger_store_axioms sample_ok _ m, of 5] keep
    by (auto simp: valid_pd_def)
qed



text \<open>
  Every row is of a partition of a table, the partitions are identifiers of times before the
  year 33658, and there is one.
\<close>

definition sane_partitions :: "(string \<rightharpoonup> string) \<Rightarrow> bool" where
  "sane_partitions v \<longleftrightarrow> all_partitions v \<noteq> {}
    \<and> (\<forall>p \<in> all_partitions v. \<exists>s \<ge> 0. s < 10 ^ 12 \<and> p = pid s)
    \<and> (\<forall>k \<in> dom v. \<forall>t p. key_id k = Some (t, p) \<longrightarrow> p \<in> all_partitions v)
    \<and> (\<forall>p \<in> all_partitions v. \<exists>k \<in> dom v. \<exists>t. key_id k = Some (t, p))"

text \<open>
  A retention limit below the partition duration makes the clean-up panic. If the disk
  is not full, every key's partition is the start of a partition of one of the tables, and
  the limit is shorter than a partition, then every partition is too old, the second loop runs
  through the whole list, and the read after it is out of range.
\<close>

lemma short_retention_panics:
  assumes "badger_store B dview dok tview tok writable ahead iopts" "dok d" "tables_parse (dview d)"
    and "valid_pd pd" "limit < pd" "\<not> hasFilesOnDiskExceededThreshold disk szlim thr"
    and "sane_partitions (dview d)"
  shows "getPartitionsToDelete B pd plat d limit szlim disk thr = Some (Panic ''index out of range'')"
proof -
  let ?A = "all_partitions (dview d)"
  have some: "?A \<noteq> {}" and pids: "\<forall>p \<in> ?A. \<exists>s \<ge> 0. s < 10 ^ 12 \<and> p = pid s"
    and keys: "\<forall>k \<in> dom (dview d). \<forall>t p. key_id k = Some (t, p) \<longrightarrow> p \<in> ?A"
      "\<forall>p \<in> ?A. \<exists>k \<in> dom (dview d). \<exists>t. key_id k = Some (t, p)"
    using assms(7) by (simp_all add: sane_partitions_def)
  obtain mn mx where mm: "GetMinAndMaxPartition B d = Ok (True, mn, mx)" "mn \<in> ?A" "mx \<in> ?A"
    "\<forall>p \<in> ?A. mn \<le> p \<and> p \<le> mx"
    using badger_store.min_and_max_partition[OF assms(1-3)] some by auto
  obtain r where "GetPartitionsInfo B d = Some (Ok r)" "hist_ok (keys_of (dview d)) r"
    using badger_store.partitions_info[OF assms(1,2)] by blast
  then obtain m n where m: "GetPartitionsInfo B d = Some (Ok (m, n))" "hist_ok (keys_of (dview d)) (m, n)"
    by (cases r) simp
  have fin: "finite (dom (dview d))"
    using badger_store.newtxn[OF assms(1,2), of True] badger_store.finite_view[OF assms(1)] by metis
  have ids: "p \<in> set (GetSortedPartitionIDs m) \<longleftrightarrow> (\<exists>k \<in> dom (dview d). \<exists>t. key_id k = Some (t, p))" for p
    using m(2) fin by (simp add: hist_ok_def sort_partition_ids_set)
  have set: "set (GetSortedPartitionIDs m) = ?A"
    using ids keys by (intro equalityI subsetI) blast+
  obtain x where x: "0 \<le> x" "x < 10 ^ 12" "mx = pid x" using pids mm(3) by blast
  have rng: "GetTimeRangeForPartition pd (pid s) = Ok (Time (s * 1000000000) UTC, Time (s * 1000000000 + pd) UTC)"
    if "0 \<le> s" "s < 10 ^ 12" for s
    using that parse_format_012d[of "nat s"]
    by (simp add: GetTimeRangeForPartition_Ok_iff[OF assms(4)] pid_def time_Add_def)
  have old: "cleanUpTimeCondition pd p mx limit = Ok True" if "p \<in> ?A" for p
  proof -
    from bspec[OF pids that] obtain s where s: "0 \<le> s" "s < 10 ^ 12" "p = pid s" by (elim exE conjE)
    have "pid s \<le> pid x"
      unfolding s(3)[symmetric] x(3)[symmetric] using bspec[OF mm(4) that] by (rule conjunct2)
    then have "s \<le> x" using pid_le_iff[OF s(1,2) x(1,2)] by simp
    moreover have "limit < 2 ^ 63 - 1" using assms(4,5) by (auto simp: valid_pd_def Hour_def)
    ultimately show ?thesis
      using assms(5) s x rng[of s] rng[of x]
      by (simp add: cleanUpTimeCondition_def time_Sub_def max_def min_def)
  qed
  have ne: "GetSortedPartitionIDs m \<noteq> []" using set some by auto
  have "time_loop pd mx limit (GetSortedPartitionIDs m) [] = Panic ''index out of range''"
    using old set by (intro time_loop_panic) simp
  then show ?thesis
    using mm(1) assms(6) old[OF mm(2)] m(1) ne by (simp add: getPartitionsToDelete_def)
qed

lemma sample_sane: "sane_partitions (mock_dview sample_store)"
proof -
  have "''001546398000'' = pid 1546398000" "''001546405200'' = pid 1546405200"
    by (simp_all add: pid_def go_defs go_eval Let_def)
  then show ?thesis
    by (auto simp: sane_partitions_def sample_dom sample_ids sample_partitions
        intro: exI[of _ 1546398000] exI[of _ 1546405200])
qed

end
