(* ===== verification/StoreStats.thy ===== *)
theory StoreStats
  imports GarbageCollect
begin

text \<open>
  The statistics of the store (\<open>pkg/sloop/storemanager/stats.go\<close>), their refresh, the two
  background loops of the store manager (\<open>storemanager.go\<close>) and the sleep that can be cancelled
  (\<open>sleepwithcancel.go\<close>). The directory walk of the file system and the list of badger's tables
  are parameters; the metrics are left out.
\<close>

section \<open>Files on disk\<close>

text \<open>
  What \<open>fs.Walk\<close> hands to its function for one path: the file's directory flag and size, or nil with
  an error. The file extension is what follows the last dot of the last element.
\<close>

record walk_entry =
  we_path :: string
  we_info :: "(bool \<times> int) option"
  we_err :: "gerror option"

fun ext_from :: "string \<Rightarrow> string \<Rightarrow> string" where
  "ext_from best [] = best"
| "ext_from best (c # s) =
    (if c = CHR ''/'' then ext_from [] s else if c = CHR ''.'' then ext_from (c # s) s else ext_from best s)"

definition file_ext :: "string \<Rightarrow> string" where
  "file_ext path1 = takeWhile (\<lambda>c. c \<noteq> CHR ''/'') (ext_from [] path1)"

definition wrap_uint64 :: "int \<Rightarrow> int" where
  "wrap_uint64 x = x mod 2 ^ 64"

definition count_of :: "('k \<times> int) list \<Rightarrow> 'k \<Rightarrow> int" where
  "count_of m k = (case map_of m k of None \<Rightarrow> 0 | Some n \<Rightarrow> n)"

text \<open>The walk stops at the first error that the function returns: a path without file information.\<close>

fun walk_sizes ::
  "walk_entry list \<Rightarrow> int \<times> (string \<times> int) list \<times> (string \<times> int) list
     \<Rightarrow> int \<times> (string \<times> int) list \<times> (string \<times> int) list \<times> gerror option" where
  "walk_sizes [] (totalSize, extFileCount, extByteCount) = (totalSize, extFileCount, extByteCount, None)"
| "walk_sizes (w # ws) (totalSize, extFileCount, extByteCount) =
    (case we_info w of
       None \<Rightarrow> (case we_err w of
           Some e \<Rightarrow> (totalSize, extFileCount, extByteCount, Some e)
         | None \<Rightarrow> walk_sizes ws (totalSize, extFileCount, extByteCount))
     | Some (isDir, sz) \<Rightarrow>
         if isDir then walk_sizes ws (totalSize, extFileCount, extByteCount)
         else let ext = file_ext (we_path w)
           in walk_sizes ws (wrap_uint64 (totalSize + wrap_uint64 sz),
                AList.update ext (count_of extFileCount ext + 1) extFileCount,
                AList.update ext (wrap_uint64 (count_of extByteCount ext + wrap_uint64 sz)) extByteCount))"

definition getDirSizeRecursive ::
  "(string \<Rightarrow> walk_entry list) \<Rightarrow> string \<Rightarrow> int \<times> (string \<times> int) list \<times> (string \<times> int) list \<times> gerror option" where
  "getDirSizeRecursive walk rootDir =
    (case walk_sizes (walk rootDir) (0, [], []) of
       (totalSize, files, bytes, Some e) \<Rightarrow> (0, files, bytes, Some e)
     | r \<Rightarrow> r)"

section \<open>Statistics\<close>

record storeStats =
  st_timestamp :: gotime
  st_DiskSizeBytes :: int
  st_DiskLsmBytes :: int
  st_DiskLsmFileCount :: int
  st_DiskVlogBytes :: int
  st_DiskVlogFileCount :: int
  st_LevelToKeyCount :: "(int \<times> int) list"
  st_LevelToTableCount :: "(int \<times> int) list"
  st_TotalKeyCount :: int

record table_info =
  ti_Level :: int
  ti_KeyCount :: int

definition count_tables :: "table_info list \<Rightarrow> (int \<times> int) list \<times> (int \<times> int) list" where
  "count_tables tables = fold (\<lambda>table (tableCount, keyCount).
     (AList.update (ti_Level table) (count_of tableCount (ti_Level table) + 1) tableCount,
      AList.update (ti_Level table) (wrap_uint64 (count_of keyCount (ti_Level table) + ti_KeyCount table)) keyCount))
     tables ([], [])"

text \<open>An error of the walk is swallowed; the sizes read so far are used, the total is zero.\<close>

definition generateStats ::
  "('db, 'txn, 'it) badger \<Rightarrow> (string \<Rightarrow> walk_entry list) \<Rightarrow> ('db \<Rightarrow> table_info list) \<Rightarrow> gotime \<Rightarrow> string \<Rightarrow> 'db
     \<Rightarrow> storeStats res option" where
  "generateStats B walk tables now storeRoot db =
    (let (totalSizeBytes, extFileCount, extByteCount, err) = getDirSizeRecursive walk storeRoot;
         (levelToTableCount, levelToKeyCount) = count_tables (tables db)
     in map_option (\<lambda>r. bind_res r (\<lambda>n. Ok
          \<lparr>st_timestamp = now, st_DiskSizeBytes = wrap_int64 totalSizeBytes,
           st_DiskLsmBytes = wrap_int64 (count_of extByteCount ''.sst''), st_DiskLsmFileCount = count_of extFileCount ''.sst'',
           st_DiskVlogBytes = wrap_int64 (count_of extByteCount ''.vlog''), st_DiskVlogFileCount = count_of extFileCount ''.vlog'',
           st_LevelToKeyCount = levelToKeyCount, st_LevelToTableCount = levelToTableCount,
           st_TotalKeyCount = int n\<rparr>))
        (GetTotalKeyCount B db []))"

definition getDeltaStats :: "storeStats \<Rightarrow> storeStats \<Rightarrow> storeStats" where
  "getDeltaStats beforeStats afterStats =
    \<lparr>st_timestamp = zero_time, st_DiskSizeBytes = wrap_int64 (st_DiskSizeBytes beforeStats - st_DiskSizeBytes afterStats),
     st_DiskLsmBytes = wrap_int64 (st_DiskLsmBytes beforeStats - st_DiskLsmBytes afterStats),
     st_DiskLsmFileCount = st_DiskLsmFileCount beforeStats - st_DiskLsmFileCount afterStats,
     st_DiskVlogBytes = wrap_int64 (st_DiskVlogBytes beforeStats - st_DiskVlogBytes afterStats),
     st_DiskVlogFileCount = st_DiskVlogFileCount beforeStats - st_DiskVlogFileCount afterStats,
     st_LevelToKeyCount = [], st_LevelToTableCount = [], st_TotalKeyCount = 0\<rparr>"

text \<open>Statistics of less than a second ago are kept.\<close>

definition refreshStats ::
  "('db, 'txn, 'it) badger \<Rightarrow> (string \<Rightarrow> walk_entry list) \<Rightarrow> ('db \<Rightarrow> table_info list) \<Rightarrow> gotime \<Rightarrow> string \<Rightarrow> 'db
     \<Rightarrow> storeStats \<Rightarrow> storeStats res option" where
  "refreshStats B walk tables now storeRoot db stats =
    (if time_Sub now (st_timestamp stats) < Second then Some (Ok stats)
     else generateStats B walk tables now storeRoot db)"

section \<open>Sleep with cancel\<close>

text \<open>The channel: how many values wait in it and whether it is closed.\<close>

record SleepWithCancel =
  sl_waiting :: nat
  sl_closed :: bool

definition NewSleepWithCancel :: SleepWithCancel where
  "NewSleepWithCancel = \<lparr>sl_waiting = 0, sl_closed = False\<rparr>"

text \<open>
  \<open>Sleep\<close> waits for the channel or the time, whichever comes first: whether it can return at once,
  and the channel after it took a value. \<open>Cancel\<close> sends and closes; sending on a closed channel
  panics, and the buffer of ten is never full before.
\<close>

definition Sleep_returns_at_once :: "SleepWithCancel \<Rightarrow> bool" where
  "Sleep_returns_at_once s \<longleftrightarrow> 0 < sl_waiting s \<or> sl_closed s"

definition Sleep :: "SleepWithCancel \<Rightarrow> SleepWithCancel" where
  "Sleep s = s\<lparr>sl_waiting := sl_waiting s - 1\<rparr>"

definition Cancel :: "SleepWithCancel \<Rightarrow> SleepWithCancel res" where
  "Cancel s = (if sl_closed s then Panic ''send on closed channel''
     else Ok \<lparr>sl_waiting = sl_waiting s + 1, sl_closed = True\<rparr>)"

text \<open>Once cancelled, every later sleep returns at once.\<close>

lemma cancelled_for_good:
  "Cancel s = Ok s' \<Longrightarrow> Sleep_returns_at_once ((Sleep ^^ n) s')"
proof -
  assume "Cancel s = Ok s'"
  then have "sl_closed s'" by (auto simp: Cancel_def split: if_splits)
  then have "sl_closed ((Sleep ^^ n) s')" by (induction n) (simp_all add: Sleep_def)
  then show ?thesis by (simp add: Sleep_returns_at_once_def)
qed

section \<open>The store manager's loops\<close>

text \<open>
  The manager and its goroutines. Both loops check the flag \<open>done\<close>, work and sleep; \<open>Shutdown\<close> sets
  the flag, cancels the sleeper and waits until the counter of the wait group is zero. A loop adds
  itself to the wait group when its goroutine starts to run, which may be after \<open>Shutdown\<close> has
  looked at the counter. Where a goroutine is:
\<close>

datatype loop_pc = NotStarted | Checking | Working | Sleeping | Exited
datatype shutdown_pc = NotCalled | Flagged | Cancelled | Returned

record store_config =
  sc_StoreRoot :: string
  sc_Freq :: int
  sc_TimeLimit :: int
  sc_SizeLimitBytes :: int
  sc_BadgerDiscardRatio :: f64
  sc_BadgerVLogGCFreq :: int
  sc_DeletionBatchSize :: int
  sc_GCThreshold :: f64
  sc_EnableDeleteKeys :: bool

record 'db StoreManager =
  sm_db :: 'db
  sm_sleeper :: SleepWithCancel
  sm_wg :: nat
  sm_done :: bool
  sm_config :: store_config
  sm_stats :: storeStats
  sm_gc :: loop_pc
  sm_vlog :: loop_pc
  sm_shutdown :: shutdown_pc

definition NewStoreManager :: "'db \<Rightarrow> store_config \<Rightarrow> 'db StoreManager" where
  "NewStoreManager db config =
    \<lparr>sm_db = db, sm_sleeper = NewSleepWithCancel, sm_wg = 0, sm_done = False, sm_config = config,
     sm_stats = \<lparr>st_timestamp = zero_time, st_DiskSizeBytes = 0, st_DiskLsmBytes = 0, st_DiskLsmFileCount = 0,
       st_DiskVlogBytes = 0, st_DiskVlogFileCount = 0, st_LevelToKeyCount = [], st_LevelToTableCount = [],
       st_TotalKeyCount = 0\<rparr>,
     sm_gc = NotStarted, sm_vlog = NotStarted, sm_shutdown = NotCalled\<rparr>"

definition sm_refresh ::
  "('db, 'txn, 'it) badger \<Rightarrow> (string \<Rightarrow> walk_entry list) \<Rightarrow> ('db \<Rightarrow> table_info list) \<Rightarrow> gotime
     \<Rightarrow> 'db StoreManager \<Rightarrow> 'db StoreManager res option" where
  "sm_refresh B walk tables now sm = map_option (\<lambda>r. bind_res r (\<lambda>stats. Ok (sm\<lparr>sm_stats := stats\<rparr>)))
     (refreshStats B walk tables now (sc_StoreRoot (sm_config sm)) (sm_db sm) (sm_stats sm))"

text \<open>
  One round of \<open>gcLoop\<close> between the check of the flag and the sleep: fresh statistics, the clean-up
  that goes by them, and statistics again for the metrics. An error of the clean-up is only counted.
\<close>

definition gc_round ::
  "('db, 'txn, 'it) badger \<Rightarrow> int \<Rightarrow> (f64 \<Rightarrow> int) \<Rightarrow> (string \<Rightarrow> walk_entry list) \<Rightarrow> ('db \<Rightarrow> table_info list)
     \<Rightarrow> gotime \<Rightarrow> gotime \<Rightarrow> 'db StoreManager \<Rightarrow> 'db StoreManager res option" where
  "gc_round B pd plat walk tables now1 now2 sm =
    Option.bind (sm_refresh B walk tables now1 sm) (\<lambda>r. case r of
      Err e \<Rightarrow> Some (Err e) | Panic m \<Rightarrow> Some (Panic m)
    | Ok sm1 \<Rightarrow> Option.bind
        (doCleanup B pd plat (sm_db sm1) (sc_TimeLimit (sm_config sm1)) (sc_SizeLimitBytes (sm_config sm1))
          (st_DiskSizeBytes (sm_stats sm1)) (sc_DeletionBatchSize (sm_config sm1)) (sc_GCThreshold (sm_config sm1))
          (sc_EnableDeleteKeys (sm_config sm1))) (\<lambda>r. case r of
        Err e \<Rightarrow> Some (Err e) | Panic m \<Rightarrow> Some (Panic m)
      | Ok c \<Rightarrow> sm_refresh B walk tables now2 (sm1\<lparr>sm_db := cl_db c\<rparr>)))"

text \<open>
  One turn of the inner loop of \<open>vlogGcLoop\<close>: a run of badger's value log collection, whose error
  ends the loop. The collection is a parameter: the error and the database afterwards.
\<close>

definition vlog_turn ::
  "('db, 'txn, 'it) badger \<Rightarrow> (f64 \<Rightarrow> 'db \<Rightarrow> gerror option \<times> 'db) \<Rightarrow> (string \<Rightarrow> walk_entry list) \<Rightarrow> ('db \<Rightarrow> table_info list)
     \<Rightarrow> gotime \<Rightarrow> 'db StoreManager \<Rightarrow> 'db StoreManager res option" where
  "vlog_turn B RunValueLogGC walk tables now sm =
    (let (err, db') = RunValueLogGC (sc_BadgerDiscardRatio (sm_config sm)) (sm_db sm); sm' = sm\<lparr>sm_db := db'\<rparr>
     in case err of Some e \<Rightarrow> Some (Ok (sm'\<lparr>sm_vlog := Sleeping\<rparr>)) | None \<Rightarrow> sm_refresh B walk tables now sm')"

text \<open>\<open>Shutdown\<close> in its three parts; the last one, the wait, is a step that needs the counter at zero.\<close>

definition Shutdown_flag :: "'db StoreManager \<Rightarrow> 'db StoreManager" where
  "Shutdown_flag sm = sm\<lparr>sm_done := True, sm_shutdown := Flagged\<rparr>"

definition Shutdown_cancel :: "'db StoreManager \<Rightarrow> 'db StoreManager res" where
  "Shutdown_cancel sm = bind_res (Cancel (sm_sleeper sm)) (\<lambda>s. Ok (sm\<lparr>sm_sleeper := s, sm_shutdown := Cancelled\<rparr>))"

text \<open>The steps of the three goroutines; a loop whose work panics or does not end takes no step.\<close>

inductive sm_step ::
  "('db, 'txn, 'it) badger \<Rightarrow> int \<Rightarrow> (f64 \<Rightarrow> int) \<Rightarrow> (f64 \<Rightarrow> 'db \<Rightarrow> gerror option \<times> 'db) \<Rightarrow> (string \<Rightarrow> walk_entry list)
     \<Rightarrow> ('db \<Rightarrow> table_info list) \<Rightarrow> 'db StoreManager \<Rightarrow> 'db StoreManager \<Rightarrow> bool"
  for B pd plat RunValueLogGC walk tables where
  gc_start: "sm_gc sm = NotStarted \<Longrightarrow> sm_step B pd plat RunValueLogGC walk tables sm
    (sm\<lparr>sm_wg := sm_wg sm + 1, sm_gc := Checking\<rparr>)"
| gc_go: "sm_gc sm = Checking \<Longrightarrow> \<not> sm_done sm \<Longrightarrow> sm_step B pd plat RunValueLogGC walk tables sm
    (sm\<lparr>sm_gc := Working\<rparr>)"
| gc_exit: "sm_gc sm = Checking \<Longrightarrow> sm_done sm \<Longrightarrow> sm_step B pd plat RunValueLogGC walk tables sm
    (sm\<lparr>sm_wg := sm_wg sm - 1, sm_gc := Exited\<rparr>)"
| gc_work: "sm_gc sm = Working \<Longrightarrow> gc_round B pd plat walk tables now1 now2 sm = Some (Ok sm') \<Longrightarrow>
    sm_step B pd plat RunValueLogGC walk tables sm (sm'\<lparr>sm_gc := Sleeping\<rparr>)"
| gc_wake: "sm_gc sm = Sleeping \<Longrightarrow> sm_step B pd plat RunValueLogGC walk tables sm
    (sm\<lparr>sm_sleeper := Sleep (sm_sleeper sm), sm_gc := Checking\<rparr>)"
| vlog_start: "sm_vlog sm = NotStarted \<Longrightarrow> sm_step B pd plat RunValueLogGC walk tables sm
    (sm\<lparr>sm_wg := sm_wg sm + 1, sm_vlog := Checking\<rparr>)"
| vlog_go: "sm_vlog sm = Checking \<Longrightarrow> \<not> sm_done sm \<Longrightarrow> sm_refresh B walk tables now1 sm = Some (Ok sm') \<Longrightarrow>
    sm_step B pd plat RunValueLogGC walk tables sm (sm'\<lparr>sm_vlog := Working\<rparr>)"
| vlog_exit: "sm_vlog sm = Checking \<Longrightarrow> sm_done sm \<Longrightarrow> sm_step B pd plat RunValueLogGC walk tables sm
    (sm\<lparr>sm_wg := sm_wg sm - 1, sm_vlog := Exited\<rparr>)"
| vlog_work: "sm_vlog sm = Working \<Longrightarrow> vlog_turn B RunValueLogGC walk tables now1 sm = Some (Ok sm') \<Longrightarrow>
    sm_step B pd plat RunValueLogGC walk tables sm sm'"
| vlog_wake: "sm_vlog sm = Sleeping \<Longrightarrow> sm_step B pd plat RunValueLogGC walk tables sm
    (sm\<lparr>sm_sleeper := Sleep (sm_sleeper sm), sm_vlog := Checking\<rparr>)"
| shutdown_flag: "sm_shutdown sm = NotCalled \<Longrightarrow> sm_step B pd plat RunValueLogGC walk tables sm (Shutdown_flag sm)"
| shutdown_cancel: "sm_shutdown sm = Flagged \<Longrightarrow> Shutdown_cancel sm = Ok sm' \<Longrightarrow>
    sm_step B pd plat RunValueLogGC walk tables sm sm'"
| shutdown_return: "sm_shutdown sm = Cancelled \<Longrightarrow> sm_wg sm = 0 \<Longrightarrow>
    sm_step B pd plat RunValueLogGC walk tables sm (sm\<lparr>sm_shutdown := Returned\<rparr>)"

inductive_cases sm_stepE: "sm_step B pd plat RunValueLogGC walk tables sm sm'"

subsection \<open>The invariant of the manager\<close>

text \<open>The counter counts the running loops, and when \<open>Shutdown\<close> has returned no loop is working.\<close>

definition running :: "loop_pc \<Rightarrow> nat" where
  "running pc = (if pc = NotStarted \<or> pc = Exited then 0 else 1)"

definition sm_inv :: "'db StoreManager \<Rightarrow> bool" where
  "sm_inv sm \<longleftrightarrow> sm_wg sm = running (sm_gc sm) + running (sm_vlog sm)
    \<and> (sm_done sm \<longleftrightarrow> sm_shutdown sm \<noteq> NotCalled)
    \<and> (sl_closed (sm_sleeper sm) \<longleftrightarrow> sm_shutdown sm = Cancelled \<or> sm_shutdown sm = Returned)
    \<and> (sm_shutdown sm = Returned \<longrightarrow> sm_gc sm \<in> {NotStarted, Checking, Exited} \<and> sm_vlog sm \<in> {NotStarted, Checking, Exited})"

lemma running_simps [simp]:
  "running NotStarted = 0" "running Exited = 0" "running Checking = 1" "running Working = 1" "running Sleeping = 1"
  by (simp_all add: running_def)

lemma running_0: "running pc = 0 \<longleftrightarrow> pc = NotStarted \<or> pc = Exited"
  by (simp add: running_def)

lemma sm_refresh_OkD:
  "sm_refresh B walk tables now sm = Some (Ok sm') \<Longrightarrow> \<exists>stats. sm' = sm\<lparr>sm_stats := stats\<rparr>"
  by (auto simp: sm_refresh_def bind_res_Ok_iff)

lemma bind_step_Ok:
  "Option.bind m (\<lambda>r. case r of Err e \<Rightarrow> Some (Err e) | Panic p \<Rightarrow> Some (Panic p) | Ok x \<Rightarrow> f x) = Some (Ok y)
    \<longleftrightarrow> (\<exists>x. m = Some (Ok x) \<and> f x = Some (Ok y))"
  by (cases m) (auto split: res.splits)

lemma gc_round_OkE:
  assumes "gc_round B pd plat walk tables now1 now2 sm = Some (Ok sm')"
  obtains stats stats' :: storeStats and c where "sm' = sm\<lparr>sm_stats := stats', sm_db := cl_db c\<rparr>"
    "doCleanup B pd plat (sm_db sm) (sc_TimeLimit (sm_config sm)) (sc_SizeLimitBytes (sm_config sm))
      (st_DiskSizeBytes stats) (sc_DeletionBatchSize (sm_config sm)) (sc_GCThreshold (sm_config sm))
      (sc_EnableDeleteKeys (sm_config sm)) = Some (Ok c)"
proof -
  obtain sm1 c where *: "sm_refresh B walk tables now1 sm = Some (Ok sm1)"
    "doCleanup B pd plat (sm_db sm1) (sc_TimeLimit (sm_config sm1)) (sc_SizeLimitBytes (sm_config sm1))
      (st_DiskSizeBytes (sm_stats sm1)) (sc_DeletionBatchSize (sm_config sm1)) (sc_GCThreshold (sm_config sm1))
      (sc_EnableDeleteKeys (sm_config sm1)) = Some (Ok c)"
    "sm_refresh B walk tables now2 (sm1\<lparr>sm_db := cl_db c\<rparr>) = Some (Ok sm')"
    using assms unfolding gc_round_def bind_step_Ok by blast
  from sm_refresh_OkD[OF *(1)] obtain stats where sm1: "sm1 = sm\<lparr>sm_stats := stats\<rparr>" by blast
  from sm_refresh_OkD[OF *(3)] obtain stats' where "sm' = sm1\<lparr>sm_db := cl_db c, sm_stats := stats'\<rparr>" by blast
  then show thesis using *(2) by (intro that[where stats' = stats' and c = c and stats = stats]) (simp_all add: sm1)
qed

lemma vlog_turn_OkE:
  assumes "vlog_turn B gc walk tables now sm = Some (Ok sm')"
  obtains stats pc where
    "sm' = sm\<lparr>sm_db := snd (gc (sc_BadgerDiscardRatio (sm_config sm)) (sm_db sm)), sm_stats := stats, sm_vlog := pc\<rparr>"
    "pc = sm_vlog sm \<or> pc = Sleeping"
proof (cases "fst (gc (sc_BadgerDiscardRatio (sm_config sm)) (sm_db sm))")
  case None
  then show thesis
    using assms that[where pc = "sm_vlog sm"]
    by (auto simp: vlog_turn_def Let_def split: prod.splits dest!: sm_refresh_OkD)
next
  case (Some e)
  then show thesis
    using assms that[where stats = "sm_stats sm" and pc = Sleeping] by (auto simp: vlog_turn_def Let_def split: prod.splits)
qed

lemma sm_inv_init: "sm_inv (NewStoreManager db config)"
  by (simp add: sm_inv_def NewStoreManager_def NewSleepWithCancel_def)

lemma sm_inv_step:
  assumes "sm_step B pd plat gc walk tables sm sm'" "sm_inv sm"
  shows "sm_inv sm'"
  using assms
proof (cases rule: sm_step.cases)
  case (gc_work now1 now2 sm1)
  then show ?thesis
    using assms(2) by (auto simp: sm_inv_def elim!: gc_round_OkE)
next
  case (vlog_go now1 sm1)
  then show ?thesis
    using assms(2) by (auto simp: sm_inv_def dest!: sm_refresh_OkD)
next
  case (vlog_work now1)
  then show ?thesis
    using assms(2) by (auto simp: sm_inv_def elim!: vlog_turn_OkE)
next
  case shutdown_return
  then show ?thesis
    using assms(2) by (auto simp: sm_inv_def running_0)
qed (auto simp: sm_inv_def Sleep_def Shutdown_flag_def Shutdown_cancel_def Cancel_def bind_res_Ok_iff
       split: if_splits)

lemma sm_inv_steps:
  "(sm_step B pd plat gc walk tables)\<^sup>*\<^sup>* sm sm' \<Longrightarrow> sm_inv sm \<Longrightarrow> sm_inv sm'"
  by (induction rule: rtranclp_induct) (auto intro: sm_inv_step)

text \<open>After the return of \<open>Shutdown\<close> no step changes the store.\<close>

lemma step_after_return:
  assumes "sm_step B pd plat gc walk tables sm sm'" "sm_inv sm" "sm_shutdown sm = Returned"
  shows "sm_db sm' = sm_db sm \<and> sm_shutdown sm' = Returned"
  using assms
  by (cases rule: sm_step.cases) (auto simp: sm_inv_def)

subsection \<open>What the rounds remove\<close>

text \<open>The view of the store afterwards: a part of the one before, without keys of some partitions.\<close>

definition only_dropped :: "(string \<rightharpoonup> string) \<Rightarrow> (string \<rightharpoonup> string) \<Rightarrow> bool" where
  "only_dropped v v' \<longleftrightarrow> (\<exists>ps. v' = (\<lambda>k. if \<exists>p \<in> set ps. gc_match p k then None else v k))"

lemma only_dropped_refl: "only_dropped v v"
  unfolding only_dropped_def by (intro exI[of _ "[]"]) simp

lemma only_dropped_trans: "only_dropped u v \<Longrightarrow> only_dropped v w \<Longrightarrow> only_dropped u w"
  unfolding only_dropped_def
proof (elim exE)
  fix ps qs
  assume "v = (\<lambda>k. if \<exists>p \<in> set ps. gc_match p k then None else u k)"
    "w = (\<lambda>k. if \<exists>p \<in> set qs. gc_match p k then None else v k)"
  then show "\<exists>ps. w = (\<lambda>k. if \<exists>p \<in> set ps. gc_match p k then None else u k)"
    by (intro exI[of _ "ps @ qs"]) (auto simp: fun_eq_iff)
qed

lemma doCleanup_only_dropped:
  assumes "badger_store B dview dok tview tok writable ahead iopts" "dok d" "valid_pd pd"
    and "doCleanup B pd plat d limit szlim disk batch thr False = Some (Ok c)"
  shows "dok (cl_db c) \<and> only_dropped (dview d) (dview (cl_db c))"
proof -
  obtain ps m where "getPartitionsToDelete B pd plat d limit szlim disk thr = Some (Ok (ps, m))"
    using assms(4)
    by (cases "getPartitionsToDelete B pd plat d limit szlim disk thr";
        cases "the (getPartitionsToDelete B pd plat d limit szlim disk thr)") (auto simp: doCleanup_def)
  from doCleanup_drops[OF assms(1-3) this, of batch] show ?thesis
    using assms(4) by (auto simp: only_dropped_def)
qed

definition keeps_view :: "('db \<Rightarrow> (string \<rightharpoonup> string)) \<Rightarrow> ('db \<Rightarrow> bool) \<Rightarrow> (f64 \<Rightarrow> 'db \<Rightarrow> gerror option \<times> 'db) \<Rightarrow> bool" where
  "keeps_view dview dok RunValueLogGC \<longleftrightarrow>
    (\<forall>ratio db. dok db \<longrightarrow> dok (snd (RunValueLogGC ratio db)) \<and> dview (snd (RunValueLogGC ratio db)) = dview db)"

lemma step_only_dropped:
  assumes "badger_store B dview dok tview tok writable ahead iopts" "valid_pd pd" "keeps_view dview dok gc"
    and "sm_step B pd plat gc walk tables sm sm'" "dok (sm_db sm)" "\<not> sc_EnableDeleteKeys (sm_config sm)"
  shows "dok (sm_db sm') \<and> only_dropped (dview (sm_db sm)) (dview (sm_db sm')) \<and> sm_config sm' = sm_config sm"
  using assms(4)
proof (cases rule: sm_step.cases)
  case (gc_work now1 now2 sm1)
  from gc_work(3) obtain stats stats' :: storeStats and c where "sm1 = sm\<lparr>sm_stats := stats', sm_db := cl_db c\<rparr>"
    "doCleanup B pd plat (sm_db sm) (sc_TimeLimit (sm_config sm)) (sc_SizeLimitBytes (sm_config sm))
      (st_DiskSizeBytes stats) (sc_DeletionBatchSize (sm_config sm)) (sc_GCThreshold (sm_config sm)) False = Some (Ok c)"
    by (rule gc_round_OkE) (rule that, assumption, use assms(6) in simp)
  then show ?thesis
    using gc_work(1) doCleanup_only_dropped[OF assms(1,5,2)] by auto
next
  case (vlog_work now1)
  then show ?thesis
    using assms(3,5) by (auto simp: keeps_view_def only_dropped_refl elim!: vlog_turn_OkE)
qed (use assms(5) in \<open>auto simp: only_dropped_refl Shutdown_flag_def Shutdown_cancel_def bind_res_Ok_iff
       dest!: sm_refresh_OkD\<close>)

section \<open>A sample run\<close>

definition sample_config :: store_config where
  "sample_config = \<lparr>sc_StoreRoot = ''data'', sc_Freq = Hour, sc_TimeLimit = 2 * Hour, sc_SizeLimitBytes = 1000,
     sc_BadgerDiscardRatio = Fin (1 / 2), sc_BadgerVLogGCFreq = Hour, sc_DeletionBatchSize = 5,
     sc_GCThreshold = Fin 1, sc_EnableDeleteKeys = False\<rparr>"

definition sample_walk :: "string \<Rightarrow> walk_entry list" where
  "sample_walk r = [\<lparr>we_path = ''data/000001.vlog'', we_info = Some (False, 10), we_err = None\<rparr>]"

lemma sample_refresh:
  "\<exists>stats. generateStats mock_ops sample_walk (\<lambda>_. []) (Time 1546405200000000000 UTC) ''data'' sample_store = Some (Ok stats)
     \<and> st_DiskSizeBytes stats = 10 \<and> st_timestamp stats = Time 1546405200000000000 UTC"
  using mock.total_key_count[OF sample_ok, of "[]"]
  by (simp add: generateStats_def getDirSizeRecursive_def sample_walk_def count_tables_def Let_def
      wrap_uint64_def wrap_int64_def prefix_first_def)

lemma sample_round:
  "\<exists>sm'. gc_round mock_ops Hour (\<lambda>_. 0) sample_walk (\<lambda>_. []) (Time 1546405200000000000 UTC)
      (Time 1546405200000000000 UTC) (NewStoreManager sample_store sample_config\<lparr>sm_wg := 1, sm_gc := Working\<rparr>)
      = Some (Ok sm') \<and> mock_dview (sm_db sm') ''/watchactivity/001546398000/P/ns/n/u'' = None"
proof -
  obtain stats where stats: "generateStats mock_ops sample_walk (\<lambda>_. []) (Time 1546405200000000000 UTC) ''data'' sample_store
      = Some (Ok stats)" "st_DiskSizeBytes stats = 10" "st_timestamp stats = Time 1546405200000000000 UTC"
    using sample_refresh by blast
  obtain m where m: "getPartitionsToDelete mock_ops Hour (\<lambda>_. 0) sample_store (2 * Hour) 1000 10 (Fin 1)
      = Some (Ok ([''001546398000''], m))" using sample_choice by blast
  obtain c where c: "doCleanup mock_ops Hour (\<lambda>_. 0) sample_store (2 * Hour) 1000 10 5 (Fin 1) False = Some (Ok c)"
    "mock_dview (cl_db c) = (\<lambda>k. if gc_match ''001546398000'' k then None else mock_dview sample_store k)"
    using doCleanup_drops[OF mock.badger_store_axioms sample_ok _ m, of 5] by (auto simp: valid_pd_def)
  have "gc_match ''001546398000'' ''/watchactivity/001546398000/P/ns/n/u''"
    by (simp add: gc_match_def GetTableNames_def NewTableList_def OpenKubeWatchResultTable_def
        OpenResourceSummaryTable_def OpenResourceEventCountsTable_def OpenWatchActivityTable_def
        OpenTable_def key_ops_defs table_names del_match_def)
  then show ?thesis
    using stats c
    by (simp add: gc_round_def sm_refresh_def refreshStats_def NewStoreManager_def sample_config_def
        time_Sub_def zero_time_def zero_ns_def Second_def)
qed

section \<open>Properties\<close>

text \<open>
  C9: no collection after the shutdown. In every run of the manager, whatever the interleaving of
  its two loops and \<open>Shutdown\<close>, and even when a loop's goroutine starts to run only after the
  wait, nothing changes the store once \<open>Shutdown\<close> has returned and no loop works on it.
\<close>

theorem no_gc_after_shutdown:
  assumes "(sm_step B pd plat RunValueLogGC walk tables)\<^sup>*\<^sup>* (NewStoreManager db config) sm" "sm_shutdown sm = Returned"
    and "(sm_step B pd plat RunValueLogGC walk tables)\<^sup>*\<^sup>* sm sm'"
  shows "sm_db sm' = sm_db sm \<and> sm_gc sm' \<in> {NotStarted, Checking, Exited} \<and> sm_vlog sm' \<in> {NotStarted, Checking, Exited}"
proof -
  have inv: "sm_inv sm" using assms(1) sm_inv_init by (rule sm_inv_steps)
  have "sm_inv sm' \<and> sm_db sm' = sm_db sm \<and> sm_shutdown sm' = Returned"
    using assms(3)
  proof (induction rule: rtranclp_induct)
    case (step y z)
    then show ?case using step_after_return sm_inv_step by metis
  qed (use assms(2) inv in simp)
  then show ?thesis
    by (simp_all add: sm_inv_def)
qed

theorem no_gc_after_shutdown_witness:
  "\<exists>sm sm'. sm_shutdown sm = Returned \<and> sm_gc sm' = Exited \<and> sm_db sm' = sm_db sm
     \<and> (sm_step mock_ops Hour (\<lambda>_. 0) (\<lambda>_ d. (None, d)) sample_walk (\<lambda>_. []))\<^sup>*\<^sup>* sm sm'"
proof -
  let ?step = "sm_step mock_ops Hour (\<lambda>_. 0) (\<lambda>_ d. (None, d)) sample_walk (\<lambda>_. [])"
  let ?s0 = "NewStoreManager sample_store sample_config"
  let ?s1 = "Shutdown_flag ?s0"
  let ?s2 = "?s1\<lparr>sm_sleeper := \<lparr>sl_waiting = 1, sl_closed = True\<rparr>, sm_shutdown := Cancelled\<rparr>"
  let ?s3 = "?s2\<lparr>sm_shutdown := Returned\<rparr>"
  let ?s4 = "?s3\<lparr>sm_wg := sm_wg ?s3 + 1, sm_gc := Checking\<rparr>"
  let ?s5 = "?s4\<lparr>sm_wg := sm_wg ?s4 - 1, sm_gc := Exited\<rparr>"
  note defs = NewStoreManager_def Shutdown_flag_def Shutdown_cancel_def Cancel_def NewSleepWithCancel_def
  have "?step ?s0 ?s1" by (rule shutdown_flag) (simp add: defs)
  moreover have "?step ?s1 ?s2" by (rule shutdown_cancel) (simp_all add: defs)
  moreover have "?step ?s2 ?s3" by (rule shutdown_return) (simp_all add: defs)
  ultimately have run: "?step\<^sup>*\<^sup>* ?s0 ?s3" by (meson converse_rtranclp_into_rtranclp rtranclp.rtrancl_refl)
  have "?step ?s3 ?s4" by (rule gc_start) (simp add: defs)
  moreover have "?step ?s4 ?s5" by (rule gc_exit) (simp_all add: defs)
  ultimately have late: "?step\<^sup>*\<^sup>* ?s3 ?s5" by (meson converse_rtranclp_into_rtranclp rtranclp.rtrancl_refl)
  show ?thesis
    by (intro exI[of _ ?s3] exI[of _ ?s5] conjI) (use no_gc_after_shutdown[OF run _ late] late in simp_all)
qed



end
