(* ===== verification/Server.thy ===== *)
theory Server
  imports Config StoreStats
begin

text \<open>
  What \<open>RealMain\<close> (\<open>pkg/sloop/server/server.go\<close>) makes of the configuration: the configurations of the
  store, the store manager and the web server, the opening of the store (\<open>store/untyped/store.go\<close>),
  the restore of a backup (\<open>ingress/dbrestore.go\<close>), the choice of the Kubernetes context
  (\<open>ingress/kubeclient.go\<close>) and the routes of the web server (\<open>webserver/webserver.go\<close>). The options
  of badger, its \<open>Open\<close> and \<open>Load\<close> and the Kubernetes configuration are parameters.
\<close>

section \<open>Opening the store\<close>

record StoreConfig =
  RootPath :: string
  ConfigPartitionDuration :: int
  s_BadgerMaxTableSize :: int
  s_BadgerKeepL0InMemory :: bool
  s_BadgerVLogFileSize :: int
  s_BadgerVLogMaxEntries :: int
  s_BadgerUseLSMOnlyOptions :: bool
  s_BadgerEnableEventLogging :: bool
  s_BadgerNumOfCompactors :: int
  s_BadgerNumL0Tables :: int
  s_BadgerNumL0TablesStall :: int
  s_BadgerSyncWrites :: bool
  s_BadgerLevelOneSize :: int
  s_BadgerLevSizeMultiplier :: int
  s_BadgerVLogFileIOMapping :: bool
  s_BadgerDetailLogEnabled :: bool
  s_BadgerVLogTruncate :: bool

record ('o, 'db) open_lib =
  op_LSMOnlyOptions :: "string \<Rightarrow> 'o"
  op_DefaultOptions :: "string \<Rightarrow> 'o"
  op_WithEventLogging :: "bool \<Rightarrow> 'o \<Rightarrow> 'o"
  op_WithMaxTableSize :: "int \<Rightarrow> 'o \<Rightarrow> 'o"
  op_KeepL0InMemory :: "bool \<Rightarrow> 'o \<Rightarrow> 'o"
  op_WithValueLogFileSize :: "int \<Rightarrow> 'o \<Rightarrow> 'o"
  op_WithValueLogMaxEntries :: "int \<Rightarrow> 'o \<Rightarrow> 'o"
  op_WithNumCompactors :: "int \<Rightarrow> 'o \<Rightarrow> 'o"
  op_WithNumLevelZeroTables :: "int \<Rightarrow> 'o \<Rightarrow> 'o"
  op_WithNumLevelZeroTablesStall :: "int \<Rightarrow> 'o \<Rightarrow> 'o"
  op_WithLevelOneSize :: "int \<Rightarrow> 'o \<Rightarrow> 'o"
  op_WithLevelSizeMultiplier :: "int \<Rightarrow> 'o \<Rightarrow> 'o"
  op_FileIO :: "'o \<Rightarrow> 'o"
  op_NoLogger :: "'o \<Rightarrow> 'o"
  op_WithTruncate :: "bool \<Rightarrow> 'o \<Rightarrow> 'o"
  op_WithSyncWrites :: "bool \<Rightarrow> 'o \<Rightarrow> 'o"
  op_Open :: "'o \<Rightarrow> 'db res"

text \<open>
  The options. The value log entries are cut to 32 bits. The first call of \<open>WithSyncWrites\<close> in the
  code drops its result, so only the last one counts.
\<close>

definition badger_options :: "('o, 'db) open_lib \<Rightarrow> StoreConfig \<Rightarrow> 'o" where
  "badger_options L config =
    (let opts = (if s_BadgerUseLSMOnlyOptions config then op_LSMOnlyOptions L (RootPath config) else op_DefaultOptions L (RootPath config));
         opts = (if s_BadgerEnableEventLogging config then op_WithEventLogging L True opts else opts);
         opts = (if s_BadgerMaxTableSize config \<noteq> 0 then op_WithMaxTableSize L (s_BadgerMaxTableSize config) opts else opts);
         opts = op_KeepL0InMemory L (s_BadgerKeepL0InMemory config) opts;
         opts = (if s_BadgerVLogFileSize config \<noteq> 0 then op_WithValueLogFileSize L (s_BadgerVLogFileSize config) opts else opts);
         opts = (if s_BadgerVLogMaxEntries config \<noteq> 0
                 then op_WithValueLogMaxEntries L (s_BadgerVLogMaxEntries config mod 2 ^ 32) opts else opts);
         opts = (if s_BadgerNumOfCompactors config \<noteq> 0 then op_WithNumCompactors L (s_BadgerNumOfCompactors config) opts else opts);
         opts = (if s_BadgerNumL0Tables config \<noteq> 0 then op_WithNumLevelZeroTables L (s_BadgerNumL0Tables config) opts else opts);
         opts = (if s_BadgerNumL0TablesStall config \<noteq> 0
                 then op_WithNumLevelZeroTablesStall L (s_BadgerNumL0TablesStall config) opts else opts);
         opts = (if s_BadgerLevelOneSize config \<noteq> 0 then op_WithLevelOneSize L (s_BadgerLevelOneSize config) opts else opts);
         opts = (if s_BadgerLevSizeMultiplier config \<noteq> 0
                 then op_WithLevelSizeMultiplier L (s_BadgerLevSizeMultiplier config) opts else opts);
         opts = (if s_BadgerVLogFileIOMapping config then op_FileIO L opts else opts);
         opts = (if \<not> s_BadgerDetailLogEnabled config then op_NoLogger L opts else opts);
         opts = op_WithTruncate L (s_BadgerVLogTruncate config) opts
     in op_WithSyncWrites L (s_BadgerSyncWrites config) opts)"

text \<open>
  The database and the partition duration that the package keeps from then on. A failure to make
  the directory is only logged; \<open>Flatten\<close> compacts the tables and its error is dropped.
\<close>

definition OpenStore :: "('o, 'db) open_lib \<Rightarrow> StoreConfig \<Rightarrow> ('db \<times> int) res" where
  "OpenStore L config =
    (if ConfigPartitionDuration config \<noteq> Hour \<and> ConfigPartitionDuration config \<noteq> 24 * Hour
     then Err (Errorf ''Only hour and day partitionDurations are supported'')
     else case op_Open L (badger_options L config) of
       Ok db \<Rightarrow> Ok (db, ConfigPartitionDuration config)
     | Err e \<Rightarrow> Err (Errorf ''badger.OpenStore failed'')
     | Panic m \<Rightarrow> Panic m)"

definition DatabaseRestore :: "(string \<Rightarrow> 'f res) \<Rightarrow> ('f \<Rightarrow> 'db \<Rightarrow> 'db res) \<Rightarrow> 'db \<Rightarrow> string \<Rightarrow> 'db res" where
  "DatabaseRestore open_file load db filename =
    bind_res (map_err (\<lambda>e. Wrapped e (''failed to load database restore file: '' @ filename)) (open_file filename)) (\<lambda>f.
      map_err (\<lambda>e. Wrapped e (''failed to restore database from file: '' @ filename)) (load f db))"

section \<open>The Kubernetes context\<close>

definition GetKubernetesContext :: "(string \<Rightarrow> string \<Rightarrow> string res) \<Rightarrow> string \<Rightarrow> string \<Rightarrow> bool \<Rightarrow> string res" where
  "GetKubernetesContext currentContextOf masterURL kubeContextPreference privilegedAccess =
    (if privilegedAccess
     then bind_res (currentContextOf masterURL kubeContextPreference) (\<lambda>current.
            Ok (if kubeContextPreference \<noteq> [] then kubeContextPreference else current))
     else Ok kubeContextPreference)"

section \<open>The configurations of the parts\<close>

definition store_config_of :: "'r SloopConfig \<Rightarrow> string \<Rightarrow> StoreConfig" where
  "store_config_of conf kubeContext =
    \<lparr>RootPath = path_Join [StoreRoot conf, kubeContext], ConfigPartitionDuration = 1 * Hour,
     s_BadgerMaxTableSize = BadgerMaxTableSize conf, s_BadgerKeepL0InMemory = BadgerKeepL0InMemory conf,
     s_BadgerVLogFileSize = BadgerVLogFileSize conf, s_BadgerVLogMaxEntries = BadgerVLogMaxEntries conf,
     s_BadgerUseLSMOnlyOptions = BadgerUseLSMOnlyOptions conf, s_BadgerEnableEventLogging = BadgerEnableEventLogging conf,
     s_BadgerNumOfCompactors = BadgerNumOfCompactors conf, s_BadgerNumL0Tables = BadgerNumL0Tables conf,
     s_BadgerNumL0TablesStall = BadgerNumL0TablesStall conf, s_BadgerSyncWrites = BadgerSyncWrites conf,
     s_BadgerLevelOneSize = BadgerLevelOneSize conf, s_BadgerLevSizeMultiplier = BadgerLevSizeMultiplier conf,
     s_BadgerVLogFileIOMapping = BadgerVLogFileIOMapping conf, s_BadgerDetailLogEnabled = BadgerDetailLogEnabled conf,
     s_BadgerVLogTruncate = BadgerVLogTruncate conf\<rparr>"

definition manager_config_of :: "'r SloopConfig \<Rightarrow> store_config" where
  "manager_config_of conf =
    \<lparr>sc_StoreRoot = StoreRoot conf, sc_Freq = CleanupFrequency conf, sc_TimeLimit = MaxLookback conf,
     sc_SizeLimitBytes = wrap_int64 (MaxDiskMb conf * 1024 * 1024), sc_BadgerDiscardRatio = BadgerDiscardRatio conf,
     sc_BadgerVLogGCFreq = BadgerVLogGCFreq conf, sc_DeletionBatchSize = DeletionBatchSize conf,
     sc_GCThreshold = ThresholdForGC conf, sc_EnableDeleteKeys = EnableDeleteKeys conf\<rparr>"

definition display_context :: "'r SloopConfig \<Rightarrow> string \<Rightarrow> string" where
  "display_context conf kubeContext = (if DisplayContext conf \<noteq> [] then DisplayContext conf else kubeContext)"

definition web_config_of :: "('r SloopConfig \<Rightarrow> string) \<Rightarrow> 'r SloopConfig \<Rightarrow> string \<Rightarrow> WebConfig" where
  "web_config_of ToYaml conf kubeContext =
    \<lparr>wc_BindAddress = BindAddress conf, wc_Port = Port conf, wc_WebFilesPath = WebFilesPath conf,
     wc_DefaultNamespace = DefaultNamespace conf, wc_DefaultLookback = DefaultLookback conf,
     wc_DefaultResources = DefaultKind conf, wc_MaxLookback = MaxLookback conf, wc_ConfigYaml = ToYaml conf,
     wc_ResourceLinks = ResourceLinks conf, wc_LeftBarLinks = LeftBarLinks conf,
     wc_CurrentContext = display_context conf kubeContext, wc_EnableUserMetrics = EnableUserMetrics conf\<rparr>"

section \<open>Routes\<close>

text \<open>The patterns and the handlers of the web server, in the order of registration.\<close>

datatype handler = Redirect | Health | Metrics | Index | WebFile | BackupPage | Query | ResourcePage
  | ListKeys | HistogramPage | TablesPage | ViewKey | ConfigPage | Traces | Events | Vars | DebugIndex

definition routes :: "string \<Rightarrow> (string \<times> handler) list" where
  "routes currentContext =
    (let ccPrefix = ''/'' @ currentContext
     in [(''/'', Redirect), (''/healthz'', Health), (''/metrics'', Metrics),
         (ccPrefix, Index), (ccPrefix @ ''/webfiles/'', WebFile), (ccPrefix @ ''/data/backup'', BackupPage),
         (ccPrefix @ ''/data'', Query), (ccPrefix @ ''/resource'', ResourcePage),
         (ccPrefix @ ''/debug/listkeys/'', ListKeys), (ccPrefix @ ''/debug/histogram/'', HistogramPage),
         (ccPrefix @ ''/debug/tables/'', TablesPage), (ccPrefix @ ''/debug/view'', ViewKey),
         (ccPrefix @ ''/debug/config/'', ConfigPage), (ccPrefix @ ''/debug/requests'', Traces),
         (ccPrefix @ ''/debug/events'', Events), (ccPrefix @ ''/debug/vars'', Vars), (ccPrefix @ ''/debug/'', DebugIndex)])"

text \<open>\<open>ServeMux.Handle\<close>: a pattern that is registered twice panics.\<close>

fun mux_register :: "(string \<times> handler) list \<Rightarrow> (string \<times> handler) list \<Rightarrow> (string \<times> handler) list res" where
  "mux_register [] mux = Ok mux"
| "mux_register ((pattern, h) # rs) mux =
    (if pattern = [] then Panic ''http: invalid pattern''
     else if pattern \<in> set (map fst mux) then Panic (''http: multiple registrations for '' @ pattern)
     else mux_register rs (mux @ [(pattern, h)]))"

definition registerRoutes :: "WebConfig \<Rightarrow> (string \<times> handler) list res" where
  "registerRoutes config = mux_register (routes (wc_CurrentContext config)) []"

text \<open>
  \<open>ServeMux.match\<close>: the handler of the pattern that is the path, otherwise of the longest pattern
  that ends in a slash and that the path starts with.
\<close>

definition longest_match :: "string \<Rightarrow> (string \<times> handler) list \<Rightarrow> (string \<times> handler) option" where
  "longest_match path mux =
    fold (\<lambda>(p, h) best. if last p = CHR ''/'' \<and> prefix p path \<and> (case best of None \<Rightarrow> True | Some (q, _) \<Rightarrow> length q < length p)
      then Some (p, h) else best) mux None"

definition mux_match :: "(string \<times> handler) list \<Rightarrow> string \<Rightarrow> handler option" where
  "mux_match mux path = (case map_of mux path of Some h \<Rightarrow> Some h | None \<Rightarrow> map_option snd (longest_match path mux))"

section \<open>Lemmas\<close>

lemma mux_register_distinct:
  "mux_register rs mux = Ok r \<longleftrightarrow> r = mux @ rs \<and> [] \<notin> set (map fst rs) \<and> distinct (map fst rs)
     \<and> set (map fst rs) \<inter> set (map fst mux) = {}"
proof (induction rs mux arbitrary: r rule: mux_register.induct)
  case (2 pattern h rs mux)
  then show ?case by auto
qed auto

lemma routes_distinct:
  "distinct (map fst (routes ctx)) \<longleftrightarrow> ctx \<notin> {[], ''healthz'', ''metrics''}"
  by (auto simp: routes_def Let_def)

lemma registerRoutes_Ok_iff:
  "registerRoutes config = Ok mux \<longleftrightarrow> wc_CurrentContext config \<notin> {[], ''healthz'', ''metrics''}
     \<and> mux = routes (wc_CurrentContext config)"
proof -
  have "[] \<notin> set (map fst (routes ctx))" for ctx by (auto simp: routes_def Let_def)
  then show ?thesis
    by (auto simp: registerRoutes_def mux_register_distinct routes_distinct simp del: list.set_map)
qed

text \<open>Only its own pattern and the root match the path of a backup without its context.\<close>

lemma longest_match_root:
  assumes "\<forall>(p, h) \<in> set mux. last p = CHR ''/'' \<longrightarrow> prefix p path \<longrightarrow> length p \<le> length q"
  shows "fold (\<lambda>(p, h) best. if last p = CHR ''/'' \<and> prefix p path
      \<and> (case best of None \<Rightarrow> True | Some (q, _) \<Rightarrow> length q < length p) then Some (p, h) else best) mux (Some (q, g)) = Some (q, g)"
  using assms by (induction mux) auto

text \<open>
  The documented address of a backup, without a context, is answered by the root page (which
  does not find it); the backup is below the context.
\<close>

lemma backup_needs_context:
  assumes "ctx \<noteq> []" "CHR ''/'' \<notin> set ctx"
  shows "mux_match (routes ctx) ''/data/backup'' = Some Redirect"
    "ctx \<noteq> ''healthz'' \<Longrightarrow> ctx \<noteq> ''metrics'' \<Longrightarrow> mux_match (routes ctx) (''/'' @ ctx @ ''/data/backup'') = Some BackupPage"
proof -
  have last: "last ctx \<noteq> CHR ''/''" using assms last_in_set by metis
  have no: "map_of (routes ctx) ''/data/backup'' = None"
    using assms by (auto simp: routes_def Let_def map_of_eq_None_iff append_eq_Cons_conv)
  have "p = ''/'' \<or> \<not> prefix p ''/data/backup'' \<or> last p \<noteq> CHR ''/''" if "(p, h) \<in> set (routes ctx)" for p h
    using that assms last by (auto simp: routes_def Let_def prefix_def append_eq_Cons_conv Cons_eq_append_conv)
  then have "\<forall>(p, h) \<in> set (tl (routes ctx)). last p = CHR ''/'' \<longrightarrow> prefix p ''/data/backup'' \<longrightarrow> length p \<le> length ''/''"
    by (fastforce dest: list.set_sel(2)[rotated] simp: routes_def Let_def)
  from longest_match_root[OF this] have "longest_match ''/data/backup'' (routes ctx) = Some (''/'', Redirect)"
    by (simp add: longest_match_def routes_def Let_def)
  then show "mux_match (routes ctx) ''/data/backup'' = Some Redirect" by (simp add: mux_match_def no)
  show "mux_match (routes ctx) (''/'' @ ctx @ ''/data/backup'') = Some BackupPage" if "ctx \<noteq> ''healthz''" "ctx \<noteq> ''metrics''"
  proof -
    have "(''/'' @ ctx @ ''/data/backup'', BackupPage) \<in> set (routes ctx)" by (simp add: routes_def Let_def)
    moreover have "distinct (map fst (routes ctx))" using routes_distinct[of ctx] assms(1) that by simp
    ultimately have "map_of (routes ctx) (''/'' @ ctx @ ''/data/backup'') = Some BackupPage" by (rule map_of_is_SomeI[rotated])
    then show ?thesis by (simp add: mux_match_def)
  qed
qed

text \<open>A first round of the garbage collection of a manager whose clean-up panics, panics.\<close>

lemma first_round_panics:
  assumes "badger_store B dview dok tview tok writable ahead iopts" "dok d" "zero_ns + Second \<le> tns now"
    and "getPartitionsToDelete B pd plat d (sc_TimeLimit cfg) (sc_SizeLimitBytes cfg)
      (wrap_int64 (fst (getDirSizeRecursive walk (sc_StoreRoot cfg)))) (sc_GCThreshold cfg) = Some (Panic m)"
  shows "gc_round B pd plat walk tables now now' (NewStoreManager d cfg) = Some (Panic m)"
proof -
  obtain n where n: "GetTotalKeyCount B d [] = Some (Ok n)"
    using badger_store.total_key_count[OF assms(1,2), of "[]"] by auto
  obtain tot f b e where g: "getDirSizeRecursive walk (sc_StoreRoot cfg) = (tot, f, b, e)" by (metis prod_cases4)
  obtain t k where "count_tables (tables d) = (t, k)" by fastforce
  then obtain stats where stats: "generateStats B walk tables now (sc_StoreRoot cfg) d = Some (Ok stats)"
    "st_DiskSizeBytes stats = wrap_int64 (fst (getDirSizeRecursive walk (sc_StoreRoot cfg)))"
    using n g by (simp add: generateStats_def)
  have "\<not> time_Sub now zero_time < Second"
    using assms(3) by (simp add: time_Sub_def zero_time_def Second_def)
  then show ?thesis
    using stats assms(4)
    by (simp add: gc_round_def sm_refresh_def refreshStats_def NewStoreManager_def doCleanup_def)
qed

section \<open>Properties\<close>

text \<open>
  The contexts the web server starts with. The routes register exactly when the context is not
  the empty string and not the name of a root page; then all seventeen are there. With any of
  the three, in particular with the empty context that a program inside a cluster has unless
  another is configured, the registration panics.
\<close>

lemma routes_registered_iff:
  "((\<exists>mux. registerRoutes (web_config_of toYaml conf kubeContext) = Ok mux \<and> length mux = 17)
     \<longleftrightarrow> display_context conf kubeContext \<notin> {[], ''healthz'', ''metrics''})
   \<and> (display_context conf kubeContext = [] \<longrightarrow>
        registerRoutes (web_config_of toYaml conf kubeContext) = Panic ''http: multiple registrations for /'')"
proof -
  have "length (routes ctx) = 17" for ctx by (simp add: routes_def Let_def)
  then have "(\<exists>mux. registerRoutes (web_config_of toYaml conf kubeContext) = Ok mux \<and> length mux = 17)
     \<longleftrightarrow> display_context conf kubeContext \<notin> {[], ''healthz'', ''metrics''}"
    by (simp add: registerRoutes_Ok_iff web_config_of_def)
  moreover have "display_context conf kubeContext = [] \<longrightarrow>
     registerRoutes (web_config_of toYaml conf kubeContext) = Panic ''http: multiple registrations for /''"
    by (simp add: registerRoutes_def web_config_of_def routes_def Let_def)
  ultimately show ?thesis ..
qed

lemma routes_registered_iff_witness:
  "registerRoutes (web_config_of (\<lambda>c. []) (getDefaultConfig :: unit SloopConfig) []) = Panic ''http: multiple registrations for /''"
  by (rule routes_registered_iff[THEN conjunct2, rule_format]) (simp add: display_context_def getDefaultConfig_def)

text \<open>
  C36: the validation accepts retentions that stop the program. A configuration with a positive
  \<open>MaxLookback\<close> below the hour of a partition is valid when the default with that value is, but
  the first round of the store manager that is started with it panics on any store with rows
  whose partitions are those of its tables, as long as the disk is not full.
\<close>

theorem accepted_lookback_panics:
  fixes conf :: "'r SloopConfig"
  assumes "conf = getDefaultConfig\<lparr>MaxLookback := limit\<rparr>" "0 < limit" "limit < Hour" "parseDuration ''1h'' = Ok x"
    and "badger_store B dview dok tview tok writable ahead iopts" "dok d" "tables_parse (dview d)"
    and "\<not> hasFilesOnDiskExceededThreshold (wrap_int64 (fst (getDirSizeRecursive walk ''./data''))) (2 ^ 35) (fround (8 / 10))"
    and "sane_partitions (dview d)" "zero_ns + Second \<le> tns now"
  shows "Validate parseDuration conf = Ok ()
    \<and> gc_round B (ConfigPartitionDuration (store_config_of conf kubeContext)) plat walk tables now now'
       (NewStoreManager d (manager_config_of conf)) = Some (Panic ''index out of range'')"
proof -
  have "Validate parseDuration conf = Ok ()"
    using assms(1,2,4) by (simp add: Validate_def getDefaultConfig_def Minute_def)
  moreover have pd: "ConfigPartitionDuration (store_config_of conf kubeContext) = Hour" by (simp add: store_config_of_def)
  have cfg: "sc_TimeLimit (manager_config_of conf) = limit" "sc_SizeLimitBytes (manager_config_of conf) = 2 ^ 35"
    "sc_StoreRoot (manager_config_of conf) = ''./data''" "sc_GCThreshold (manager_config_of conf) = fround (8 / 10)"
    using assms(1) by (simp_all add: manager_config_of_def getDefaultConfig_def wrap_int64_def)
  have "gc_round B (ConfigPartitionDuration (store_config_of conf kubeContext)) plat walk tables now now'
       (NewStoreManager d (manager_config_of conf)) = Some (Panic ''index out of range'')"
    unfolding pd
    by (rule first_round_panics[OF assms(5,6,10)], unfold cfg,
        rule short_retention_panics[OF assms(5-7) _ assms(3,8,9)]) (simp add: valid_pd_def)
  ultimately show ?thesis by simp
qed

theorem accepted_lookback_panics_witness:
  "\<exists>conf :: unit SloopConfig. Validate (\<lambda>s. Ok Hour) conf = Ok () \<and> MaxLookback conf = 30 * Minute
    \<and> gc_round mock_ops Hour (\<lambda>_. 0) (\<lambda>_. []) (\<lambda>_. []) (Time 1546405200000000000 UTC) (Time 1546405200000000000 UTC)
        (NewStoreManager sample_store (manager_config_of conf)) = Some (Panic ''index out of range'')"
proof -
  let ?c = "getDefaultConfig\<lparr>MaxLookback := 30 * Minute\<rparr> :: unit SloopConfig"
  have small: "\<not> hasFilesOnDiskExceededThreshold (wrap_int64 (fst (getDirSizeRecursive (\<lambda>_. []) ''./data''))) (2 ^ 35) (fround (8 / 10))"
  proof -
    obtain y where y: "fround (8 / 10) = Fin y" "0 \<le> y" "y \<le> of_int 1" by (rule fround_small[of "8 / 10" 1]) auto
    have "0 \<le> y * 2 ^ 35" "y * 2 ^ 35 \<le> of_int (2 ^ 35)" using y by simp_all
    then obtain z where z: "fround (y * 2 ^ 35) = Fin z" "0 \<le> z" by (rule fround_small) auto
    have "f_of_int (2 ^ 35) = Fin (2 ^ 35)" "f_of_int 0 = Fin 0"
      using f_of_int_small[of "2 ^ 35"] f_of_int_small[of 0] by simp_all
    then show ?thesis
      using y z by (simp add: getDirSizeRecursive_def wrap_int64_def hasFilesOnDiskExceededThreshold_def)
  qed
  note rule = accepted_lookback_panics[where conf = ?c and limit = "30 * Minute" and parseDuration = "\<lambda>s. Ok Hour"
      and now = "Time 1546405200000000000 UTC", OF refl _ _ refl mock.badger_store_axioms sample_ok sample_tables small sample_sane]
  show ?thesis
    using rule[where kubeContext = "''a''" and plat = "\<lambda>_. 0" and tables = "\<lambda>_. []"
        and now' = "Time 1546405200000000000 UTC"]
    by (intro exI[of _ ?c]) (simp add: store_config_of_def Minute_def Hour_def zero_ns_def Second_def)
qed

end
