(* ===== verification/KubeWatcher.thy ===== *)
theory KubeWatcher
  imports Extract Schema "HOL-Library.Multiset"
begin

text \<open>
  \<open>pkg/sloop/ingress/kubewatcher.go\<close>. The first part is sequential: which custom resources are
  watched, which objects the rules exclude, and the record made of an object. The second part is
  the watcher as a state machine: the goroutines of the informers, the one that refreshes the
  custom informers and the callers of \<open>Stop\<close> interleave at the lock \<open>protection\<close>, at channel
  operations and between the two halves of \<open>Stop\<close>. The Kubernetes clients, \<open>encoding/json\<close> and
  \<open>jsonlogic\<close> are parameters; metrics and log lines have no effect on what is written and are
  left out.
\<close>

section \<open>Custom resources\<close>

record crdGroupVersionResourceKind =
  crd_group :: string
  crd_version :: string
  crd_resource :: string
  crd_kind :: string

text \<open>The part of a custom resource definition that the code reads.\<close>

record CustomResourceDefinition =
  spec_Group :: string
  spec_Versions :: "string list"
  spec_Plural :: string
  spec_Kind :: string

record ('cfg, 'client) kube_lib =
  kl_ClientConfig :: "string \<Rightarrow> string \<Rightarrow> 'cfg res"
  kl_newCrdClient :: "'cfg \<Rightarrow> 'client res"
  kl_ListV1 :: "'client \<Rightarrow> CustomResourceDefinition list res"
  kl_ListV1beta1 :: "'client \<Rightarrow> CustomResourceDefinition list res"
  kl_newDynamicClient :: "'cfg \<Rightarrow> unit res"

definition crd_resources :: "CustomResourceDefinition list \<Rightarrow> crdGroupVersionResourceKind list" where
  "crd_resources items = concat (map (\<lambda>crd. map (\<lambda>version.
     \<lparr>crd_group = spec_Group crd, crd_version = version, crd_resource = spec_Plural crd, crd_kind = spec_Kind crd\<rparr>)
     (spec_Versions crd)) items)"

definition getCrdListV1beta1 :: "('cfg, 'client) kube_lib \<Rightarrow> 'client \<Rightarrow> crdGroupVersionResourceKind list res" where
  "getCrdListV1beta1 L crdClient =
    bind_res (map_err (\<lambda>e. Wrapped e ''failed to query CRDs'') (kl_ListV1beta1 L crdClient)) (\<lambda>items. Ok (crd_resources items))"

definition getCrdList :: "('cfg, 'client) kube_lib \<Rightarrow> 'client \<Rightarrow> crdGroupVersionResourceKind list res" where
  "getCrdList L crdClient =
    (case kl_ListV1 L crdClient of
       Err e \<Rightarrow> getCrdListV1beta1 L crdClient
     | Panic m \<Rightarrow> Panic m
     | Ok items \<Rightarrow> Ok (crd_resources items))"

text \<open>What \<open>startCustomInformers\<close> does before it touches the state: the list of custom resources, or an error.\<close>

definition custom_resources :: "('cfg, 'client) kube_lib \<Rightarrow> string \<Rightarrow> string \<Rightarrow> crdGroupVersionResourceKind list res" where
  "custom_resources L masterURL kubeContext =
    bind_res (map_err (\<lambda>e. Wrapped e ''failed to read config while starting custom informers'')
        (kl_ClientConfig L masterURL kubeContext)) (\<lambda>kubeCfg.
      bind_res (map_err (\<lambda>e. Wrapped e ''failed to instantiate client for querying CRDs'')
          (kl_newCrdClient L kubeCfg)) (\<lambda>crdClient.
        bind_res (map_err (\<lambda>e. Wrapped e ''failed to query list of CRDs'') (getCrdList L crdClient)) (\<lambda>crdList.
          bind_res (map_err (\<lambda>e. Wrapped e ''failed to instantiate client for custom informers'')
              (kl_newDynamicClient L kubeCfg)) (\<lambda>_. Ok crdList))))"

section \<open>Exclusion rules\<close>

text \<open>
  Objects have a type of their own; \<open>has_ObjectMeta\<close> tells whether the struct behind the pointer
  has the field \<open>ObjectMeta\<close> that the code reads by reflection (objects of custom resources,
  which are maps, do not).
\<close>

record ('obj, 'rule) object_lib =
  json_Marshal_obj :: "'obj \<Rightarrow> string res"
  json_Marshal_rule :: "'rule \<Rightarrow> string res"
  jsonlogic_Apply :: "string \<Rightarrow> string \<Rightarrow> string res"
  has_ObjectMeta :: "'obj \<Rightarrow> bool"

definition getExclusionRules :: "(string \<times> 'rule list) list \<Rightarrow> string \<Rightarrow> 'rule list" where
  "getExclusionRules exclusionRules kind =
    (let kindRules = (case map_of exclusionRules kind of None \<Rightarrow> [] | Some rs \<Rightarrow> rs);
         globalRules = (case map_of exclusionRules ''_all'' of None \<Rightarrow> [] | Some rs \<Rightarrow> rs)
     in kindRules @ globalRules)"

fun excluded_by :: "('obj, 'rule) object_lib \<Rightarrow> 'rule list \<Rightarrow> string \<Rightarrow> bool res" where
  "excluded_by L [] resourceJson = Ok False"
| "excluded_by L (logic # filters) resourceJson =
    (case json_Marshal_rule L logic of
       Err e \<Rightarrow> Ok False
     | Panic m \<Rightarrow> Panic m
     | Ok logicJson \<Rightarrow>
         (case jsonlogic_Apply L logicJson resourceJson of
            Err e \<Rightarrow> Ok False
          | Panic m \<Rightarrow> Panic m
          | Ok result \<Rightarrow> if contains_str result ''true'' then Ok True else excluded_by L filters resourceJson))"

definition eventExcluded ::
  "('obj, 'rule) object_lib \<Rightarrow> (string \<times> 'rule list) list \<Rightarrow> string \<Rightarrow> string \<Rightarrow> bool res" where
  "eventExcluded L exclusionRules kind resourceJson = excluded_by L (getExclusionRules exclusionRules kind) resourceJson"

definition getResourceAsJsonString :: "('obj, 'rule) object_lib \<Rightarrow> 'obj \<Rightarrow> string res" where
  "getResourceAsJsonString L obj =
    map_err (\<lambda>e. Wrapped e ''resource cannot be marshalled'') (json_Marshal_obj L obj)"

text \<open>The record that is written for an object, if any.\<close>

definition processUpdate ::
  "('obj, 'rule) object_lib \<Rightarrow> (string \<times> 'rule list) list \<Rightarrow> string \<Rightarrow> 'obj \<Rightarrow> KubeWatchResult \<Rightarrow> KubeWatchResult option res" where
  "processUpdate L exclusionRules kind obj watchResult =
    (case getResourceAsJsonString L obj of
       Err e \<Rightarrow> Ok None
     | Panic m \<Rightarrow> Panic m
     | Ok resourceJson \<Rightarrow>
         bind_res (eventExcluded L exclusionRules kind resourceJson) (\<lambda>excluded.
           if excluded then
             (if has_ObjectMeta L obj then Ok None else Panic ''reflect: call of reflect.Value.FieldByName on zero Value'')
           else Ok (Some (watchResult\<lparr>wr_Payload := resourceJson\<rparr>))))"

text \<open>What an informer hands over: an object, or for a missed deletion its last known state.\<close>

datatype 'obj informer_object = Object 'obj | DeletedFinalStateUnknown 'obj

definition watch_shell :: "pb_timestamp \<Rightarrow> string \<Rightarrow> WatchType \<Rightarrow> KubeWatchResult" where
  "watch_shell now kind watchType = \<lparr>wr_Timestamp = Some now, wr_Kind = kind, wr_WatchType = watchType, wr_Payload = []\<rparr>"

definition reportAdd where
  "reportAdd L exclusionRules now kind obj = processUpdate L exclusionRules kind obj (watch_shell now kind KubeWatchResult_ADD)"

definition reportUpdate where
  "reportUpdate L exclusionRules now kind oldObj newObj =
    processUpdate L exclusionRules kind newObj (watch_shell now kind KubeWatchResult_UPDATE)"

definition reportDelete where
  "reportDelete L exclusionRules now kind obj =
    processUpdate L exclusionRules kind (case obj of Object ob \<Rightarrow> ob | DeletedFinalStateUnknown ob \<Rightarrow> ob)
      (watch_shell now kind KubeWatchResult_DELETE)"

section \<open>The watcher\<close>

text \<open>
  The threads: the goroutine that refreshes the custom informers (its first round is run by
  \<open>NewKubeWatcherSource\<close>), and any number of others, which report objects or call \<open>Stop\<close>. The
  program counter of a thread says where inside a call it is:
  \<^item> \<open>Idle\<close>: in no call, or back from one;
  \<^item> \<open>Sending w\<close>: in \<open>writeToOutChan\<close>, holding the lock, about to send;
  \<^item> \<open>Refreshing crds existing\<close>: in the loop of \<open>startCustomInformers\<close>, with what is left of the list
    and of the informers it pulled;
  \<^item> \<open>Stopping\<close>: in \<open>Stop\<close>, after the lock was given back; \<open>Pulling\<close>: after \<open>stopChan\<close> was closed;
  \<^item> \<open>Closing chans\<close>: in \<open>stopUnwantedCrdInformers\<close>, with the channels left to close.

  A \<open>crdInformerInfo\<close> is the number of its stop channel. Sections under the lock that cannot
  block are one step.
\<close>

datatype thread = Refresher | Goroutine nat

datatype pc =
    Idle
  | Sending KubeWatchResult
  | Refreshing "crdGroupVersionResourceKind list" "(crdGroupVersionResourceKind \<times> nat) list"
  | Stopping
  | Pulling
  | Closing "nat list"

text \<open>
  \<open>kw_chans\<close> counts the stop channels made for custom informers, \<open>kw_closed\<close> lists those closed and
  \<open>kw_panicked\<close> records that a channel was closed twice, which is a panic in Go.
\<close>

record kubeWatcherImpl =
  kw_stopChanClosed :: bool
  kw_crdInformers :: "(crdGroupVersionResourceKind \<times> nat) list"
  kw_outchan :: "KubeWatchResult list"
  kw_protection :: "thread option"
  kw_stopped :: bool
  kw_chans :: nat
  kw_closed :: "nat list"
  kw_panicked :: bool
  kw_pc :: "thread \<Rightarrow> pc"

definition NewKubeWatcherSource :: kubeWatcherImpl where
  "NewKubeWatcherSource = \<lparr>kw_stopChanClosed = False, kw_crdInformers = [], kw_outchan = [], kw_protection = None,
     kw_stopped = False, kw_chans = 0, kw_closed = [], kw_panicked = False, kw_pc = (\<lambda>_. Idle)\<rparr>"

definition goto :: "thread \<Rightarrow> pc \<Rightarrow> kubeWatcherImpl \<Rightarrow> kubeWatcherImpl" where
  "goto t p i = i\<lparr>kw_pc := (kw_pc i)(t := p)\<rparr>"

definition pullCrdInformers :: "kubeWatcherImpl \<Rightarrow> (crdGroupVersionResourceKind \<times> nat) list \<times> kubeWatcherImpl" where
  "pullCrdInformers i = (kw_crdInformers i, i\<lparr>kw_crdInformers := []\<rparr>)"

definition existingOrStartNewCrdInformer ::
  "crdGroupVersionResourceKind \<Rightarrow> (crdGroupVersionResourceKind \<times> nat) list \<Rightarrow> kubeWatcherImpl
     \<Rightarrow> (crdGroupVersionResourceKind \<times> nat) list \<times> kubeWatcherImpl" where
  "existingOrStartNewCrdInformer crd existing i =
    (if kw_stopped i then (existing, i)
     else case map_of existing crd of
       Some crdInformer \<Rightarrow>
         (AList.delete crd existing, i\<lparr>kw_crdInformers := AList.update crd crdInformer (kw_crdInformers i)\<rparr>)
     | None \<Rightarrow>
         (existing, i\<lparr>kw_crdInformers := AList.update crd (kw_chans i) (kw_crdInformers i), kw_chans := Suc (kw_chans i)\<rparr>))"

definition close_crd_informer :: "nat \<Rightarrow> kubeWatcherImpl \<Rightarrow> kubeWatcherImpl" where
  "close_crd_informer c i =
    i\<lparr>kw_panicked := kw_panicked i \<or> c \<in> set (kw_closed i), kw_closed := kw_closed i @ [c]\<rparr>"

text \<open>The two halves of \<open>writeToOutChan\<close>, and the three of \<open>Stop\<close> before the informers are closed.\<close>

definition writeToOutChan_lock :: "thread \<Rightarrow> KubeWatchResult \<Rightarrow> kubeWatcherImpl \<Rightarrow> kubeWatcherImpl" where
  "writeToOutChan_lock t watchResult i =
    (if kw_stopped i then i else goto t (Sending watchResult) (i\<lparr>kw_protection := Some t\<rparr>))"

definition writeToOutChan_send :: "thread \<Rightarrow> KubeWatchResult \<Rightarrow> kubeWatcherImpl \<Rightarrow> kubeWatcherImpl" where
  "writeToOutChan_send t watchResult i =
    goto t Idle (i\<lparr>kw_outchan := kw_outchan i @ [watchResult], kw_protection := None\<rparr>)"

definition Stop_lock :: "thread \<Rightarrow> kubeWatcherImpl \<Rightarrow> kubeWatcherImpl" where
  "Stop_lock t i =
    (if kw_stopped i then i\<lparr>kw_protection := Some t\<rparr>
     else goto t Stopping (i\<lparr>kw_stopped := True\<rparr>))"

definition Stop_close :: "thread \<Rightarrow> kubeWatcherImpl \<Rightarrow> kubeWatcherImpl" where
  "Stop_close t i = goto t Pulling (i\<lparr>kw_panicked := kw_panicked i \<or> kw_stopChanClosed i, kw_stopChanClosed := True\<rparr>)"

definition Stop_pull :: "thread \<Rightarrow> kubeWatcherImpl \<Rightarrow> kubeWatcherImpl" where
  "Stop_pull t i = (let (crdInformers, i') = pullCrdInformers i in goto t (Closing (map snd crdInformers)) i')"

text \<open>The start of a refresh that got the list of custom resources, and a round of its loop.\<close>

definition refresh_pull :: "thread \<Rightarrow> crdGroupVersionResourceKind list \<Rightarrow> kubeWatcherImpl \<Rightarrow> kubeWatcherImpl" where
  "refresh_pull t crdList i = (let (existing, i') = pullCrdInformers i in goto t (Refreshing crdList existing) i')"

definition refresh_next ::
  "thread \<Rightarrow> crdGroupVersionResourceKind \<Rightarrow> crdGroupVersionResourceKind list \<Rightarrow> (crdGroupVersionResourceKind \<times> nat) list
     \<Rightarrow> kubeWatcherImpl \<Rightarrow> kubeWatcherImpl" where
  "refresh_next t crd crds existing i =
    (let (existing', i') = existingOrStartNewCrdInformer crd existing i in goto t (Refreshing crds existing') i')"

text \<open>
  The steps, for a channel of capacity \<open>cap\<close>. A step says which thread took it (\<open>None\<close>: the
  consumer of the channel) and what it wrote. The API server lists a resource once.
\<close>

inductive kw_step ::
  "nat \<Rightarrow> kubeWatcherImpl \<Rightarrow> thread option \<times> KubeWatchResult option \<Rightarrow> kubeWatcherImpl \<Rightarrow> bool" for cap where
  write_lock: "kw_pc i (Goroutine n) = Idle \<Longrightarrow> kw_protection i = None \<Longrightarrow>
    kw_step cap i (Some (Goroutine n), None) (writeToOutChan_lock (Goroutine n) w i)"
| write_send: "kw_pc i t = Sending w \<Longrightarrow> length (kw_outchan i) < cap \<Longrightarrow>
    kw_step cap i (Some t, Some w) (writeToOutChan_send t w i)"
| receive: "kw_outchan i = w # ws \<Longrightarrow> kw_step cap i (None, None) (i\<lparr>kw_outchan := ws\<rparr>)"
| refresh: "kw_pc i Refresher = Idle \<Longrightarrow> kw_protection i = None \<Longrightarrow> distinct crdList \<Longrightarrow>
    kw_step cap i (Some Refresher, None) (refresh_pull Refresher crdList i)"
| refresh_crd: "kw_pc i t = Refreshing (crd # crds) existing \<Longrightarrow> kw_protection i = None \<Longrightarrow>
    kw_step cap i (Some t, None) (refresh_next t crd crds existing i)"
| refresh_end: "kw_pc i t = Refreshing [] existing \<Longrightarrow>
    kw_step cap i (Some t, None) (goto t (Closing (map snd existing)) i)"
| stop_lock: "kw_pc i (Goroutine n) = Idle \<Longrightarrow> kw_protection i = None \<Longrightarrow>
    kw_step cap i (Some (Goroutine n), None) (Stop_lock (Goroutine n) i)"
| stop_close: "kw_pc i t = Stopping \<Longrightarrow> kw_step cap i (Some t, None) (Stop_close t i)"
| stop_pull: "kw_pc i t = Pulling \<Longrightarrow> kw_protection i = None \<Longrightarrow> kw_step cap i (Some t, None) (Stop_pull t i)"
| close_next: "kw_pc i t = Closing (c # cs) \<Longrightarrow>
    kw_step cap i (Some t, None) (goto t (Closing cs) (close_crd_informer c i))"
| close_end: "kw_pc i t = Closing [] \<Longrightarrow> kw_step cap i (Some t, None) (goto t Idle i)"

inductive kw_run :: "nat \<Rightarrow> kubeWatcherImpl \<Rightarrow> kubeWatcherImpl \<Rightarrow> bool" for cap where
  run_refl: "kw_run cap i i"
| run_step: "kw_run cap i j \<Longrightarrow> kw_step cap j l k \<Longrightarrow> kw_run cap i k"

abbreviation kw_reachable :: "nat \<Rightarrow> kubeWatcherImpl \<Rightarrow> bool" where
  "kw_reachable cap \<equiv> kw_run cap NewKubeWatcherSource"

lemmas kw_op_defs = writeToOutChan_lock_def writeToOutChan_send_def Stop_lock_def Stop_close_def Stop_pull_def
  refresh_pull_def refresh_next_def existingOrStartNewCrdInformer_def close_crd_informer_def pullCrdInformers_def goto_def

section \<open>Who holds a channel\<close>

text \<open>Each stop channel is in one place: the map, the hands of a thread, or the closed ones.\<close>

datatype place = InMap | With thread | Closed

fun owned :: "pc \<Rightarrow> nat list" where
  "owned (Refreshing crds existing) = map snd existing"
| "owned (Closing chans) = chans"
| "owned p = []"

fun holds :: "kubeWatcherImpl \<Rightarrow> place \<Rightarrow> nat list" where
  "holds i InMap = map snd (kw_crdInformers i)"
| "holds i (With t) = owned (kw_pc i t)"
| "holds i Closed = kw_closed i"

definition chans_ok :: "(place \<Rightarrow> nat list) \<Rightarrow> nat \<Rightarrow> bool" where
  "chans_ok h n \<longleftrightarrow> (\<forall>p. distinct (h p) \<and> set (h p) \<subseteq> {..<n}) \<and> (\<forall>c<n. \<exists>!p. c \<in> set (h p))"

lemma chans_ok_unique: "chans_ok h n \<Longrightarrow> c \<in> set (h p) \<Longrightarrow> c \<in> set (h q) \<Longrightarrow> p = q"
  unfolding chans_ok_def by blast

lemma chans_move:
  assumes ok: "chans_ok h n" and pq: "p \<noteq> q"
    and moved: "mset (h' p) + mset (h' q) = mset (h p) + mset (h q)"
    and same: "\<And>r. r \<noteq> p \<Longrightarrow> r \<noteq> q \<Longrightarrow> h' r = h r"
  shows "chans_ok h' n"
proof -
  have m: "mset (h' p @ h' q) = mset (h p @ h q)" using moved by simp
  have sets: "set (h' p) \<union> set (h' q) = set (h p) \<union> set (h q)" using mset_eq_setD[OF m] by simp
  have "distinct (h p @ h q)" using ok pq chans_ok_unique[OF ok] by (auto simp: chans_ok_def)
  then have dist: "distinct (h' p @ h' q)" using mset_eq_imp_distinct_iff[OF m] by simp
  have one: "\<exists>!r. c \<in> set (h' r)" if c: "c < n" for c
  proof -
    obtain r where r: "c \<in> set (h r)" "\<And>r'. c \<in> set (h r') \<Longrightarrow> r' = r" using ok c unfolding chans_ok_def by blast
    show ?thesis
    proof (cases "r = p \<or> r = q")
      case True
      then have "c \<in> set (h' p) \<union> set (h' q)" using r(1) sets by auto
      moreover have "c \<notin> set (h' r')" if "r' \<noteq> p" "r' \<noteq> q" for r'
        using same[OF that] r(2) True that by auto
      ultimately show ?thesis using dist by (metis Un_iff disjoint_iff distinct_append)
    next
      case False
      then have "c \<notin> set (h' p) \<union> set (h' q)" unfolding sets using r(2) by auto
      then show ?thesis using False r same by (metis UnCI)
    qed
  qed
  have "distinct (h' r) \<and> set (h' r) \<subseteq> {..<n}" for r
  proof (cases "r = p \<or> r = q")
    case True
    have "set (h p) \<union> set (h q) \<subseteq> {..<n}" using ok by (simp add: chans_ok_def)
    then show ?thesis using True dist sets by auto
  qed (use ok same in \<open>auto simp: chans_ok_def\<close>)
  then show ?thesis using one by (simp add: chans_ok_def)
qed

lemma chans_add:
  assumes ok: "chans_ok h n" and new: "mset (h' p) = add_mset n (mset (h p))"
    and same: "\<And>r. r \<noteq> p \<Longrightarrow> h' r = h r"
  shows "chans_ok h' (Suc n)"
proof -
  have m: "mset (h' p) = mset (n # h p)" using new by simp
  have set: "set (h' p) = insert n (set (h p))" using mset_eq_setD[OF m] by simp
  have less: "x < n" if "x \<in> set (h r)" for x r using ok that by (auto simp: chans_ok_def)
  have n: "n \<notin> set (h r)" for r using less by blast
  have "distinct (n # h p)" using ok n by (simp add: chans_ok_def)
  then have "distinct (h' p)" using mset_eq_imp_distinct_iff[OF m] by blast
  then have "distinct (h' r) \<and> set (h' r) \<subseteq> {..<Suc n}" for r
    using ok same[of r] set less[of _ r] by (cases "r = p") (auto simp: chans_ok_def less_Suc_eq)
  moreover have "\<exists>!r. c \<in> set (h' r)" if "c < Suc n" for c
  proof (cases "c = n")
    case True
    then show ?thesis using set n same by (metis insertI1)
  next
    case False
    then have "c \<in> set (h' r) \<longleftrightarrow> c \<in> set (h r)" for r using set same by (cases "r = p") auto
    moreover have "\<exists>!r. c \<in> set (h r)" using ok False that by (simp add: chans_ok_def)
    ultimately show ?thesis by simp
  qed
  ultimately show ?thesis by (simp add: chans_ok_def)
qed

section \<open>The invariant\<close>

definition pc_ok :: "kubeWatcherImpl \<Rightarrow> thread \<Rightarrow> bool" where
  "pc_ok i t \<longleftrightarrow> (case kw_pc i t of
     Sending w \<Rightarrow> kw_protection i = Some t \<and> \<not> kw_stopped i
   | Refreshing crds existing \<Rightarrow> t = Refresher \<and> distinct crds \<and> distinct (map fst existing)
       \<and> set crds \<inter> fst ` set (kw_crdInformers i) = {}
   | Stopping \<Rightarrow> kw_stopped i \<and> \<not> kw_stopChanClosed i \<and> t \<noteq> Refresher
   | Pulling \<Rightarrow> kw_stopped i \<and> kw_stopChanClosed i \<and> t \<noteq> Refresher
   | _ \<Rightarrow> True)"

definition stopping :: "kubeWatcherImpl \<Rightarrow> thread set" where
  "stopping i = {t. kw_pc i t = Stopping \<or> kw_pc i t = Pulling}"

definition kw_inv :: "kubeWatcherImpl \<Rightarrow> bool" where
  "kw_inv i \<longleftrightarrow> chans_ok (holds i) (kw_chans i) \<and> (\<forall>t. pc_ok i t)
    \<and> (\<forall>t \<in> stopping i. \<forall>u \<in> stopping i. t = u)
    \<and> distinct (map fst (kw_crdInformers i))
    \<and> (\<not> kw_stopped i \<longrightarrow> \<not> kw_stopChanClosed i)
    \<and> (kw_stopped i \<and> stopping i = {} \<longrightarrow> kw_crdInformers i = [] \<and> kw_stopChanClosed i)
    \<and> \<not> kw_panicked i"

lemma mset_delete_key:
  assumes "distinct (map fst xs)" "map_of xs k = Some v"
  shows "add_mset v (mset (map snd (AList.delete k xs))) = mset (map snd xs)"
  using assms
proof (induction xs)
  case (Cons x xs)
  show ?case
  proof (cases "fst x = k")
    case True
    then have "AList.delete k xs = xs" using Cons.prems(1) by (metis delete_id list.simps(9) distinct.simps(2) image_set)
    then show ?thesis using True Cons.prems by (cases x) (simp add: AList.delete_eq)
  next
    case False
    then have "add_mset v (mset (map snd (AList.delete k xs))) = mset (map snd xs)"
      using Cons.IH Cons.prems by (cases x) auto
    then show ?thesis using False by (cases x) (simp add: AList.delete_eq add_mset_commute)
  qed
qed simp

lemma update_new_key: "k \<notin> fst ` set xs \<Longrightarrow> AList.update k v xs = xs @ [(k, v)]"
  by (induction xs) auto

text \<open>A step that moves no channel.\<close>

lemma chans_keep:
  assumes "kw_inv i" "map snd (kw_crdInformers j) = map snd (kw_crdInformers i)" "kw_closed j = kw_closed i"
    and "\<And>t. owned (kw_pc j t) = owned (kw_pc i t)" "kw_chans j = kw_chans i"
  shows "chans_ok (holds j) (kw_chans j)"
proof -
  have "holds j p = holds i p" for p using assms(2-4) by (cases p) auto
  then have "holds j = holds i" by blast
  then show ?thesis using assms(1,5) by (simp add: kw_inv_def)
qed

lemma kw_inv_init: "kw_inv NewKubeWatcherSource"
proof -
  have "holds NewKubeWatcherSource p = []" for p by (cases p) (simp_all add: NewKubeWatcherSource_def)
  then show ?thesis by (simp add: kw_inv_def chans_ok_def pc_ok_def stopping_def NewKubeWatcherSource_def)
qed

lemma kw_step_chans:
  assumes "kw_step cap i l j" "kw_inv i"
  shows "chans_ok (holds j) (kw_chans j)"
  using assms(1)
proof cases
  case (write_lock n w)
  then show ?thesis by (intro chans_keep[OF assms(2)]) (auto simp: kw_op_defs)
next
  case (write_send t w)
  then show ?thesis by (intro chans_keep[OF assms(2)]) (auto simp: kw_op_defs)
next
  case (receive w ws)
  then show ?thesis by (intro chans_keep[OF assms(2)]) (auto simp: kw_op_defs)
next
  case (refresh crdList)
  have "chans_ok (holds i) (kw_chans i)" using assms(2) by (simp add: kw_inv_def)
  then have "chans_ok (holds j) (kw_chans i)"
  proof (rule chans_move[where p = InMap and q = "With Refresher"])
    fix r assume "r \<noteq> InMap" "r \<noteq> With Refresher"
    then show "holds j r = holds i r" using refresh by (cases r) (auto simp: kw_op_defs)
  qed (use refresh in \<open>auto simp: kw_op_defs\<close>)
  then show ?thesis using refresh by (simp add: kw_op_defs)
next
  case (refresh_crd t crd crds existing)
  have ok: "chans_ok (holds i) (kw_chans i)" using assms(2) by (simp add: kw_inv_def)
  have p: "pc_ok i t" using assms(2) by (simp add: kw_inv_def)
  have new: "crd \<notin> fst ` set (kw_crdInformers i)" "distinct (map fst existing)"
    using p refresh_crd by (auto simp: pc_ok_def)
  consider "kw_stopped i" | c where "\<not> kw_stopped i" "map_of existing crd = Some c" | "\<not> kw_stopped i" "map_of existing crd = None"
    by (cases "map_of existing crd") auto
  then show ?thesis
  proof cases
    case 1
    then show ?thesis using refresh_crd by (intro chans_keep[OF assms(2)]) (auto simp: kw_op_defs)
  next
    case 2
    have "chans_ok (holds j) (kw_chans i)"
      using ok
    proof (rule chans_move[where p = InMap and q = "With t"])
      fix r assume "r \<noteq> InMap" "r \<noteq> With t"
      then show "holds j r = holds i r" using refresh_crd 2 by (cases r) (auto simp: kw_op_defs)
    qed (use refresh_crd 2 mset_delete_key[OF new(2) 2(2)] in \<open>auto simp: kw_op_defs update_new_key[OF new(1)]\<close>)
    then show ?thesis using refresh_crd 2 by (simp add: kw_op_defs)
  next
    case 3
    have "chans_ok (holds j) (Suc (kw_chans i))"
      using ok
    proof (rule chans_add[where p = InMap])
      fix r assume "r \<noteq> InMap"
      then show "holds j r = holds i r" using refresh_crd 3 by (cases r) (auto simp: kw_op_defs)
    qed (use refresh_crd 3 in \<open>auto simp: kw_op_defs update_new_key[OF new(1)]\<close>)
    then show ?thesis using refresh_crd 3 by (simp add: kw_op_defs)
  qed
next
  case (refresh_end t existing)
  then show ?thesis by (intro chans_keep[OF assms(2)]) (auto simp: kw_op_defs)
next
  case (stop_lock n)
  then show ?thesis by (intro chans_keep[OF assms(2)]) (auto simp: kw_op_defs)
next
  case (stop_close t)
  then show ?thesis by (intro chans_keep[OF assms(2)]) (auto simp: kw_op_defs)
next
  case (stop_pull t)
  have "chans_ok (holds i) (kw_chans i)" using assms(2) by (simp add: kw_inv_def)
  then have "chans_ok (holds j) (kw_chans i)"
  proof (rule chans_move[where p = InMap and q = "With t"])
    fix r assume "r \<noteq> InMap" "r \<noteq> With t"
    then show "holds j r = holds i r" using stop_pull by (cases r) (auto simp: kw_op_defs)
  qed (use stop_pull in \<open>auto simp: kw_op_defs\<close>)
  then show ?thesis using stop_pull by (simp add: kw_op_defs)
next
  case (close_next t c cs)
  have "chans_ok (holds i) (kw_chans i)" using assms(2) by (simp add: kw_inv_def)
  then have "chans_ok (holds j) (kw_chans i)"
  proof (rule chans_move[where p = Closed and q = "With t"])
    fix r assume "r \<noteq> Closed" "r \<noteq> With t"
    then show "holds j r = holds i r" using close_next by (cases r) (auto simp: kw_op_defs)
  qed (use close_next in \<open>auto simp: kw_op_defs\<close>)
  then show ?thesis using close_next by (simp add: kw_op_defs)
next
  case (close_end t)
  then show ?thesis by (intro chans_keep[OF assms(2)]) (auto simp: kw_op_defs)
qed

lemma update_keys: "fst ` set (AList.update k v xs) = insert k (fst ` set xs)"
  using dom_update[of k v xs] by (simp add: dom_map_of_conv_image_fst)

lemma delete_keys: "distinct (map fst xs) \<Longrightarrow> distinct (map fst (AList.delete k xs))"
  by (simp add: distinct_delete)

lemma pc_okD:
  "kw_inv i \<Longrightarrow> pc_ok i t"
  by (simp add: kw_inv_def)

lemma pc_ok_frame:
  assumes "pc_ok i u" "kw_pc j u = kw_pc i u" "kw_stopped j = kw_stopped i" "kw_stopChanClosed j = kw_stopChanClosed i"
    and "kw_protection j = kw_protection i" "fst ` set (kw_crdInformers j) \<subseteq> fst ` set (kw_crdInformers i)"
  shows "pc_ok j u"
proof (cases "kw_pc i u")
  case (Refreshing crds existing)
  then have "set crds \<inter> fst ` set (kw_crdInformers i) = {}" using assms(1) by (simp add: pc_ok_def)
  then have "set crds \<inter> fst ` set (kw_crdInformers j) = {}" using assms(6) by blast
  then show ?thesis using Refreshing assms(1-5) by (simp add: pc_ok_def)
qed (use assms in \<open>simp_all add: pc_ok_def\<close>)

text \<open>A step of one thread keeps the others where they are.\<close>

lemma pc_ok_owner:
  assumes "kw_inv i" "u = t \<Longrightarrow> pc_ok j t" "u \<noteq> t \<Longrightarrow> kw_pc j u = kw_pc i u"
    and "kw_stopped j = kw_stopped i" "kw_stopChanClosed j = kw_stopChanClosed i"
    and "kw_protection j = kw_protection i" "fst ` set (kw_crdInformers j) \<subseteq> fst ` set (kw_crdInformers i)"
  shows "pc_ok j u"
  using assms pc_ok_frame[OF pc_okD[OF assms(1), of u], of j] by (cases "u = t") simp_all

lemma refresh_crd_pc_ok:
  assumes "kw_inv i" and refresh_crd: "j = refresh_next t crd crds existing i" "kw_pc i t = Refreshing (crd # crds) existing" "kw_protection i = None"
  shows "pc_ok j u"
proof -
  have p: "pc_ok i t" "pc_ok i u" using assms(1) by (simp_all add: kw_inv_def)
  have same: "kw_stopped j = kw_stopped i" "kw_stopChanClosed j = kw_stopChanClosed i" "kw_protection j = kw_protection i"
    using refresh_crd by (auto simp: kw_op_defs split: option.splits)
  show ?thesis
  proof (cases "u = t")
    case False
    then have "kw_pc j u = kw_pc i u" using refresh_crd by (auto simp: kw_op_defs split: option.splits)
    moreover have "\<forall>cs ex. kw_pc i u \<noteq> Refreshing cs ex" using p False refresh_crd by (auto simp: pc_ok_def)
    ultimately show ?thesis using p(2) same by (cases "kw_pc i u") (simp_all add: pc_ok_def)
  next
    case True
    have q: "t = Refresher" "crd \<notin> set crds" "distinct crds" "distinct (map fst existing)"
      "set crds \<inter> fst ` set (kw_crdInformers i) = {}"
      using p(1) refresh_crd by (auto simp: pc_ok_def)
    let ?ex = "fst (existingOrStartNewCrdInformer crd existing i)"
    have "kw_pc j t = Refreshing crds ?ex"
      using refresh_crd by (simp add: refresh_next_def goto_def split_beta)
    moreover have "distinct (map fst ?ex)"
      using q(4) by (simp add: existingOrStartNewCrdInformer_def delete_keys split: option.split)
    moreover have "set crds \<inter> fst ` set (kw_crdInformers j) = {}"
      using refresh_crd q(2,5) by (auto simp: kw_op_defs update_keys split: option.splits)
    ultimately show ?thesis using q True by (simp add: pc_ok_def)
  qed
qed

lemma stop_close_pc_ok:
  assumes "kw_inv i" and stop_close: "j = Stop_close t i" "kw_pc i t = Stopping"
  shows "pc_ok j u"
proof -
  have p: "pc_ok i u" "pc_ok i t" by (rule pc_okD[OF assms(1)])+
  have one: "\<forall>t \<in> stopping i. \<forall>u \<in> stopping i. t = u" using assms(1) by (simp add: kw_inv_def)
  have t: "t \<in> stopping i" using stop_close by (simp add: stopping_def)
  show ?thesis
  proof (cases "u = t")
    case True
    then show ?thesis using stop_close p by (simp add: pc_ok_def kw_op_defs)
  next
    case False
    then have "u \<notin> stopping i" using one t by blast
    then show ?thesis using stop_close False p(1)
      by (cases "kw_pc i u") (simp_all add: pc_ok_def kw_op_defs stopping_def)
  qed
qed

lemma kw_step_pc_ok:
  assumes "kw_step cap i l j" "kw_inv i"
  shows "pc_ok j u"
  using assms(1)
proof cases
  case (refresh_crd t crd crds existing)
  then show ?thesis using refresh_crd_pc_ok[OF assms(2)] by blast
next
  case (stop_close t)
  then show ?thesis using stop_close_pc_ok[OF assms(2)] by blast
next
  case (stop_lock n)
  have p: "pc_ok i u" by (rule pc_okD[OF assms(2)])
  have c: "\<not> kw_stopped i \<Longrightarrow> \<not> kw_stopChanClosed i" using assms(2) by (simp add: kw_inv_def)
  show ?thesis
  proof (cases "u = Goroutine n")
    case True
    then show ?thesis using stop_lock c by (cases "kw_stopped i") (simp_all add: pc_ok_def kw_op_defs)
  next
    case False
    then show ?thesis using stop_lock p
      by (cases "kw_pc i u"; cases "kw_stopped i") (simp_all add: pc_ok_def kw_op_defs)
  qed
next
  case (write_lock n w)
  have p: "pc_ok i u" by (rule pc_okD[OF assms(2)])
  show ?thesis
  proof (cases "u = Goroutine n")
    case True
    then show ?thesis using write_lock by (cases "kw_stopped i") (simp_all add: pc_ok_def kw_op_defs)
  next
    case False
    then show ?thesis using write_lock p
      by (cases "kw_pc i u"; cases "kw_stopped i") (simp_all add: pc_ok_def kw_op_defs)
  qed
next
  case (write_send t w)
  have p: "pc_ok i u" "pc_ok i t" by (rule pc_okD[OF assms(2)])+
  show ?thesis
  proof (cases "u = t")
    case True
    then show ?thesis using write_send by (simp add: pc_ok_def kw_op_defs)
  next
    case False
    then show ?thesis using write_send p
      by (cases "kw_pc i u") (simp_all add: pc_ok_def kw_op_defs)
  qed
next
  case (receive w ws)
  show ?thesis unfolding receive by (rule pc_ok_frame[OF pc_okD[OF assms(2), of u]]) simp_all
next
  case (refresh crdList)
  have k: "distinct (map fst (kw_crdInformers i))" using assms(2) by (simp add: kw_inv_def)
  show ?thesis using refresh k by (intro pc_ok_owner[OF assms(2), of u Refresher]) (simp_all add: pc_ok_def kw_op_defs)
next
  case (refresh_end t existing)
  then show ?thesis by (intro pc_ok_owner[OF assms(2), of u t]) (simp_all add: pc_ok_def kw_op_defs)
next
  case (stop_pull t)
  then show ?thesis by (intro pc_ok_owner[OF assms(2), of u t]) (simp_all add: pc_ok_def kw_op_defs)
next
  case (close_next t c cs)
  then show ?thesis by (intro pc_ok_owner[OF assms(2), of u t]) (simp_all add: pc_ok_def kw_op_defs)
next
  case (close_end t)
  then show ?thesis by (intro pc_ok_owner[OF assms(2), of u t]) (simp_all add: pc_ok_def kw_op_defs)
qed

lemma kw_step_stop:
  assumes "kw_step cap i l j" "kw_inv i"
  shows "(\<forall>t \<in> stopping j. \<forall>u \<in> stopping j. t = u) \<and> distinct (map fst (kw_crdInformers j))
    \<and> (\<not> kw_stopped j \<longrightarrow> \<not> kw_stopChanClosed j)
    \<and> (kw_stopped j \<and> stopping j = {} \<longrightarrow> kw_crdInformers j = [] \<and> kw_stopChanClosed j)"
proof -
  have one: "\<forall>t \<in> stopping i. \<forall>u \<in> stopping i. t = u" and keys: "distinct (map fst (kw_crdInformers i))"
    and open_chan: "\<not> kw_stopped i \<longrightarrow> \<not> kw_stopChanClosed i"
    and fin: "kw_stopped i \<and> stopping i = {} \<longrightarrow> kw_crdInformers i = [] \<and> kw_stopChanClosed i"
    using assms(2) by (auto simp: kw_inv_def)
  have none: "stopping i = {}" if "\<not> kw_stopped i"
  proof -
    have "t \<notin> stopping i" for t using that pc_okD[OF assms(2), of t] by (auto simp: stopping_def pc_ok_def)
    then show ?thesis by blast
  qed
  show ?thesis
    using assms(1)
  proof cases
    case (refresh_crd t crd crds existing)
    have "stopping j = stopping i" using refresh_crd by (auto simp: stopping_def kw_op_defs split: option.splits)
    then show ?thesis using refresh_crd one keys open_chan fin none
      by (auto simp: kw_op_defs distinct_update split: option.splits)
  next
    case (stop_lock n)
    show ?thesis
    proof (cases "kw_stopped i")
      case True
      then have "stopping j = stopping i" using stop_lock by (simp add: kw_op_defs stopping_def)
      then show ?thesis using stop_lock True one keys open_chan fin by (simp add: kw_op_defs)
    next
      case False
      then have "stopping j = {Goroutine n}" using stop_lock none by (auto simp: kw_op_defs stopping_def)
      then show ?thesis using stop_lock False keys by (simp add: kw_op_defs)
    qed
  next
    case (stop_close t)
    then have "stopping j = stopping i" by (auto simp: stopping_def kw_op_defs)
    moreover have "kw_stopped i" using stop_close pc_okD[OF assms(2), of t] by (simp add: pc_ok_def)
    ultimately show ?thesis using stop_close one keys fin by (auto simp: kw_op_defs)
  next
    case (stop_pull t)
    then have "t \<in> stopping i" "stopping j = stopping i - {t}" by (auto simp: stopping_def kw_op_defs)
    then have "stopping j = {}" using one by blast
    moreover have "kw_stopChanClosed i" using stop_pull pc_okD[OF assms(2), of t] by (simp add: pc_ok_def)
    ultimately show ?thesis using stop_pull pc_okD[OF assms(2), of t] by (auto simp: kw_op_defs pc_ok_def)
  next
    case (refresh crdList)
    then have "stopping j = stopping i" by (auto simp: stopping_def kw_op_defs)
    then show ?thesis using refresh one open_chan fin by (auto simp: kw_op_defs)
  next
    case (write_lock n w)
    then have "stopping j = stopping i" by (auto simp: stopping_def kw_op_defs)
    then show ?thesis using write_lock one keys open_chan fin by (auto simp: kw_op_defs)
  next
    case (write_send t w)
    then have "stopping j = stopping i" by (auto simp: stopping_def kw_op_defs)
    then show ?thesis using write_send one keys open_chan fin by (auto simp: kw_op_defs)
  next
    case (receive w ws)
    then have "stopping j = stopping i" by (auto simp: stopping_def kw_op_defs)
    then show ?thesis using receive one keys open_chan fin by (auto simp: kw_op_defs)
  next
    case (refresh_end t existing)
    then have "stopping j = stopping i" by (auto simp: stopping_def kw_op_defs)
    then show ?thesis using refresh_end one keys open_chan fin by (auto simp: kw_op_defs)
  next
    case (close_next t c cs)
    then have "stopping j = stopping i" by (auto simp: stopping_def kw_op_defs)
    then show ?thesis using close_next one keys open_chan fin by (auto simp: kw_op_defs)
  next
    case (close_end t)
    then have "stopping j = stopping i" by (auto simp: stopping_def kw_op_defs)
    then show ?thesis using close_end one keys open_chan fin by (auto simp: kw_op_defs)
  qed
qed

lemma kw_step_no_panic:
  assumes "kw_step cap i l j" "kw_inv i"
  shows "\<not> kw_panicked j"
  using assms(1)
proof cases
  case (close_next t c cs)
  have "c \<notin> set (kw_closed i)"
    using chans_ok_unique[of "holds i" "kw_chans i" c "With t" Closed] assms(2) close_next by (auto simp: kw_inv_def)
  then show ?thesis using close_next assms(2) by (simp add: kw_op_defs kw_inv_def)
next
  case (stop_close t)
  then show ?thesis using pc_okD[OF assms(2), of t] assms(2) by (simp add: kw_op_defs kw_inv_def pc_ok_def)
next
  case (refresh_crd t crd crds existing)
  then show ?thesis using assms(2) by (simp add: kw_op_defs kw_inv_def split: option.splits)
qed (use assms(2) in \<open>simp_all add: kw_op_defs kw_inv_def\<close>)

lemma kw_step_inv:
  assumes "kw_step cap i l j" "kw_inv i"
  shows "kw_inv j"
  unfolding kw_inv_def[of j]
  using kw_step_chans[OF assms] kw_step_pc_ok[OF assms] kw_step_stop[OF assms] kw_step_no_panic[OF assms] by blast

lemma kw_run_inv: "kw_run cap i j \<Longrightarrow> kw_inv i \<Longrightarrow> kw_inv j"
  by (induction rule: kw_run.induct) (auto intro: kw_step_inv)

lemma kw_reachable_inv: "kw_reachable cap i \<Longrightarrow> kw_inv i"
  using kw_run_inv kw_inv_init by blast

inductive_cases kw_step_writeE: "kw_step cap i (t, Some w) j"

lemma kw_step_stopped: "kw_step cap i l j \<Longrightarrow> kw_stopped i \<Longrightarrow> kw_stopped j"
  by (cases rule: kw_step.cases, assumption) (auto simp: kw_op_defs split: option.splits)

lemma kw_run_stopped: "kw_run cap i j \<Longrightarrow> kw_stopped i \<Longrightarrow> kw_stopped j"
  by (induction rule: kw_run.induct) (auto intro: kw_step_stopped)

lemma kw_run_trans: "kw_run cap j k \<Longrightarrow> kw_run cap i j \<Longrightarrow> kw_run cap i k"
  by (induction rule: kw_run.induct) (auto intro: run_step)

text \<open>A lock that a thread took and left locked: nothing can take it, and the threads that wait stay.\<close>

lemma kw_step_leaked:
  assumes "kw_step cap i l j" "kw_protection i = Some t" "kw_pc i t = Idle" "kw_inv i"
  shows "kw_protection j = Some t \<and> kw_pc j t = Idle \<and> kw_crdInformers j = kw_crdInformers i"
  using assms(1)
proof cases
  case (write_send u w)
  then have "u = t" using pc_okD[OF assms(4), of u] assms(2) by (simp add: pc_ok_def)
  then show ?thesis using write_send assms(3) by simp
qed (use assms(2,3) in \<open>auto simp: kw_op_defs\<close>)

lemma kw_run_leaked:
  "kw_run cap i j \<Longrightarrow> kw_protection i = Some t \<Longrightarrow> kw_pc i t = Idle \<Longrightarrow> kw_inv i
    \<Longrightarrow> kw_protection j = Some t \<and> kw_pc j t = Idle \<and> kw_crdInformers j = kw_crdInformers i"
proof (induction rule: kw_run.induct)
  case (run_step i j l k)
  then show ?case using kw_step_leaked[OF run_step.hyps(2)] kw_run_inv by metis
qed simp

section \<open>Calls that return\<close>

abbreviation own_steps :: "nat \<Rightarrow> thread \<Rightarrow> kubeWatcherImpl \<Rightarrow> kubeWatcherImpl \<Rightarrow> bool" where
  "own_steps cap t \<equiv> (\<lambda>i j. \<exists>out. kw_step cap i (Some t, out) j)\<^sup>*\<^sup>*"

lemma own_step:
  "kw_step cap i (Some t, out) j \<Longrightarrow> own_steps cap t j k \<Longrightarrow> own_steps cap t i k"
  by (rule converse_rtranclp_into_rtranclp) auto

lemma closing_returns: "kw_pc i t = Closing cs \<Longrightarrow> \<exists>j. own_steps cap t i j \<and> kw_pc j t = Idle"
proof (induction cs arbitrary: i)
  case Nil
  have "own_steps cap t i (goto t Idle i)" by (rule own_step[OF close_end[OF Nil]]) simp
  then show ?case by (auto simp: goto_def)
next
  case (Cons c cs)
  have "kw_pc (goto t (Closing cs) (close_crd_informer c i)) t = Closing cs" by (simp add: goto_def)
  from Cons.IH[OF this] show ?case using own_step[OF close_next[OF Cons.prems]] by blast
qed

lemma refreshing_returns:
  "kw_pc i t = Refreshing crds existing \<Longrightarrow> kw_protection i = None \<Longrightarrow> \<exists>j. own_steps cap t i j \<and> kw_pc j t = Idle"
proof (induction crds arbitrary: i existing)
  case Nil
  have "kw_pc (goto t (Closing (map snd existing)) i) t = Closing (map snd existing)" by (simp add: goto_def)
  from closing_returns[OF this] show ?case using own_step[OF refresh_end[OF Nil(1)]] by blast
next
  case (Cons crd crds)
  let ?j = "refresh_next t crd crds existing i"
  have "kw_pc ?j t = Refreshing crds (fst (existingOrStartNewCrdInformer crd existing i))"
    by (simp add: refresh_next_def goto_def split_beta)
  moreover have "kw_protection ?j = None" using Cons.prems(2) by (simp add: kw_op_defs split: option.split)
  ultimately show ?case using Cons.IH own_step[OF refresh_crd[OF Cons.prems]] by blast
qed

lemma pulling_returns:
  assumes "kw_pc i t = Pulling" "kw_protection i = None"
  shows "\<exists>j. own_steps cap t i j \<and> kw_pc j t = Idle"
proof -
  have "kw_pc (Stop_pull t i) t = Closing (map snd (kw_crdInformers i))" by (simp add: kw_op_defs)
  from closing_returns[OF this] show ?thesis using own_step[OF stop_pull[OF assms]] by blast
qed

lemma stopping_returns:
  assumes "kw_pc i t = Stopping" "kw_protection i = None"
  shows "\<exists>j. own_steps cap t i j \<and> kw_pc j t = Idle"
proof -
  have "kw_pc (Stop_close t i) t = Pulling" "kw_protection (Stop_close t i) = None"
    using assms(2) by (simp_all add: kw_op_defs)
  from pulling_returns[OF this] show ?thesis using own_step[OF stop_close[OF assms(1)]] by blast
qed

section \<open>Which objects are written\<close>

text \<open>What one rule says of an object.\<close>

definition rule_says :: "('obj, 'rule) object_lib \<Rightarrow> string \<Rightarrow> 'rule \<Rightarrow> bool res" where
  "rule_says L resourceJson logic =
    bind_res (json_Marshal_rule L logic) (\<lambda>logicJson.
      bind_res (jsonlogic_Apply L logicJson resourceJson) (\<lambda>result. Ok (contains_str result ''true'')))"

lemma excluded_by_Cons:
  "excluded_by L (r # rs) json = (case rule_says L json r of
     Ok True \<Rightarrow> Ok True | Ok False \<Rightarrow> excluded_by L rs json | Err e \<Rightarrow> Ok False | Panic m \<Rightarrow> Panic m)"
  by (auto simp: rule_says_def split: res.split bool.split)

lemma not_excluded_iff:
  "excluded_by L rs json = Ok False \<longleftrightarrow> (\<exists>pre post. rs = pre @ post \<and> (\<forall>r \<in> set pre. rule_says L json r = Ok False)
     \<and> (post = [] \<or> (\<exists>e. rule_says L json (hd post) = Err e)))"
proof (induction rs)
  case (Cons r rs)
  let ?R = "\<lambda>pre post. (\<forall>r \<in> set pre. rule_says L json r = Ok False)
     \<and> (post = [] \<or> (\<exists>e. rule_says L json (hd post) = Err e))"
  have "(\<exists>pre post. r # rs = pre @ post \<and> ?R pre post)
    \<longleftrightarrow> (\<exists>e. rule_says L json r = Err e) \<or> rule_says L json r = Ok False \<and> (\<exists>pre post. rs = pre @ post \<and> ?R pre post)"
    (is "?l \<longleftrightarrow> ?r")
  proof
    assume ?l
    then obtain pre post where pp: "r # rs = pre @ post" "?R pre post" by blast
    show ?r
    proof (cases pre)
      case Nil
      then have "post = r # rs" using pp(1) by simp
      then show ?thesis using pp(2) by simp
    next
      case (Cons a pre')
      then have "a = r" "rs = pre' @ post" using pp(1) by simp_all
      moreover from this have "rule_says L json r = Ok False" "?R pre' post" using Cons pp(2) by simp_all
      ultimately show ?thesis by blast
    qed
  next
    assume ?r
    then show ?l
    proof
      assume "\<exists>e. rule_says L json r = Err e"
      then show ?l by (intro exI[of _ "[]"] exI[of _ "r # rs"]) simp
    next
      assume "rule_says L json r = Ok False \<and> (\<exists>pre post. rs = pre @ post \<and> ?R pre post)"
      then obtain pre post where "rule_says L json r = Ok False" "rs = pre @ post" "?R pre post" by blast
      then show ?l by (intro exI[of _ "r # pre"] exI[of _ post]) auto
    qed
  qed
  then show ?case unfolding excluded_by_Cons using Cons.IH by (auto split: res.split bool.split)
qed simp

text \<open>A custom resource that a rule excludes: the code looks for its \<open>ObjectMeta\<close> and panics.\<close>

lemma excluded_custom_resource_panics:
  assumes "json_Marshal_obj L obj = Ok json" "eventExcluded L rules kind json = Ok True" "\<not> has_ObjectMeta L obj"
  shows "\<exists>m. processUpdate L rules kind obj shell = Panic m"
  using assms by (simp add: processUpdate_def getResourceAsJsonString_def)

section \<open>A watcher that ran\<close>

text \<open>One custom resource, whose informer has been started; then \<open>Stop\<close> is called.\<close>

definition sample_crd :: crdGroupVersionResourceKind where
  "sample_crd = \<lparr>crd_group = ''g'', crd_version = ''v1'', crd_resource = ''foos'', crd_kind = ''Foo''\<rparr>"

definition sample_started :: kubeWatcherImpl where
  "sample_started = NewKubeWatcherSource\<lparr>kw_crdInformers := [(sample_crd, 0)], kw_chans := 1\<rparr>"

lemma goto_Idle: "kw_pc i t = Idle \<Longrightarrow> goto t Idle i = i"
  by (simp add: goto_def fun_upd_idem)

lemma sample_started: "kw_reachable cap sample_started"
proof -
  let ?i1 = "refresh_pull Refresher [sample_crd] NewKubeWatcherSource"
  let ?i2 = "refresh_next Refresher sample_crd [] [] ?i1"
  let ?i3 = "goto Refresher (Closing (map snd ([] :: (crdGroupVersionResourceKind \<times> nat) list))) ?i2"
  have "kw_step cap NewKubeWatcherSource (Some Refresher, None) ?i1"
    by (rule refresh) (simp_all add: NewKubeWatcherSource_def)
  moreover have "kw_step cap ?i1 (Some Refresher, None) ?i2"
    by (rule refresh_crd) (simp_all add: NewKubeWatcherSource_def kw_op_defs)
  moreover have "kw_step cap ?i2 (Some Refresher, None) ?i3"
    by (rule refresh_end) (simp add: NewKubeWatcherSource_def kw_op_defs)
  moreover have "kw_step cap ?i3 (Some Refresher, None) (goto Refresher Idle ?i3)"
    by (rule close_end) (simp add: goto_def)
  ultimately have "kw_reachable cap (goto Refresher Idle ?i3)" by (meson run_refl run_step)
  moreover have "goto Refresher Idle ?i3 = sample_started"
    by (simp add: NewKubeWatcherSource_def kw_op_defs sample_started_def fun_eq_iff)
  ultimately show ?thesis by simp
qed

text \<open>The state in which \<open>Stop\<close> has set \<open>stopped\<close>, and the one in which it has returned.\<close>

definition sample_stopping :: kubeWatcherImpl where
  "sample_stopping = Stop_lock (Goroutine 0) sample_started"

lemma sample_stopping: "kw_reachable cap sample_stopping" "kw_stopped sample_stopping"
    "kw_pc sample_stopping (Goroutine 0) = Stopping" "kw_protection sample_stopping = None"
    "kw_crdInformers sample_stopping = [(sample_crd, 0)]" "kw_pc sample_stopping (Goroutine 1) = Idle"
proof -
  have "kw_step cap sample_started (Some (Goroutine 0), None) sample_stopping"
    unfolding sample_stopping_def by (rule stop_lock) (simp_all add: sample_started_def NewKubeWatcherSource_def)
  then show "kw_reachable cap sample_stopping" using sample_started by (rule run_step[rotated])
qed (simp_all add: sample_stopping_def sample_started_def NewKubeWatcherSource_def kw_op_defs)

definition sample_stopped :: kubeWatcherImpl where
  "sample_stopped = NewKubeWatcherSource\<lparr>kw_stopped := True, kw_stopChanClosed := True, kw_chans := 1, kw_closed := [0]\<rparr>"

lemma sample_stopped: "kw_reachable cap sample_stopped"
proof -
  let ?t = "Goroutine 0"
  let ?i1 = "Stop_close ?t sample_stopping" and ?i2 = "Stop_pull ?t (Stop_close ?t sample_stopping)"
  let ?i3 = "goto ?t (Closing []) (close_crd_informer 0 ?i2)"
  have "kw_step cap sample_stopping (Some ?t, None) ?i1" by (rule stop_close[OF sample_stopping(3)])
  moreover have "kw_step cap ?i1 (Some ?t, None) ?i2"
    by (rule stop_pull) (simp_all add: kw_op_defs sample_stopping(4)[unfolded kw_op_defs])
  moreover have "kw_step cap ?i2 (Some ?t, None) ?i3"
    by (rule close_next) (simp add: kw_op_defs sample_stopping(5)[unfolded kw_op_defs])
  moreover have "kw_step cap ?i3 (Some ?t, None) (goto ?t Idle ?i3)" by (rule close_end) (simp add: goto_def)
  ultimately have "kw_reachable cap (goto ?t Idle ?i3)" using sample_stopping(1) by (meson run_step)
  moreover have "goto ?t Idle ?i3 = sample_stopped"
    by (simp add: sample_stopped_def sample_stopping_def sample_started_def NewKubeWatcherSource_def kw_op_defs fun_eq_iff)
  ultimately show ?thesis by simp
qed

section \<open>Properties\<close>

text \<open>
  C15: nothing is written after \<open>Stop\<close>. From the moment \<open>Stop\<close> has set \<open>stopped\<close> under the
  lock, in every interleaving, no step of any thread sends to the output channel, although the
  informers may still call the handlers.
\<close>

theorem no_write_after_stop:
  assumes "kw_reachable cap i" "kw_stopped i" "kw_run cap i j" "kw_step cap j (t, out) k"
  shows "out = None"
proof (cases out)
  case (Some w)
  have inv: "kw_inv j" using kw_reachable_inv[OF assms(1)] kw_run_inv[OF assms(3)] by blast
  from assms(4)[unfolded Some] obtain u where "kw_pc j u = Sending w" by (rule kw_step_writeE)
  then have "\<not> kw_stopped j" using pc_okD[OF inv, of u] by (simp add: pc_ok_def)
  then show ?thesis using kw_run_stopped[OF assms(3,2)] by simp
qed

theorem no_write_after_stop_witness:
  "\<not> (\<exists>t w k. kw_step 1000 sample_stopping (t, Some w) k)
    \<and> kw_step 1000 sample_stopping (Some (Goroutine 0), None) (Stop_close (Goroutine 0) sample_stopping)"
  using no_write_after_stop[OF sample_stopping(1,2) run_refl, of 1000] stop_close[OF sample_stopping(3), of 1000] by blast





text \<open>
  C39: a second call of \<open>Stop\<close> blocks the watcher for good. It returns with the lock held; when
  it comes between the two halves of the first call, that one never gets to the informers of the
  custom resources: in no continuation is the lock free again or the running informer stopped.
\<close>

theorem second_stop_leaks_informers:
  "\<exists>i. kw_reachable cap i \<and> kw_stopped i
    \<and> {j. kw_run cap i j} \<subseteq> {j. kw_protection j = Some (Goroutine 1) \<and> kw_crdInformers j = [(sample_crd, 0)] \<and> 0 \<notin> set (kw_closed j)}"
proof -
  let ?i = "Stop_lock (Goroutine 1) sample_stopping"
  have "kw_step cap sample_stopping (Some (Goroutine 1), None) ?i"
    by (rule stop_lock[OF sample_stopping(6,4)])
  then have r: "kw_reachable cap ?i" using sample_stopping(1) by (rule run_step[rotated])
  have i: "kw_protection ?i = Some (Goroutine 1)" "kw_pc ?i (Goroutine 1) = Idle" "kw_crdInformers ?i = [(sample_crd, 0)]"
    "kw_stopped ?i"
    using sample_stopping(2,5,6) by (simp_all add: Stop_lock_def)
  have "kw_protection j = Some (Goroutine 1) \<and> kw_crdInformers j = [(sample_crd, 0)] \<and> 0 \<notin> set (kw_closed j)"
    if j: "kw_run cap ?i j" for j
  proof -
    have l: "kw_protection j = Some (Goroutine 1)" "kw_crdInformers j = [(sample_crd, 0)]"
      using kw_run_leaked[OF j i(1,2) kw_reachable_inv[OF r]] i(3) by simp_all
    have "chans_ok (holds j) (kw_chans j)"
      using kw_run_inv[OF j kw_reachable_inv[OF r]] by (simp add: kw_inv_def)
    then have "0 \<notin> set (holds j Closed)" using chans_ok_unique[of "holds j" _ 0 InMap Closed] l(2) by auto
    then show ?thesis using l by simp
  qed
  then show ?thesis using r i(4) by blast
qed

text \<open>
  Which objects are written. A reported object is written exactly when it can be encoded and
  the rules for its kind, followed by the rules for all kinds, let it pass: each says no up to the
  end or up to the first that cannot be evaluated. What is written is the record of the report
  with the encoding of the object as payload.
\<close>

lemma reported_object_exact:
  "processUpdate L rules kind obj shell = Ok (Some w) \<longleftrightarrow> (\<exists>json. json_Marshal_obj L obj = Ok json
    \<and> w = shell\<lparr>wr_Payload := json\<rparr>
    \<and> (\<exists>pre post. getExclusionRules rules kind = pre @ post \<and> (\<forall>r \<in> set pre. rule_says L json r = Ok False)
         \<and> (post = [] \<or> (\<exists>e. rule_says L json (hd post) = Err e))))"
proof (cases "json_Marshal_obj L obj")
  case (Ok json)
  have "processUpdate L rules kind obj shell = Ok (Some w)
    \<longleftrightarrow> excluded_by L (getExclusionRules rules kind) json = Ok False \<and> w = shell\<lparr>wr_Payload := json\<rparr>"
    by (auto simp: processUpdate_def getResourceAsJsonString_def eventExcluded_def Ok bind_res_Ok_iff)
  then show ?thesis unfolding not_excluded_iff using Ok by auto
qed (simp_all add: processUpdate_def getResourceAsJsonString_def)

lemma reported_object_exact_witness:
  "processUpdate \<lparr>json_Marshal_obj = (\<lambda>ob. Ok ob), json_Marshal_rule = (\<lambda>r. Ok r), jsonlogic_Apply = (\<lambda>r ob. Ok ''false''),
      has_ObjectMeta = (\<lambda>ob. True)\<rparr> [(''_all'', [''r''])] ''Pod'' ''{}'' (watch_shell \<lparr>pb_seconds = 1, pb_nanos = 0\<rparr> ''Pod'' 0)
    = Ok (Some (watch_shell \<lparr>pb_seconds = 1, pb_nanos = 0\<rparr> ''Pod'' 0\<lparr>wr_Payload := ''{}''\<rparr>))"
  unfolding reported_object_exact
  by (intro exI[of _ "''{}''"] conjI exI[of _ "[''r'']"] exI[of _ "[]"])
    (simp_all add: getExclusionRules_def rule_says_def)

end
