(* ===== verification/Pipeline.thy ===== *)
theory Pipeline
  imports Samples "HOL-Library.Multiset"
begin

text \<open>
  From the sources to the store: the channel of \<open>RealMain\<close> (\<open>pkg/sloop/server/server.go\<close>), the runner
  that processes what it receives (\<open>processing/processing.go\<close>), the recorder of watch records
  (\<open>ingress/filerecorder.go\<close>), the playback of a file (\<open>ingress/fileplayback.go\<close>) and the order in
  which all is shut down. The update of the store by one record is a parameter here
  (\<open>process_record\<close> of the theory \<open>Processing\<close> is the one of the code); the YAML codec and the files
  are parameters.
\<close>

section \<open>Files of records\<close>

record KubePlaybackFile =
  pf_Data :: "KubeWatchResult list"

text \<open>What \<open>PlayFile\<close> sends, in order. A file that cannot be read panics.\<close>

definition PlayFile :: "(string \<Rightarrow> string res) \<Rightarrow> (string \<Rightarrow> KubePlaybackFile res) \<Rightarrow> string \<Rightarrow> KubeWatchResult list res" where
  "PlayFile readFile unmarshal filename =
    (case readFile filename of
       Ok b \<Rightarrow> bind_res (unmarshal b) (\<lambda>playbackFile. Ok (pf_Data playbackFile))
     | Err e \<Rightarrow> Panic ''cannot read playback file''
     | Panic m \<Rightarrow> Panic m)"

record FileRecorder =
  fr_data :: "KubeWatchResult list"
  fr_filename :: string
  fr_listening :: bool

definition NewFileRecorder :: "string \<Rightarrow> FileRecorder" where
  "NewFileRecorder filename = \<lparr>fr_data = [], fr_filename = filename, fr_listening = False\<rparr>"

definition FileRecorder_Start :: "FileRecorder \<Rightarrow> FileRecorder" where
  "FileRecorder_Start fr = fr\<lparr>fr_listening := True\<rparr>"

text \<open>One turn of \<open>listen\<close>: a record is kept, the end of the channel ends the loop.\<close>

definition listen_turn :: "KubeWatchResult option \<Rightarrow> FileRecorder \<Rightarrow> FileRecorder" where
  "listen_turn newRecord fr = (case newRecord of
     None \<Rightarrow> fr\<lparr>fr_listening := False\<rparr>
   | Some r \<Rightarrow> fr\<lparr>fr_data := fr_data fr @ [r]\<rparr>)"

text \<open>\<open>Close\<close> behind its wait: the name and the bytes of the file that is written.\<close>

definition FileRecorder_Close :: "(KubePlaybackFile \<Rightarrow> string res) \<Rightarrow> FileRecorder \<Rightarrow> (string \<times> string) res" where
  "FileRecorder_Close marshal fr = bind_res (marshal \<lparr>pf_Data = fr_data fr\<rparr>) (\<lambda>byteData. Ok (fr_filename fr, byteData))"

section \<open>The goroutines and the channel\<close>

text \<open>
  Where \<open>RealMain\<close> is: before the start of the recorder (the watcher and the playback already send),
  serving, then through the steps of its shutdown. \<open>pl_sent\<close> and \<open>pl_processed\<close> are what was sent and
  what the runner took, with the time it read for each record, for the statements only.
\<close>

datatype main_pc = Starting | Serving | IngressStopped | ChannelClosed | ProcessorDone | RecorderClosed | Finished

definition main_left :: "main_pc \<Rightarrow> nat" where
  "main_left pc = (case pc of Starting \<Rightarrow> 6 | Serving \<Rightarrow> 5 | IngressStopped \<Rightarrow> 4 | ChannelClosed \<Rightarrow> 3 | ProcessorDone \<Rightarrow> 2 | RecorderClosed \<Rightarrow> 1 | Finished \<Rightarrow> 0)"

text \<open>The phases are ordered by what is left of \<open>RealMain\<close>.\<close>

instantiation main_pc :: linorder
begin

definition less_eq_main_pc :: "main_pc \<Rightarrow> main_pc \<Rightarrow> bool" where
  "less_eq_main_pc a b \<longleftrightarrow> main_left b \<le> main_left a"

definition less_main_pc :: "main_pc \<Rightarrow> main_pc \<Rightarrow> bool" where
  "less_main_pc a b \<longleftrightarrow> main_left b < main_left a"

instance
proof
  fix a b :: main_pc
  show "a \<le> b \<Longrightarrow> b \<le> a \<Longrightarrow> a = b"
    by (cases a; cases b) (simp_all add: less_eq_main_pc_def main_left_def)
qed (auto simp: less_eq_main_pc_def less_main_pc_def)

end

lemmas main_pc_order = less_eq_main_pc_def less_main_pc_def main_left_def

lemma phases [simp]:
  "ChannelClosed \<le> pc \<longleftrightarrow> pc \<notin> {Starting, Serving, IngressStopped}"
  "ProcessorDone \<le> pc \<longleftrightarrow> pc \<in> {ProcessorDone, RecorderClosed, Finished}"
  "RecorderClosed \<le> pc \<longleftrightarrow> pc \<in> {RecorderClosed, Finished}"
  "pc < RecorderClosed \<longleftrightarrow> pc \<notin> {RecorderClosed, Finished}"
  by (cases pc; simp add: main_pc_order)+

record 'db pipeline =
  pl_chan :: "KubeWatchResult list"
  pl_closed :: bool
  pl_db :: 'db
  pl_failures :: "string list"
  pl_running :: bool
  pl_recordFile :: string
  pl_recorder :: "FileRecorder option"
  pl_main :: main_pc
  pl_file :: "KubeWatchResult list option"
  pl_sent :: "KubeWatchResult list"
  pl_processed :: "(gotime \<times> KubeWatchResult) list"

definition kubeWatchChan_size :: nat where "kubeWatchChan_size = 1000"

definition start_pipeline :: "'db \<Rightarrow> string \<Rightarrow> 'db pipeline" where
  "start_pipeline db debugRecordFile =
    \<lparr>pl_chan = [], pl_closed = False, pl_db = db, pl_failures = [], pl_running = True,
     pl_recordFile = debugRecordFile, pl_recorder = None, pl_main = Starting, pl_file = None, pl_sent = [], pl_processed = []\<rparr>"

text \<open>
  One turn of the runner: \<open>process now db r\<close> is the store after the record and what failed.
\<close>

definition turn :: "(gotime \<Rightarrow> 'db \<Rightarrow> KubeWatchResult \<Rightarrow> ('db \<times> string list) res option)
    \<Rightarrow> 'db \<Rightarrow> gotime \<times> KubeWatchResult \<Rightarrow> ('db \<times> string list) res option" where
  "turn process db p = process (fst p) db (snd p)"

text \<open>
  The steps. A source sends while the ingress is not stopped (that nothing is written afterwards is
  the claim of the theory \<open>KubeWatcher\<close>) and there is room; the runner and the recorder receive from the
  same channel, so each record goes to one of them; both end when the channel is closed and empty.
  A record whose processing panics or does not end stops the runner in its place. \<open>RealMain\<close> ignores
  an error of the recorder's \<open>Close\<close>, after which there may be no file.
\<close>

inductive pl_step ::
  "(gotime \<Rightarrow> 'db \<Rightarrow> KubeWatchResult \<Rightarrow> ('db \<times> string list) res option) \<Rightarrow> 'db pipeline \<Rightarrow> 'db pipeline \<Rightarrow> bool"
  for process where
  send: "pl_main s \<in> {Starting, Serving} \<Longrightarrow> length (pl_chan s) < kubeWatchChan_size \<Longrightarrow>
    pl_step process s (s\<lparr>pl_chan := pl_chan s @ [r], pl_sent := pl_sent s @ [r]\<rparr>)"
| process_one: "pl_running s \<Longrightarrow> pl_chan s = r # rs \<Longrightarrow> process now (pl_db s) r = Some (Ok (db', fs)) \<Longrightarrow>
    pl_step process s (s\<lparr>pl_chan := rs, pl_db := db', pl_failures := pl_failures s @ fs, pl_processed := pl_processed s @ [(now, r)]\<rparr>)"
| processor_ends: "pl_running s \<Longrightarrow> pl_chan s = [] \<Longrightarrow> pl_closed s \<Longrightarrow> pl_step process s (s\<lparr>pl_running := False\<rparr>)"
| record_one: "pl_recorder s = Some fr \<Longrightarrow> fr_listening fr \<Longrightarrow> pl_chan s = r # rs \<Longrightarrow>
    pl_step process s (s\<lparr>pl_chan := rs, pl_recorder := Some (listen_turn (Some r) fr)\<rparr>)"
| recorder_ends: "pl_recorder s = Some fr \<Longrightarrow> fr_listening fr \<Longrightarrow> pl_chan s = [] \<Longrightarrow> pl_closed s \<Longrightarrow>
    pl_step process s (s\<lparr>pl_recorder := Some (listen_turn None fr)\<rparr>)"
| start_recorder: "pl_main s = Starting \<Longrightarrow> pl_step process s (s\<lparr>pl_main := Serving,
    pl_recorder := (if pl_recordFile s = [] then None else Some (FileRecorder_Start (NewFileRecorder (pl_recordFile s))))\<rparr>)"
| stop_ingress: "pl_main s = Serving \<Longrightarrow> pl_step process s (s\<lparr>pl_main := IngressStopped\<rparr>)"
| close_channel: "pl_main s = IngressStopped \<Longrightarrow> pl_step process s (s\<lparr>pl_closed := True, pl_main := ChannelClosed\<rparr>)"
| wait_processor: "pl_main s = ChannelClosed \<Longrightarrow> \<not> pl_running s \<Longrightarrow> pl_step process s (s\<lparr>pl_main := ProcessorDone\<rparr>)"
| close_recorder: "pl_main s = ProcessorDone \<Longrightarrow> pl_recorder s = Some fr \<Longrightarrow> \<not> fr_listening fr \<Longrightarrow>
    pl_step process s (s\<lparr>pl_file := Some (fr_data fr), pl_main := RecorderClosed\<rparr>)"
| close_recorder_fails: "pl_main s = ProcessorDone \<Longrightarrow> pl_recorder s = Some fr \<Longrightarrow> \<not> fr_listening fr \<Longrightarrow>
    pl_step process s (s\<lparr>pl_main := RecorderClosed\<rparr>)"
| no_recorder: "pl_main s = ProcessorDone \<Longrightarrow> pl_recorder s = None \<Longrightarrow> pl_step process s (s\<lparr>pl_main := RecorderClosed\<rparr>)"
| shutdown_manager: "pl_main s = RecorderClosed \<Longrightarrow> pl_step process s (s\<lparr>pl_main := Finished\<rparr>)"

definition recorded :: "'db pipeline \<Rightarrow> KubeWatchResult list" where
  "recorded s = (case pl_recorder s of None \<Rightarrow> [] | Some fr \<Rightarrow> fr_data fr)"

section \<open>The invariant\<close>

definition closed_pc :: "main_pc \<Rightarrow> bool" where
  "closed_pc pc \<longleftrightarrow> ChannelClosed \<le> pc"

text \<open>
  The order of what was sent is kept by everyone who took from it; the store is what processing
  made of what the runner took; and a runner that has ended left nothing behind.
\<close>

definition pl_inv :: "(gotime \<Rightarrow> 'db \<Rightarrow> KubeWatchResult \<Rightarrow> ('db \<times> string list) res option) \<Rightarrow> 'db \<Rightarrow> 'db pipeline \<Rightarrow> bool" where
  "pl_inv process db0 s \<longleftrightarrow>
     (\<exists>taken. pl_sent s = taken @ pl_chan s \<and> mset taken = mset (map snd (pl_processed s)) + mset (recorded s)
        \<and> subseq (map snd (pl_processed s)) taken \<and> subseq (recorded s) taken)
   \<and> process_all (turn process) db0 [] (pl_processed s) = Some (Ok (pl_db s, pl_failures s))
   \<and> (pl_closed s \<longleftrightarrow> closed_pc (pl_main s))
   \<and> length (pl_chan s) \<le> kubeWatchChan_size
   \<and> (\<not> pl_running s \<longrightarrow> pl_closed s \<and> pl_chan s = [])
   \<and> (ProcessorDone \<le> pl_main s \<longrightarrow> \<not> pl_running s)
   \<and> (pl_main s < RecorderClosed \<longrightarrow> pl_file s = None)
   \<and> (RecorderClosed \<le> pl_main s \<longrightarrow> (case pl_recorder s of None \<Rightarrow> pl_file s = None
        | Some fr \<Rightarrow> pl_file s \<in> {None, Some (fr_data fr)} \<and> \<not> fr_listening fr))
   \<and> (pl_main s = Starting \<longrightarrow> pl_recorder s = None)"

lemma process_all_Cons:
  "process_all process db fs (r # rs) = Some (Ok x) \<longleftrightarrow>
     (\<exists>db' fs'. process db r = Some (Ok (db', fs')) \<and> process_all process db' (fs @ fs') rs = Some (Ok x))"
  by (cases "process db r") (auto split: res.splits)

lemma process_all_snoc:
  "process_all process db fs rs = Some (Ok (db', fs')) \<Longrightarrow> process db' r = Some (Ok (db'', fs'')) \<Longrightarrow>
     process_all process db fs (rs @ [r]) = Some (Ok (db'', fs' @ fs''))"
  by (induction rs arbitrary: db fs) (auto simp: process_all_Cons simp del: process_all.simps(2))

lemma pl_inv_start: "pl_inv process db (start_pipeline db f)"
  by (auto simp: pl_inv_def start_pipeline_def recorded_def closed_pc_def FileRecorder_Start_def NewFileRecorder_def)

lemma subseq_snoc: "subseq xs ys \<Longrightarrow> subseq (xs @ [r]) (ys @ [r])" "subseq xs ys \<Longrightarrow> subseq xs (ys @ [r])"
  by (simp_all add: list_emb_append_mono) (meson prefixI prefix_imp_subseq subseq_order.order_trans)

lemma pl_inv_step:
  assumes "pl_step process s s'" "pl_inv process db0 s"
  shows "pl_inv process db0 s'"
proof -
  obtain taken where t: "pl_sent s = taken @ pl_chan s" "mset taken = mset (map snd (pl_processed s)) + mset (recorded s)"
    "subseq (map snd (pl_processed s)) taken" "subseq (recorded s) taken"
    using assms(2) by (auto simp: pl_inv_def)
  show ?thesis
    using assms(1)
  proof (cases rule: pl_step.cases)
    case (send r)
    then show ?thesis using assms(2) t by (auto simp: pl_inv_def recorded_def closed_pc_def)
  next
    case (process_one r rs now db' fs)
    have "\<exists>taken'. pl_sent s = taken' @ rs \<and> mset taken' = mset (map snd (pl_processed s) @ [r]) + mset (recorded s)
        \<and> subseq (map snd (pl_processed s) @ [r]) taken' \<and> subseq (recorded s) taken'"
      using t process_one(3) by (intro exI[of _ "taken @ [r]"]) (simp add: subseq_snoc)
    then show ?thesis
      using process_one assms(2) process_all_snoc[of "turn process" db0 "[]" "pl_processed s" "pl_db s" "pl_failures s" "(now, r)" db' fs]
      by (auto simp: pl_inv_def recorded_def turn_def)
  next
    case (record_one fr r rs)
    have "\<exists>taken'. pl_sent s = taken' @ rs \<and> mset taken' = mset (map snd (pl_processed s)) + mset (fr_data fr @ [r])
        \<and> subseq (map snd (pl_processed s)) taken' \<and> subseq (fr_data fr @ [r]) taken'"
      using t record_one(2,4) by (intro exI[of _ "taken @ [r]"]) (simp add: subseq_snoc recorded_def)
    then show ?thesis
      using record_one assms(2) by (auto simp: pl_inv_def recorded_def listen_turn_def)
  qed (use assms(2) t in \<open>auto simp: pl_inv_def recorded_def closed_pc_def listen_turn_def FileRecorder_Start_def NewFileRecorder_def
        split: option.splits\<close>)
qed

lemma pl_inv_steps: "(pl_step process)\<^sup>*\<^sup>* s s' \<Longrightarrow> pl_inv process db0 s \<Longrightarrow> pl_inv process db0 s'"
  by (induction rule: rtranclp_induct) (auto intro: pl_inv_step)

lemma no_file_no_recorder:
  assumes "(pl_step process)\<^sup>*\<^sup>* (start_pipeline db f) s"
  shows "pl_recordFile s = f \<and> (f = [] \<longrightarrow> pl_recorder s = None)"
  using assms
proof (induction rule: rtranclp_induct)
  case (step y z)
  show ?case using step(2,3) by (cases rule: pl_step.cases) auto
qed (simp add: start_pipeline_def)

text \<open>\<open>RealMain\<close> only goes forward.\<close>

lemma phase_mono: "pl_step process s s' \<Longrightarrow> pl_main s \<le> pl_main s'"
  by (cases rule: pl_step.cases) (auto simp: main_pc_order)

section \<open>Progress\<close>

text \<open>The steps that are left once the channel is closed: each step is one of them.\<close>

definition steps_left :: "'db pipeline \<Rightarrow> nat" where
  "steps_left s = length (pl_chan s) + (if pl_running s then 1 else 0)
     + (case pl_recorder s of None \<Rightarrow> 0 | Some fr \<Rightarrow> if fr_listening fr then 1 else 0) + main_left (pl_main s)"

lemma step_left:
  assumes "pl_step process s s'" "pl_inv process db0 s" "pl_closed s"
  shows "steps_left s = Suc (steps_left s') \<and> pl_closed s'"
  using assms(1)
proof (cases rule: pl_step.cases)
  case (send r)
  then show ?thesis using assms(2,3) by (simp add: pl_inv_def closed_pc_def)
next
  case start_recorder
  then show ?thesis using assms(2,3) by (simp add: pl_inv_def closed_pc_def)
next
  case stop_ingress
  then show ?thesis using assms(2,3) by (simp add: pl_inv_def closed_pc_def)
next
  case close_channel
  then show ?thesis using assms(2,3) by (simp add: pl_inv_def closed_pc_def)
qed (use assms(3) in \<open>auto simp: steps_left_def main_left_def listen_turn_def\<close>)

lemma closed_steps:
  "(pl_step process ^^ k) s s' \<Longrightarrow> pl_inv process db0 s \<Longrightarrow> pl_closed s \<Longrightarrow> pl_closed s' \<and> steps_left s = k + steps_left s'"
proof (induction k arbitrary: s')
  case (Suc k)
  then obtain y where y: "(pl_step process ^^ k) s y" "pl_step process y s'" by auto
  have "pl_inv process db0 y" using Suc.prems(2) y(1) by (auto intro: pl_inv_steps dest: relpowp_imp_rtranclp)
  then show ?case using step_left[OF y(2)] Suc.IH[OF y(1)] Suc.prems by auto
qed simp

lemma progress_when_closed:
  assumes "pl_inv process db0 s" "pl_closed s" "pl_main s \<noteq> Finished"
    and total: "\<And>now db r. \<exists>db' fs. process now db r = Some (Ok (db', fs))"
  shows "\<exists>s'. pl_step process s s'"
proof (cases "pl_main s")
  case ChannelClosed
  show ?thesis
  proof (cases "pl_running s")
    case True
    show ?thesis
    proof (cases "pl_chan s")
      case Nil
      then show ?thesis using True assms(2) processor_ends by blast
    next
      case (Cons r rs)
      then show ?thesis using True total[of undefined "pl_db s" r] process_one by metis
    qed
  qed (use ChannelClosed wait_processor in blast)
next
  case ProcessorDone
  then have "pl_chan s = []" using assms(1) by (simp add: pl_inv_def)
  then show ?thesis
    using ProcessorDone assms(2) close_recorder[of s] no_recorder[of s] recorder_ends[of s]
    by (cases "pl_recorder s") blast+
qed (use assms in \<open>auto simp: pl_inv_def closed_pc_def intro: shutdown_manager\<close>)

section \<open>A sample run\<close>

text \<open>One record, without a recorder: the state when the channel is closed, and the last one.\<close>

lemma four_steps: "R a b \<Longrightarrow> R b c \<Longrightarrow> R c d \<Longrightarrow> R d e \<Longrightarrow> (R ^^ 4) a e"
  by (auto simp: numeral_eq_Suc relcompp_apply)

lemma simple_run:
  assumes "process now db r = Some (Ok (db', fs))"
  shows "\<exists>s s'. (pl_step process)\<^sup>*\<^sup>* (start_pipeline db []) s \<and> pl_closed s \<and> (pl_step process ^^ 4) s s'
    \<and> pl_main s' = Finished \<and> pl_sent s' = [r] \<and> pl_db s' = db' \<and> pl_recorder s' = None
    \<and> pl_failures s' = fs \<and> pl_processed s' = [(now, r)]"
proof -
  let ?i = "start_pipeline db []"
  let ?s0 = "?i\<lparr>pl_main := Serving\<rparr>"
  let ?s1 = "?s0\<lparr>pl_chan := [r], pl_sent := [r]\<rparr>"
  let ?s2 = "?s1\<lparr>pl_chan := [], pl_db := db', pl_failures := fs, pl_processed := [(now, r)]\<rparr>"
  let ?s3 = "?s2\<lparr>pl_main := IngressStopped\<rparr>"
  let ?s4 = "?s3\<lparr>pl_closed := True, pl_main := ChannelClosed\<rparr>"
  let ?s5 = "?s4\<lparr>pl_running := False\<rparr>"
  let ?s6 = "?s5\<lparr>pl_main := ProcessorDone\<rparr>"
  let ?s7 = "?s6\<lparr>pl_main := RecorderClosed\<rparr>"
  let ?s8 = "?s7\<lparr>pl_main := Finished\<rparr>"
  note defs = start_pipeline_def kubeWatchChan_size_def
  have "(pl_step process)\<^sup>*\<^sup>* ?i ?s0" using start_recorder[of ?i process] by (simp add: defs r_into_rtranclp)
  also have "(pl_step process)\<^sup>*\<^sup>* ?s0 ?s1" using send[of ?s0 process r] by (simp add: defs r_into_rtranclp)
  also have "(pl_step process)\<^sup>*\<^sup>* ?s1 ?s2"
    using process_one[of ?s1 r "[]" process now db' fs] assms by (simp add: defs r_into_rtranclp)
  also have "(pl_step process)\<^sup>*\<^sup>* ?s2 ?s3" by (rule r_into_rtranclp, rule stop_ingress) (simp add: defs)
  also have "(pl_step process)\<^sup>*\<^sup>* ?s3 ?s4" by (rule r_into_rtranclp, rule close_channel) (simp add: defs)
  finally have run: "(pl_step process)\<^sup>*\<^sup>* ?i ?s4" .
  have "pl_step process ?s4 ?s5" by (rule processor_ends) (simp_all add: defs)
  moreover have "pl_step process ?s5 ?s6" by (rule wait_processor) (simp_all add: defs)
  moreover have "pl_step process ?s6 ?s7" by (rule no_recorder) (simp_all add: defs)
  moreover have "pl_step process ?s7 ?s8" by (rule shutdown_manager) (simp add: defs)
  ultimately have "(pl_step process ^^ 4) ?s4 ?s8" by (rule four_steps)
  then show ?thesis using run by (intro exI[of _ ?s4] exI[of _ ?s8]) (simp add: defs)
qed

section \<open>Properties\<close>



text \<open>
  The recorder takes records away from the store. With a file to record to there is, for every
  record, a run in which that record is sent, the program shuts down in order, and the record is
  in the file and nowhere else: the store is as it was.
\<close>

lemma recorder_takes_records:
  "\<exists>s. (pl_step process)\<^sup>*\<^sup>* (start_pipeline db (c # file)) s \<and> pl_main s = Finished
     \<and> pl_sent s = [r] \<and> pl_file s = Some [r] \<and> pl_processed s = [] \<and> pl_db s = db"
proof -
  let ?i = "start_pipeline db (c # file)"
  let ?fr = "FileRecorder_Start (NewFileRecorder (c # file))"
  let ?s0 = "?i\<lparr>pl_recorder := Some ?fr, pl_main := Serving\<rparr>"
  let ?s1 = "?s0\<lparr>pl_chan := [r], pl_sent := [r]\<rparr>"
  let ?s2 = "?s1\<lparr>pl_chan := [], pl_recorder := Some (listen_turn (Some r) ?fr)\<rparr>"
  let ?s3 = "?s2\<lparr>pl_main := IngressStopped\<rparr>"
  let ?s4 = "?s3\<lparr>pl_closed := True, pl_main := ChannelClosed\<rparr>"
  let ?s5 = "?s4\<lparr>pl_running := False\<rparr>"
  let ?s6 = "?s5\<lparr>pl_main := ProcessorDone\<rparr>"
  let ?s7 = "?s6\<lparr>pl_recorder := Some (listen_turn None (listen_turn (Some r) ?fr))\<rparr>"
  let ?s8 = "?s7\<lparr>pl_file := Some [r], pl_main := RecorderClosed\<rparr>"
  let ?s9 = "?s8\<lparr>pl_main := Finished\<rparr>"
  note defs = start_pipeline_def kubeWatchChan_size_def listen_turn_def FileRecorder_Start_def NewFileRecorder_def
  have "(pl_step process)\<^sup>*\<^sup>* ?i ?s0" using start_recorder[of ?i process] by (simp add: defs r_into_rtranclp)
  also have "(pl_step process)\<^sup>*\<^sup>* ?s0 ?s1" using send[of ?s0 process r] by (simp add: defs r_into_rtranclp)
  also have "(pl_step process)\<^sup>*\<^sup>* ?s1 ?s2" using record_one[of ?s1 ?fr r "[]" process] by (simp add: defs r_into_rtranclp)
  also have "(pl_step process)\<^sup>*\<^sup>* ?s2 ?s3" by (rule r_into_rtranclp, rule stop_ingress) (simp add: defs)
  also have "(pl_step process)\<^sup>*\<^sup>* ?s3 ?s4" by (rule r_into_rtranclp, rule close_channel) (simp add: defs)
  also have "(pl_step process)\<^sup>*\<^sup>* ?s4 ?s5" by (rule r_into_rtranclp, rule processor_ends) (simp_all add: defs)
  also have "(pl_step process)\<^sup>*\<^sup>* ?s5 ?s6" by (rule r_into_rtranclp, rule wait_processor) (simp_all add: defs)
  also have "(pl_step process)\<^sup>*\<^sup>* ?s6 ?s7" by (rule r_into_rtranclp, rule recorder_ends) (simp_all add: defs)
  also have "(pl_step process)\<^sup>*\<^sup>* ?s7 ?s8"
    using close_recorder[of ?s7 "listen_turn None (listen_turn (Some r) ?fr)" process] by (simp add: defs r_into_rtranclp)
  also have "(pl_step process)\<^sup>*\<^sup>* ?s8 ?s9" by (rule r_into_rtranclp, rule shutdown_manager) (simp add: defs)
  finally have "(pl_step process)\<^sup>*\<^sup>* ?i ?s9" .
  then show ?thesis by (intro exI[of _ ?s9]) (simp add: defs)
qed



end
