(* ===== verification/ServerMain.thy ===== *)
theory ServerMain
  imports Server KubeWatcher Pipeline
begin

text \<open>
  \<open>RealMain\<close> (\<open>pkg/sloop/server/server.go\<close>) from its first line to its return: what it starts, in which
  order, what it does on every error, and what it stops. A call that only returns a value is that
  value; one that starts, stops or writes something is an entry of the trace. The goroutines that run in
  between are those of the theories \<open>Pipeline\<close>, \<open>KubeWatcher\<close> and \<open>StoreStats\<close>.
\<close>

section \<open>Traces\<close>

datatype action = OpenedStore | ClosedStore | RestoredStore string | StartedProcessor
  | StartedInformers "string list" | StartedCustomInformers "crdGroupVersionResourceKind list"
  | PlayedRecords "KubeWatchResult list" | StartedRecorder string | StartedManager store_config
  | SetUpMetrics "string list" | Serving "string \<times> int"
  | StoppedWatcher | ClosedChannel | WaitedProcessor | ClosedRecorder | ShutManager

text \<open>A function returns, or the process exits, after which no deferred call runs.\<close>

datatype 'a outcome = Returned "'a res" | Exited nat

type_synonym 'a traced = "action list \<times> 'a outcome"

definition act :: "action \<Rightarrow> unit traced" where
  "act a = ([a], Returned (Ok ()))"

text \<open>\<open>errors.Wrap\<close> on the error that a part returns.\<close>

definition wrap_errors :: "string \<Rightarrow> 'a traced \<Rightarrow> 'a traced" where
  "wrap_errors msg m = (fst m, case snd m of Returned r \<Rightarrow> Returned (map_err (\<lambda>e. Wrapped e msg) r) | Exited n \<Rightarrow> Exited n)"

definition call :: "'a res \<Rightarrow> 'a traced" where
  "call r = ([], Returned r)"

definition and_then :: "'a traced \<Rightarrow> ('a \<Rightarrow> 'b traced) \<Rightarrow> 'b traced" where
  "and_then m f = (case snd m of
     Returned (Ok x) \<Rightarrow> (fst m @ fst (f x), snd (f x))
   | Returned (Err e) \<Rightarrow> (fst m, Returned (Err e))
   | Returned (Panic p) \<Rightarrow> (fst m, Returned (Panic p))
   | Exited n \<Rightarrow> (fst m, Exited n))"

definition only_if :: "bool \<Rightarrow> unit traced \<Rightarrow> unit traced" where
  "only_if b m = (if b then m else ([], Returned (Ok ())))"

text \<open>\<open>defer\<close>: the call is made when the function returns, with an error or a panic as well.\<close>

definition deferred :: "action \<Rightarrow> 'a traced \<Rightarrow> 'a traced" where
  "deferred a m = (case snd m of Returned r \<Rightarrow> (fst m @ [a], snd m) | Exited n \<Rightarrow> m)"

section \<open>The parts that are started\<close>

record ('cfg, 'client) client_lib =
  cl_ClientConfig :: "string \<Rightarrow> string \<Rightarrow> 'cfg option \<times> gerror option"
  cl_BuildConfigFromFlags :: "string \<Rightarrow> 'cfg res"
  cl_NewForConfig :: "'cfg \<Rightarrow> 'client res"

text \<open>With privileged access the configuration is used and its error never looked at.\<close>

definition MakeKubernetesClient :: "('cfg, 'client) client_lib \<Rightarrow> string \<Rightarrow> string \<Rightarrow> bool \<Rightarrow> 'client res" where
  "MakeKubernetesClient L masterURL kubeContext privilegedAccess =
    bind_res (if privilegedAccess
        then (case fst (cl_ClientConfig L masterURL kubeContext) of
              None \<Rightarrow> Panic ''nil pointer dereference'' | Some config \<Rightarrow> Ok config)
        else cl_BuildConfigFromFlags L masterURL)
      (cl_NewForConfig L)"

text \<open>The kinds that are always watched, under the names that the code gives them.\<close>

definition wellKnownKinds :: "string list" where
  "wellKnownKinds = [''DaemonSet'', ''Deployment'', ''ReplicaSet'', ''StatefulSet'', ''ConfigMap'', ''Endpoint'',
     ''Event'', ''HorizontalPodAutoscaler'', ''Job'', ''Namespace'', ''Node'', ''PersistentVolumeClaim'',
     ''PersistentVolume'', ''Pod'', ''PodDisruptionBudget'', ''Service'', ''ReplicationController'',
     ''StorageClass'', ''MutatingWebhookConfiguration'']"

text \<open>The informers of the well-known kinds run before the custom ones can fail.\<close>

definition startKubeWatcher :: "('cfg, 'client) kube_lib \<Rightarrow> bool \<Rightarrow> string \<Rightarrow> string \<Rightarrow> unit traced" where
  "startKubeWatcher L includeCrds masterURL kubeContext =
    and_then (act (StartedInformers wellKnownKinds)) (\<lambda>_.
      only_if includeCrds (and_then (call (custom_resources L masterURL kubeContext))
        (\<lambda>crdList. act (StartedCustomInformers crdList))))"

text \<open>
  How the web server ends: by a signal, with the result of its shutdown, or because it cannot listen,
  which \<open>glog.Fatal\<close> turns into the end of the process.
\<close>

datatype serve_end = Signalled "unit res" | ListenFailed

definition web_Run :: "WebConfig \<Rightarrow> serve_end \<Rightarrow> unit traced" where
  "web_Run config end_of =
    and_then (call (registerRoutes config)) (\<lambda>mux.
      and_then (act (Serving (wc_BindAddress config, wc_Port config))) (\<lambda>_.
        case end_of of Signalled r \<Rightarrow> call r | ListenFailed \<Rightarrow> ([], Exited 255)))"

section \<open>\<open>RealMain\<close>\<close>

record ('r, 'o, 'db, 'f, 'cfg, 'client, 'cfg2, 'client2) main_env =
  me_config :: "'r config_lib"
  me_ParseDuration :: "string \<Rightarrow> int res"
  me_currentContext :: "string \<Rightarrow> string \<Rightarrow> string res"
  me_open :: "('o, 'db) open_lib"
  me_openFile :: "string \<Rightarrow> 'f res"
  me_load :: "'f \<Rightarrow> 'db \<Rightarrow> 'db res"
  me_client :: "('cfg2, 'client2) client_lib"
  me_kube :: "('cfg, 'client) kube_lib"
  me_readFile :: "string \<Rightarrow> string res"
  me_unmarshal :: "string \<Rightarrow> KubePlaybackFile res"
  me_toYaml :: "'r SloopConfig \<Rightarrow> string"
  me_serve :: serve_end

text \<open>The end: ingress, channel, processor, recorder, store manager.\<close>

definition shutdown_actions :: "'r SloopConfig \<Rightarrow> action list" where
  "shutdown_actions conf =
    (if DisableKubeWatcher conf then [] else [StoppedWatcher]) @ [ClosedChannel, WaitedProcessor]
    @ (if DebugRecordFile conf \<noteq> [] then [ClosedRecorder] else [])
    @ (if DisableStoreManager conf then [] else [ShutManager])"

definition main_with_store ::
  "('r, 'o, 'db, 'f, 'cfg, 'client, 'cfg2, 'client2) main_env \<Rightarrow> 'r SloopConfig \<Rightarrow> string \<Rightarrow> 'db \<Rightarrow> unit traced" where
  "main_with_store E conf kubeContext db =
    and_then (only_if (RestoreDatabaseFile conf \<noteq> []) (wrap_errors ''failed to restore database''
        (and_then (call (DatabaseRestore (me_openFile E) (me_load E) db (RestoreDatabaseFile conf)))
          (\<lambda>_. act (RestoredStore (RestoreDatabaseFile conf)))))) (\<lambda>_.
    and_then (act StartedProcessor) (\<lambda>_.
    and_then (only_if (\<not> DisableKubeWatcher conf)
        (and_then (wrap_errors ''failed to create kubernetes client''
            (call (MakeKubernetesClient (me_client E) (ApiServerHost conf) kubeContext (PrivilegedAccess conf))))
          (\<lambda>_. wrap_errors ''failed to initialize kubeWatcher''
            (startKubeWatcher (me_kube E) (WatchCrds conf) (ApiServerHost conf) kubeContext)))) (\<lambda>_.
    and_then (only_if (DebugPlaybackFile conf \<noteq> []) (wrap_errors ''failed to play back file''
        (and_then (call (PlayFile (me_readFile E) (me_unmarshal E) (DebugPlaybackFile conf)))
          (\<lambda>recs. act (PlayedRecords recs))))) (\<lambda>_.
    and_then (only_if (DebugRecordFile conf \<noteq> []) (act (StartedRecorder (DebugRecordFile conf)))) (\<lambda>_.
    and_then (only_if (\<not> DisableStoreManager conf) (act (StartedManager (manager_config_of conf)))) (\<lambda>_.
    and_then (only_if (EnableUserMetrics conf) (act (SetUpMetrics (snd (InitUserMetrics (UserMetricsHeaders conf)))))) (\<lambda>_.
    and_then (wrap_errors ''failed to run webserver'' (web_Run (web_config_of (me_toYaml E) conf kubeContext) (me_serve E))) (\<lambda>_.
      (shutdown_actions conf, Returned (Ok ()))))))))))"

definition RealMain ::
  "('r, 'o, 'db, 'f, 'cfg, 'client, 'cfg2, 'client2) main_env \<Rightarrow> string list \<Rightarrow> unit traced" where
  "RealMain E args =
    and_then (call (Init (me_config E) args)) (\<lambda>conf.
    and_then (wrap_errors ''config validation failed'' (call (Validate (me_ParseDuration E) conf))) (\<lambda>_.
    and_then (wrap_errors ''failed to get kubernetes context'' (call
        (GetKubernetesContext (me_currentContext E) (ApiServerHost conf) (UseKubeContext conf) (PrivilegedAccess conf)))) (\<lambda>kubeContext.
    and_then (wrap_errors ''failed to init untyped store'' (call
        (OpenStore (me_open E) (store_config_of conf kubeContext)))) (\<lambda>(db, pd).
    and_then (act OpenedStore) (\<lambda>_.
      deferred ClosedStore (main_with_store E conf kubeContext db))))))"

section \<open>Lemmas\<close>

text \<open>The actions of a shutdown, none of which belongs to the start.\<close>

definition is_stop :: "action \<Rightarrow> bool" where
  "is_stop a \<longleftrightarrow> a \<in> {ClosedStore, StoppedWatcher, ClosedChannel, WaitedProcessor, ClosedRecorder, ShutManager}"

definition starts_only :: "'a traced \<Rightarrow> bool" where
  "starts_only m \<longleftrightarrow> (\<forall>a \<in> set (fst m). \<not> is_stop a \<and> a \<noteq> OpenedStore)"

lemma starts_only_simps [simp]:
  "starts_only (call r)" "starts_only (act a) \<longleftrightarrow> \<not> is_stop a \<and> a \<noteq> OpenedStore"
  "starts_only m \<Longrightarrow> starts_only (only_if b m)" "starts_only (wrap_errors msg q) \<longleftrightarrow> starts_only q"
  by (auto simp: starts_only_def call_def act_def only_if_def wrap_errors_def)

lemma starts_only_return [simp]: "starts_only ([], r)"
  by (simp add: starts_only_def)

lemma starts_only_and_then [intro!]:
  "starts_only m \<Longrightarrow> (\<And>x. snd m = Returned (Ok x) \<Longrightarrow> starts_only (f x)) \<Longrightarrow> starts_only (and_then m f)"
  by (auto simp: starts_only_def and_then_def split: outcome.splits res.splits)

lemma starts_only_if [intro!]: "starts_only m \<Longrightarrow> starts_only (only_if b m)"
  by simp

lemma startKubeWatcher_starts [simp]: "starts_only (startKubeWatcher L b u c)"
  unfolding startKubeWatcher_def by (auto simp: is_stop_def)

lemma web_Run_starts [simp]: "starts_only (web_Run config s)"
  unfolding web_Run_def by (auto simp: is_stop_def split: serve_end.split)

text \<open>A stage of the start before a rest: the rest runs only when the stage returns without error.\<close>

definition ends_with :: "action list \<Rightarrow> unit traced \<Rightarrow> bool" where
  "ends_with final m \<longleftrightarrow> (case snd m of
     Returned (Ok u) \<Rightarrow> \<exists>pre. fst m = pre @ final \<and> (\<forall>a \<in> set pre. \<not> is_stop a \<and> a \<noteq> OpenedStore)
   | _ \<Rightarrow> starts_only m)"

lemma ends_with_and_then:
  assumes "starts_only m" "\<And>x. snd m = Returned (Ok x) \<Longrightarrow> ends_with final (f x)"
  shows "ends_with final (and_then m f)"
proof (cases "\<exists>x. snd m = Returned (Ok x)")
  case True
  then obtain x where x: "snd m = Returned (Ok x)" by blast
  have "and_then m f = (fst m @ fst (f x), snd (f x))" using x by (simp add: and_then_def)
  then show ?thesis
    using assms(1) assms(2)[OF x] by (fastforce simp: ends_with_def starts_only_def split: outcome.splits res.splits)
next
  case False
  then have "fst (and_then m f) = fst m" "\<nexists>u. snd (and_then m f) = Returned (Ok u)"
    by (auto simp: and_then_def split: outcome.splits res.splits)
  then show ?thesis using assms(1) by (auto simp: ends_with_def starts_only_def split: outcome.splits res.splits)
qed

lemma main_with_store_ends: "ends_with (shutdown_actions conf) (main_with_store E conf kubeContext db)"
proof -
  have last: "ends_with f (f, Returned (Ok u))" for f u by (simp add: ends_with_def)
  show ?thesis
    unfolding main_with_store_def
    by (intro ends_with_and_then last starts_only_if starts_only_simps(4)[THEN iffD2] starts_only_and_then
        startKubeWatcher_starts web_Run_starts) (simp_all add: is_stop_def)
qed

text \<open>What has to be stopped after an action of the start, and all of it after a trace.\<close>

fun stop_of :: "action \<Rightarrow> action option" where
  "stop_of OpenedStore = Some ClosedStore"
| "stop_of StartedProcessor = Some WaitedProcessor"
| "stop_of (StartedInformers ks) = Some StoppedWatcher"
| "stop_of (StartedCustomInformers crds) = Some StoppedWatcher"
| "stop_of (StartedRecorder f) = Some ClosedRecorder"
| "stop_of (StartedManager c) = Some ShutManager"
| "stop_of a = None"

definition to_stop :: "action list \<Rightarrow> action set" where
  "to_stop tr = set (List.map_filter stop_of tr)"

lemma to_stop_simps [simp]:
  "to_stop [] = {}" "to_stop (xs @ ys) = to_stop xs \<union> to_stop ys"
  "to_stop (a # xs) = (case stop_of a of None \<Rightarrow> {} | Some b \<Rightarrow> {b}) \<union> to_stop xs"
  by (auto simp: to_stop_def map_filter_def split: option.split)

lemma to_stop_shutdown [simp]: "to_stop (shutdown_actions conf) = {}"
  by (simp add: shutdown_actions_def)

text \<open>A stage that returns without error leaves a set of things to stop.\<close>

definition leaves :: "action set \<Rightarrow> 'a traced \<Rightarrow> bool" where
  "leaves S m \<longleftrightarrow> (\<forall>x. snd m = Returned (Ok x) \<longrightarrow> to_stop (fst m) = S)"

lemma leaves_and_then: "leaves S m \<Longrightarrow> (\<And>x. leaves T (f x)) \<Longrightarrow> leaves (S \<union> T) (and_then m f)"
  by (auto simp: leaves_def and_then_def split: outcome.splits res.splits)

lemma leaves_only_if: "leaves S m \<Longrightarrow> leaves (if b then S else {}) (only_if b m)"
  by (simp add: leaves_def only_if_def)

lemma leaves_wrapped: "leaves S m \<Longrightarrow> leaves S (wrap_errors msg m)"
  by (auto simp: leaves_def wrap_errors_def elim!: map_err.elims split: outcome.splits)

lemma leaves_basic: "leaves {} (call r)" "leaves (to_stop [a]) (act a)" "leaves (to_stop tr) (tr, q)"
  by (simp_all add: leaves_def call_def act_def)

lemma startKubeWatcher_leaves: "leaves {StoppedWatcher} (startKubeWatcher L b u c)"
proof -
  have "leaves (to_stop [StartedInformers wellKnownKinds] \<union> (if b then {} \<union> to_stop [StartedCustomInformers []] else {})) (startKubeWatcher L b u c)"
    unfolding startKubeWatcher_def
    by (intro leaves_and_then leaves_only_if leaves_basic) (simp add: leaves_def act_def)
  then show ?thesis by (simp split: if_splits)
qed

lemma web_Run_leaves: "leaves {} (web_Run config s)"
  by (auto simp: leaves_def web_Run_def and_then_def call_def act_def split: outcome.splits res.splits serve_end.splits)


lemma main_with_store_leaves:
  "leaves (set (shutdown_actions conf) - {ClosedChannel}) (main_with_store E conf kubeContext db)"
proof -
  let ?if = "\<lambda>b S. if b then S else {}"
  have "leaves (?if (RestoreDatabaseFile conf \<noteq> []) ({} \<union> to_stop [RestoredStore (RestoreDatabaseFile conf)])
     \<union> (to_stop [StartedProcessor] \<union> (?if (\<not> DisableKubeWatcher conf) ({} \<union> {StoppedWatcher})
     \<union> (?if (DebugPlaybackFile conf \<noteq> []) ({} \<union> to_stop [PlayedRecords []])
     \<union> (?if (DebugRecordFile conf \<noteq> []) (to_stop [StartedRecorder (DebugRecordFile conf)])
     \<union> (?if (\<not> DisableStoreManager conf) (to_stop [StartedManager (manager_config_of conf)])
     \<union> (?if (EnableUserMetrics conf) (to_stop [SetUpMetrics (snd (InitUserMetrics (UserMetricsHeaders conf)))])
     \<union> ({} \<union> to_stop (shutdown_actions conf)))))))))
     (main_with_store E conf kubeContext db)"
    unfolding main_with_store_def
    by (intro leaves_and_then leaves_only_if leaves_wrapped leaves_basic startKubeWatcher_leaves web_Run_leaves)
      (simp add: leaves_def act_def)
  then show ?thesis by (simp add: shutdown_actions_def insert_commute split: if_splits)
qed

text \<open>What a return of \<open>RealMain\<close> has behind it.\<close>

lemma main_returns:
  assumes "RealMain E args = (tr, Returned r)"
  shows "tr = [] \<and> r \<noteq> Ok () \<or> (\<exists>conf kubeContext db. Init (me_config E) args = Ok conf
    \<and> snd (main_with_store E conf kubeContext db) = Returned r
    \<and> tr = OpenedStore # fst (main_with_store E conf kubeContext db) @ [ClosedStore])"
  using assms unfolding RealMain_def
  by (auto simp: and_then_def call_def act_def wrap_errors_def deferred_def split: outcome.splits res.splits prod.splits)

section \<open>Properties\<close>

text \<open>
  C10: a clean end stops what was started. When \<open>RealMain\<close> returns without an error, its trace is the
  start, without anything that stops, and then the shutdown in its fixed order: the ingress, the
  channel, the processor, the recorder, the store manager and the store. What it stops is, with
  the channel, exactly what the start has started.
\<close>

theorem clean_end_stops_what_started:
  assumes "RealMain E args = (tr, Returned (Ok ()))"
  shows "\<exists>conf started. Init (me_config E) args = Ok conf \<and> tr = started @ shutdown_actions conf @ [ClosedStore]
    \<and> (\<forall>a \<in> set started. \<not> is_stop a)
    \<and> to_stop started \<union> {ClosedChannel} = set (shutdown_actions conf @ [ClosedStore])"
proof -
  obtain conf kubeContext db where init: "Init (me_config E) args = Ok conf"
    and ok: "snd (main_with_store E conf kubeContext db) = Returned (Ok ())"
    and tr: "tr = OpenedStore # fst (main_with_store E conf kubeContext db) @ [ClosedStore]"
    using main_returns[OF assms] by blast
  obtain pre where pre: "fst (main_with_store E conf kubeContext db) = pre @ shutdown_actions conf"
    "\<forall>a \<in> set pre. \<not> is_stop a \<and> a \<noteq> OpenedStore"
    using main_with_store_ends[of conf E kubeContext db] ok by (auto simp: ends_with_def)
  have "to_stop pre = set (shutdown_actions conf) - {ClosedChannel}"
    using main_with_store_leaves[of conf E kubeContext db] ok pre(1) by (simp add: leaves_def)
  moreover have "ClosedChannel \<in> set (shutdown_actions conf)" by (simp add: shutdown_actions_def)
  ultimately have "to_stop (OpenedStore # pre) \<union> {ClosedChannel} = set (shutdown_actions conf @ [ClosedStore])" by auto
  then show ?thesis
    using init tr pre by (intro exI[of _ conf] exI[of _ "OpenedStore # pre"]) (simp add: is_stop_def)
qed

definition sample_env :: "CustomResourceDefinition list res \<Rightarrow> (unit, unit, unit, unit, unit, unit, unit, unit) main_env" where
  "sample_env crds = \<lparr>me_config = sample_lib, me_ParseDuration = (\<lambda>s. Ok Hour), me_currentContext = (\<lambda>u p. Ok ''a''),
     me_open = \<lparr>op_LSMOnlyOptions = (\<lambda>p. ()), op_DefaultOptions = (\<lambda>p. ()), op_WithEventLogging = (\<lambda>b x. x),
       op_WithMaxTableSize = (\<lambda>n x. x), op_KeepL0InMemory = (\<lambda>b x. x), op_WithValueLogFileSize = (\<lambda>n x. x),
       op_WithValueLogMaxEntries = (\<lambda>n x. x), op_WithNumCompactors = (\<lambda>n x. x), op_WithNumLevelZeroTables = (\<lambda>n x. x),
       op_WithNumLevelZeroTablesStall = (\<lambda>n x. x), op_WithLevelOneSize = (\<lambda>n x. x), op_WithLevelSizeMultiplier = (\<lambda>n x. x),
       op_FileIO = (\<lambda>x. x), op_NoLogger = (\<lambda>x. x), op_WithTruncate = (\<lambda>b x. x), op_WithSyncWrites = (\<lambda>b x. x),
       op_Open = (\<lambda>x. Ok ())\<rparr>,
     me_openFile = (\<lambda>f. Ok ()), me_load = (\<lambda>f db. Ok ()),
     me_client = \<lparr>cl_ClientConfig = (\<lambda>u c. (Some (), None)), cl_BuildConfigFromFlags = (\<lambda>u. Ok ()), cl_NewForConfig = (\<lambda>c. Ok ())\<rparr>,
     me_kube = \<lparr>kl_ClientConfig = (\<lambda>u c. Ok ()), kl_newCrdClient = (\<lambda>c. Ok ()), kl_ListV1 = (\<lambda>c. crds), kl_ListV1beta1 = (\<lambda>c. crds),
       kl_newDynamicClient = (\<lambda>c. Ok ())\<rparr>,
     me_readFile = (\<lambda>f. Ok []), me_unmarshal = (\<lambda>b. Err (LibError [])), me_toYaml = (\<lambda>c. []), me_serve = Signalled (Ok ())\<rparr>"


text \<open>The runs of the samples: the start with the defaults, with and without a list of custom resources.\<close>

lemma sample_default: "Init sample_lib [] = Ok getDefaultConfig"
  by (simp add: Init_def getConfigFilePath_def getConfigFlag_def empty_config_file sample_lib_def getDefaultConfig_def)

lemma sample_routes: "\<exists>mux. registerRoutes (web_config_of (\<lambda>c. []) (getDefaultConfig :: unit SloopConfig) ''a'') = Ok mux"
  by (simp add: registerRoutes_Ok_iff web_config_of_def display_context_def getDefaultConfig_def)

lemma sample_start:
  "RealMain (sample_env crds) [] = (OpenedStore # fst (main_with_store (sample_env crds) getDefaultConfig ''a'' ()) @ [ClosedStore],
    snd (main_with_store (sample_env crds) getDefaultConfig ''a'' ()))"
  if "\<exists>q. snd (main_with_store (sample_env crds) getDefaultConfig ''a'' ()) = Returned q"
proof -
  have "Validate (\<lambda>s. Ok Hour) (getDefaultConfig :: unit SloopConfig) = Ok ()"
    by (simp add: Validate_def getDefaultConfig_def Minute_def Hour_def)
  moreover have "GetKubernetesContext (\<lambda>u p. Ok ''a'') u k True = Ok (if k \<noteq> [] then k else ''a'')" for u k
    by (simp add: GetKubernetesContext_def)
  moreover have "PrivilegedAccess (getDefaultConfig :: unit SloopConfig)" "UseKubeContext (getDefaultConfig :: unit SloopConfig) = []"
    by (simp_all add: getDefaultConfig_def)
  moreover have "OpenStore (me_open (sample_env crds)) (store_config_of (getDefaultConfig :: unit SloopConfig) ''a'') = Ok ((), Hour)"
    by (simp add: OpenStore_def store_config_of_def sample_env_def)
  moreover have "me_config (sample_env crds) = sample_lib" "me_ParseDuration (sample_env crds) = (\<lambda>s. Ok Hour)"
    "me_currentContext (sample_env crds) = (\<lambda>u p. Ok ''a'')" by (simp_all add: sample_env_def)
  ultimately show ?thesis
    using that by (auto simp: RealMain_def sample_default and_then_def call_def act_def wrap_errors_def deferred_def)
qed

lemma sample_runs:
  "snd (main_with_store (sample_env (Ok [])) getDefaultConfig ''a'' ()) = Returned (Ok ())"
  "\<exists>e. snd (main_with_store (sample_env (Err (LibError []))) getDefaultConfig ''a'' ()) = Returned (Err e)"
  "fst (main_with_store (sample_env (Err (LibError []))) getDefaultConfig ''a'' ()) = [StartedProcessor, StartedInformers wellKnownKinds]"
proof -
  obtain mux where mux: "registerRoutes (web_config_of (\<lambda>c. []) (getDefaultConfig :: unit SloopConfig) ''a'') = Ok mux"
    using sample_routes by blast
  have conf: "RestoreDatabaseFile (getDefaultConfig :: unit SloopConfig) = []" "\<not> DisableKubeWatcher (getDefaultConfig :: unit SloopConfig)"
    "DebugPlaybackFile (getDefaultConfig :: unit SloopConfig) = []" "PrivilegedAccess (getDefaultConfig :: unit SloopConfig)"
    "WatchCrds (getDefaultConfig :: unit SloopConfig)" by (simp_all add: getDefaultConfig_def)
  have client: "MakeKubernetesClient (me_client (sample_env crds)) u c True = Ok ()" for u c crds
    by (simp add: MakeKubernetesClient_def sample_env_def)
  have crds: "custom_resources (me_kube (sample_env (Ok []))) u c = Ok []"
    "\<exists>e. custom_resources (me_kube (sample_env (Err (LibError [])))) u c = Err e" for u c
    by (simp_all add: custom_resources_def getCrdList_def getCrdListV1beta1_def crd_resources_def sample_env_def)
  have env: "me_toYaml (sample_env crds) = (\<lambda>c. [])" "me_serve (sample_env crds) = Signalled (Ok ())" for crds
    by (simp_all add: sample_env_def)
  note defs = main_with_store_def startKubeWatcher_def web_Run_def and_then_def call_def act_def wrap_errors_def only_if_def
  show "snd (main_with_store (sample_env (Ok [])) getDefaultConfig ''a'' ()) = Returned (Ok ())"
    using mux by (simp add: defs conf client crds env)
  obtain e where "custom_resources (me_kube (sample_env (Err (LibError [])))) (ApiServerHost (getDefaultConfig :: unit SloopConfig)) ''a'' = Err e"
    using crds(2) by blast
  then show "\<exists>e. snd (main_with_store (sample_env (Err (LibError []))) getDefaultConfig ''a'' ()) = Returned (Err e)"
    "fst (main_with_store (sample_env (Err (LibError []))) getDefaultConfig ''a'' ()) = [StartedProcessor, StartedInformers wellKnownKinds]"
    by (simp_all add: defs conf client)
qed

theorem clean_end_stops_what_started_witness:
  "\<exists>started. fst (RealMain (sample_env (Ok [])) []) = started @ [StoppedWatcher, ClosedChannel, WaitedProcessor, ShutManager, ClosedStore]
    \<and> to_stop started = {StoppedWatcher, WaitedProcessor, ShutManager, ClosedStore}"
proof -
  have run: "RealMain (sample_env (Ok [])) [] = (fst (RealMain (sample_env (Ok [])) []), Returned (Ok ()))"
    using sample_runs(1) by (simp add: sample_start prod_eq_iff)
  have conf: "Init (me_config (sample_env (Ok []))) [] = Ok getDefaultConfig" by (simp add: sample_env_def sample_default)
  have stops: "shutdown_actions (getDefaultConfig :: unit SloopConfig) = [StoppedWatcher, ClosedChannel, WaitedProcessor, ShutManager]"
    by (simp add: shutdown_actions_def getDefaultConfig_def)
  have "ClosedChannel \<notin> to_stop tr" for tr
    by (induction tr) (auto elim: stop_of.elims split: option.splits)
  moreover obtain started where "fst (RealMain (sample_env (Ok [])) []) = started @ [StoppedWatcher, ClosedChannel, WaitedProcessor, ShutManager, ClosedStore]"
    "to_stop started \<union> {ClosedChannel} = {StoppedWatcher, ClosedChannel, WaitedProcessor, ShutManager, ClosedStore}"
    using clean_end_stops_what_started[OF run] conf stops by auto
  ultimately show ?thesis by (intro exI[of _ started]) blast
qed

text \<open>
  C37: an error leaves the parts running. When \<open>RealMain\<close> returns an error or panics after it has
  opened the store, it has stopped nothing of what it had started by then: the only thing that follows
  the start is that the store is closed, under a processor and informers that still run.
\<close>

theorem failed_start_stops_nothing:
  assumes "RealMain E args = (tr, Returned r)" "r \<noteq> Ok ()" "tr \<noteq> []"
  shows "\<exists>started. tr = OpenedStore # started @ [ClosedStore] \<and> (\<forall>a \<in> set started. \<not> is_stop a)"
proof -
  obtain conf kubeContext db where r: "snd (main_with_store E conf kubeContext db) = Returned r"
    and tr: "tr = OpenedStore # fst (main_with_store E conf kubeContext db) @ [ClosedStore]"
    using main_returns[OF assms(1)] assms(3) by blast
  have "starts_only (main_with_store E conf kubeContext db)"
    using main_with_store_ends[of conf E kubeContext db] r assms(2) by (auto simp: ends_with_def split: res.splits)
  then show ?thesis using tr by (auto simp: starts_only_def)
qed

theorem failed_start_stops_nothing_witness:
  "\<exists>started. fst (RealMain (sample_env (Err (LibError []))) []) = OpenedStore # started @ [ClosedStore]
    \<and> StartedProcessor \<in> set started \<and> StartedInformers wellKnownKinds \<in> set started \<and> (\<forall>a \<in> set started. \<not> is_stop a)"
proof -
  obtain e where run: "RealMain (sample_env (Err (LibError []))) []
      = (OpenedStore # [StartedProcessor, StartedInformers wellKnownKinds] @ [ClosedStore], Returned (Err e))"
    using sample_runs(2,3) by (auto simp: sample_start)
  show ?thesis using failed_start_stops_nothing[OF run] run by auto
qed

end
