(* ===== verification/ProcessingFacts.thy ===== *)
theory ProcessingFacts
  imports Samples
begin

text \<open>
  What \<open>pkg/sloop/processing\<close> does to the store: the newest stored copy of an object is found,
  a record that was processed is read back, the summary of a resource follows its history, the
  counts of an event add up, and an event that was seen before changes nothing.
\<close>

section \<open>Numbers and keys\<close>

lemma length_nat_digits_19:
  assumes "10 ^ 18 \<le> n" "n < 10 ^ 19"
  shows "length (nat_digits n) = 19"
proof (rule antisym)
  show "length (nat_digits n) \<le> 19" using assms(2) by (intro length_nat_digits_le) simp_all
  have "n < 10 ^ length (nat_digits n)" using dec_val_less[OF nat_digits_are_digits, of n] by simp
  then have "(10::nat) ^ 18 < 10 ^ length (nat_digits n)" using assms(1) by simp
  then have "18 < length (nat_digits n)" by (rule power_less_imp_less_exp[rotated]) simp
  then show "19 \<le> length (nat_digits n)" by simp
qed

lemma format_int_le_iff:
  assumes "10 ^ 18 \<le> a" "a < 2 ^ 63" "10 ^ 18 \<le> b" "b < 2 ^ 63"
  shows "format_int a \<le> format_int b \<longleftrightarrow> a \<le> b"
proof -
  have n: "nat a < 10 ^ 19" "10 ^ 18 \<le> nat a" "nat b < 10 ^ 19" "10 ^ 18 \<le> nat b" using assms by simp_all
  have "nat_digits (nat b) < nat_digits (nat a) \<longleftrightarrow> nat b < nat a"
    using digits_less_iff[of "nat_digits (nat b)" "nat_digits (nat a)"] nat_digits_are_digits n
    by (simp add: length_nat_digits_19)
  then show ?thesis using assms by (simp add: format_int_def flip: not_less)
qed

lemma parse_int64_first:
  assumes "parse_int64 s = Ok n"
  obtains c r where "s = c # r" "c = CHR ''-'' \<or> c = CHR ''+'' \<or> is_digit c"
  using assms by (cases s) (auto simp: parse_int64_def Let_def split: if_splits)

lemma slashed5_unique:
  assumes "slash_free [a, b, c, d, e]" "slash_free [a', b', c', d', e', g]"
    and "slashed [a, b, c, d, e] @ CHR ''/'' # r = slashed [a', b', c', d', e', g]"
  shows "r = g"
proof -
  have "split_on CHR ''/'' (slashed [a, b, c, d, e] @ CHR ''/'' # r) = [[], a, b, c, d, e] @ split_on CHR ''/'' r"
    using assms(1) split_on_append_sep[of "CHR ''/''" "[]"]
    by (simp add: slash_free_def slashed_simps split_on_append_sep)
  moreover have "split_on CHR ''/'' (slashed [a', b', c', d', e', g]) = [[], a', b', c', d', e', g]"
    using assms(2) split_on_append_sep[of "CHR ''/''" "[]"]
    by (simp add: slash_free_def slashed_simps split_on_append_sep split_on_no_sep)
  ultimately have "split_on CHR ''/'' r = [g]" using assms(3) by simp
  then show ?thesis using join_split[of "CHR ''/''" r] by simp
qed

text \<open>The keys of the versions of one object in one partition.\<close>

definition versions_prefix :: "string \<Rightarrow> string \<Rightarrow> string \<Rightarrow> string \<Rightarrow> string" where
  "versions_prefix part kind ns name = slashed [WatchTableKey_TableName, part, kind, ns, name] @ ''/''"

definition version_key :: "string \<Rightarrow> string \<Rightarrow> string \<Rightarrow> string \<Rightarrow> int \<Rightarrow> string" where
  "version_key part kind ns name n = WatchTableKey_String (NewWatchTableKey part kind ns name (Time n UTC))"

lemma version_key_eq:
  "n \<noteq> zero_ns \<Longrightarrow> - (2 ^ 63) \<le> n \<Longrightarrow> n < 2 ^ 63 \<Longrightarrow>
     version_key part kind ns name n = versions_prefix part kind ns name @ format_int n"
  by (simp add: version_key_def versions_prefix_def WatchTableKey_String_def NewWatchTableKey_def
      IsZero_def UnixNano_def wrap_int64_id slashed_simps)

lemma prefix_key_string:
  "name \<noteq> [] \<Longrightarrow> last name \<noteq> CHR ''.'' \<Longrightarrow> last name \<noteq> CHR ''/'' \<Longrightarrow>
     WatchTableKey_String (NewWatchTableKey part kind ns name zero_time) = versions_prefix part kind ns name"
  by (simp add: versions_prefix_def WatchTableKey_String_def NewWatchTableKey_def IsZero_def zero_time_def
      IsNameAlreadyDelimited_def slashed_simps)

lemma version_below_rune255:
  assumes "WatchTableKey_Parse s = Ok k" "prefix (versions_prefix part kind ns name) s"
    and "slash_free [part, kind, ns, name]"
  shows "s < versions_prefix part kind ns name @ rune255"
proof -
  obtain r where r: "s = versions_prefix part kind ns name @ r" using assms(2) by (auto simp: prefix_def)
  obtain c d e f g where g: "s = slashed [WatchTableKey_TableName, c, d, e, f, g]" "\<exists>n. parse_int64 g = Ok n"
    "\<forall>p \<in> {WatchTableKey_TableName, c, d, e, f, g}. CHR ''/'' \<notin> set p"
    using assms(1) by (auto simp: WatchTableKey_Parse_def elim!: parse_table_key_OkE split: res.splits)
  have "r = g"
    using slashed5_unique[of WatchTableKey_TableName part kind ns name WatchTableKey_TableName c d e f g r]
      assms(3) g r by (simp add: slash_free_def versions_prefix_def)
  moreover obtain x xs where "g = x # xs" "x = CHR ''-'' \<or> x = CHR ''+'' \<or> is_digit x"
    using g(2) parse_int64_first by metis
  ultimately show ?thesis
    unfolding r prefix_less_append by (auto simp: rune255_def is_digit_def less_char_def)
qed

lemma versions_prefix_table: "prefix (table_prefix watch_key_ops) (versions_prefix part kind ns name)"
  by (simp add: table_prefix_def OpenTable_def watch_key_ops_def versions_prefix_def slashed_simps)

context badger_store
begin

lemma last_watch_key:
  assumes "tok t" "table_parses watch_key_ops (tview t)" "slash_free [part, kind, ns, name]"
    and p: "WatchTableKey_String kp = versions_prefix part kind ns name"
  shows "getLastWatchKey B t kp = (case filter (prefix (versions_prefix part kind ns name)) (keys_of (tview t)) of
      [] \<Rightarrow> Ok (False, []) | k # ks \<Rightarrow> Ok (True, last (k # ks)))"
proof -
  let ?p = "versions_prefix part kind ns name"
  let ?o = "DefaultIteratorOptions\<lparr>opt_Prefix := ?p, opt_Reverse := True\<rparr>"
  have o: "plain_opts ?o" "opt_Reverse ?o" "opt_Prefix ?o = ?p"
    by (simp_all add: plain_opts_def DefaultIteratorOptions_def)
  have below: "s < ?p @ rune255" if sd: "s \<in> dom (tview t)" and sp: "prefix ?p s" for s
  proof -
    have "prefix (table_prefix watch_key_ops) s"
      using versions_prefix_table sp by (rule prefix_order.trans)
    then obtain k where "k_Parse watch_key_ops s = Ok k"
      using assms(2) sd unfolding table_parses_def by blast
    then have "WatchTableKey_Parse s = Ok k" by (simp add: watch_key_ops_def)
    then show ?thesis using version_below_rune255 sp assms(3) by blast
  qed
  have f: "filter (\<lambda>s. prefix ?p s \<and> s < ?p @ rune255) (keys_of (tview t)) = filter (prefix ?p) (keys_of (tview t))"
    using below finite_view[OF assms(1)] by (intro filter_cong) auto
  have nin: "?p @ rune255 \<notin> dom (tview t)" using below[of "?p @ rune255"] by auto
  show ?thesis
  proof (cases "filter (prefix ?p) (keys_of (tview t))" rule: rev_cases)
    case Nil
    then show ?thesis
      using seek_last(1)[OF assms(1) o nin, of "[]"] f by (simp add: getLastWatchKey_def p)
  next
    case (snoc ks k)
    then have "rev (filter (\<lambda>s. prefix ?p s \<and> s < ?p @ rune255) (keys_of (tview t))) = k # rev ks"
      using f by simp
    note sl = seek_last(1,3)[OF assms(1) o nin this]
    have "getLastWatchKey B t kp = Ok (True, k)"
      using sl by (simp add: getLastWatchKey_def p current_key_def)
    then show ?thesis using snoc by (cases ks) simp_all
  qed
qed

end

text \<open>The last of the sorted keys below a prefix has the largest number behind it.\<close>

lemma last_key_newest:
  assumes "sorted ks" "filter (prefix p) ks = xs @ [p @ format_int n]" "p @ format_int m \<in> set ks"
    and "10 ^ 18 \<le> m" "m < 2 ^ 63" "10 ^ 18 \<le> n" "n < 2 ^ 63"
  shows "m \<le> n"
proof -
  have "p @ format_int m \<in> set (filter (prefix p) ks)" using assms(3) by simp
  moreover have "sorted (filter (prefix p) ks)" using assms(1) by (simp add: sorted_wrt_filter)
  ultimately have "p @ format_int m \<le> p @ format_int n" unfolding assms(2) by (auto simp: sorted_append)
  then show ?thesis using format_int_le_iff assms(4-7) unfolding prefix_le_append by blast
qed

section \<open>Properties of the watch table\<close>

text \<open>
  C11: the last copy of an object is its newest. When the watch table's keys parse and the stored
  versions of the object in the partition of the time stamp lie between 2001 and 2262,
  \<open>getLastKubeWatchResult\<close> finds nothing exactly when there is no version, and otherwise reads
  the one with the latest time, although the store orders keys as strings.
\<close>

theorem last_watch_result_is_newest:
  assumes "badger_store B dview dok tview tok writable ahead iopts" "tok t" "table_parses watch_key_ops (tview t)"
    and "ptypes_Timestamp P ts = Ok time" "GetPartitionId pd time = Ok part"
    and "slash_free [part, kind, ns, name]" "name \<noteq> []" "last name \<noteq> CHR ''.''"
    and S: "S = {n. version_key part kind ns name n \<in> dom (tview t) \<and> 10 ^ 18 \<le> n \<and> n < 2 ^ 63}"
    and "\<forall>s \<in> dom (tview t). prefix (versions_prefix part kind ns name) s \<longrightarrow> s \<in> version_key part kind ns name ` S"
  shows "(S = {} \<and> getLastKubeWatchResult B P pd t ts kind ns name = Ok None)
    \<or> (\<exists>n \<in> S. (\<forall>m \<in> S. m \<le> n) \<and> getLastKubeWatchResult B P pd t ts kind ns name
          = bind_res (KubeWatchResultTable_Get B P t (version_key part kind ns name n)) (\<lambda>w. Ok (Some w)))"
proof -
  let ?p = "versions_prefix part kind ns name"
  have "CHR ''/'' \<notin> set name" using assms(6) by (simp add: slash_free_def)
  then have "last name \<noteq> CHR ''/''" using assms(7) by (metis last_in_set)
  then have p: "WatchTableKey_String (NewWatchTableKey part kind ns name zero_time) = ?p"
    using prefix_key_string assms(7,8) by blast
  note last = badger_store.last_watch_key[OF assms(1-3,6) p]
  have fin: "finite (dom (tview t))" using badger_store.finite_view[OF assms(1,2)] .
  have eq: "version_key part kind ns name n = ?p @ format_int n" if "n \<in> S" for n
    using that unfolding S by (intro version_key_eq) (simp_all add: zero_ns_def)
  have dom: "version_key part kind ns name n \<in> dom (tview t)" if "n \<in> S" for n
    using that unfolding S by simp
  show ?thesis
  proof (cases "filter (prefix ?p) (keys_of (tview t))" rule: rev_cases)
    case Nil
    then have none: "\<not> prefix ?p s" if "s \<in> dom (tview t)" for s
      using that fin by (auto simp: filter_empty_conv)
    have "S = {}"
    proof (rule ccontr)
      assume "S \<noteq> {}"
      then obtain n where "n \<in> S" by blast
      then show False using none[OF dom] eq by simp
    qed
    then show ?thesis
      using last Nil by (simp add: getLastKubeWatchResult_def toWatchTableKeyPrefix_def assms(4,5))
  next
    case (snoc ks s)
    have s: "s \<in> dom (tview t)" "prefix ?p s"
    proof -
      have "s \<in> set (filter (prefix ?p) (keys_of (tview t)))" using snoc by simp
      then show "s \<in> dom (tview t)" "prefix ?p s" using fin by auto
    qed
    then obtain n where n: "n \<in> S" "s = version_key part kind ns name n" using assms(10) by blast
    have "m \<le> n" if m: "m \<in> S" for m
    proof (rule last_key_newest)
      show "filter (prefix ?p) (keys_of (tview t)) = ks @ [?p @ format_int n]" using snoc n(2) eq[OF n(1)] by simp
      show "?p @ format_int m \<in> set (keys_of (tview t))" using dom[OF m] eq[OF m] fin by simp
    qed (use m n(1) in \<open>simp_all add: S\<close>)
    then have newest: "\<forall>m \<in> S. m \<le> n" by blast
    have "getLastWatchKey B t (NewWatchTableKey part kind ns name zero_time) = Ok (True, s)"
      using last snoc by (cases ks) simp_all
    then have "getLastKubeWatchResult B P pd t ts kind ns name
          = bind_res (KubeWatchResultTable_Get B P t (version_key part kind ns name n)) (\<lambda>w. Ok (Some w))"
      by (simp add: getLastKubeWatchResult_def toWatchTableKeyPrefix_def assms(4,5) n(2))
    with newest n(1) show ?thesis by blast
  qed
qed

section \<open>What a transaction may change\<close>

text \<open>The keys that an update may write: those below one table's prefix.\<close>

definition writes_below :: "string \<Rightarrow> (string \<rightharpoonup> string) \<Rightarrow> (string \<rightharpoonup> string) \<Rightarrow> bool" where
  "writes_below p m m' \<longleftrightarrow> (\<forall>s. \<not> prefix p s \<longrightarrow> m' s = m s)"

lemma writes_below_refl [simp]: "writes_below p m m"
  by (simp add: writes_below_def)

context badger_store
begin

lemma tbl_Set_frame:
  assumes "tok t" "writable t" "table_key K wfk" "codec_returns C" "tbl_Set B K C t key v = (r, t')"
  shows "tok t' \<and> writable t' \<and> writes_below (table_prefix K) (tview t) (tview t') \<and> (\<forall>m. r \<noteq> Panic m)"
proof (cases "k_ValidateKey K key")
  case (Ok u)
  then obtain k where k: "k_Parse K key = Ok k" using table_key.validate_ok_iff[OF assms(3), of key] by auto
  then have pre: "prefix (table_prefix K) key"
    using table_key.parse_table_prefix[OF assms(3)] by (simp add: table_prefix_slashed)
  then have ne: "key \<noteq> []" by (auto simp: table_prefix_def)
  show ?thesis
  proof (cases "c_Marshal C v")
    case (Ok b)
    then show ?thesis
      using tbl_Set_ok[OF assms(1,2) _ ne Ok, of K] \<open>k_ValidateKey K key = Ok u\<close> assms(5) pre
      by (auto simp: writes_below_def)
  next
    case (Err e)
    then show ?thesis using Ok assms by (auto simp: tbl_Set_def)
  next
    case (Panic m)
    then show ?thesis using assms(4) by (auto simp: codec_returns_def)
  qed
next
  case (Err e)
  then show ?thesis using assms by (auto simp: tbl_Set_def)
next
  case (Panic m)
  then show ?thesis using table_key.validate_no_panic[OF assms(3)] by blast
qed

lemma tbl_Get_no_panic:
  assumes "tok t" "table_key K wfk" "codec_returns C"
  shows "tbl_Get B K C t key \<noteq> Panic m"
proof (cases "k_ValidateKey K key")
  case (Ok u)
  then show ?thesis
    using assms tbl_Get_eq[of t K key C] by (auto simp: codec_returns_def split: option.splits)
next
  case (Err e)
  then show ?thesis by (simp add: tbl_Get_def)
next
  case (Panic m)
  then show ?thesis using table_key.validate_no_panic[OF assms(2)] by blast
qed

end

lemma GetPartitionId_no_panic: "valid_pd pd \<Longrightarrow> GetPartitionId pd t \<noteq> Panic m"
  using GetPartitionId_valid[of pd t] by auto

lemma toWatchTableKey_no_panic:
  assumes "pb_returns P" "valid_pd pd"
  shows "toWatchTableKey P pd ts kind ns name \<noteq> Panic m" "toWatchTableKeyPrefix P pd ts kind ns name \<noteq> Panic m"
  using assms GetPartitionId_no_panic[OF assms(2)]
  by (auto simp: toWatchTableKey_def toWatchTableKeyPrefix_def pb_returns_def bind_res_Panic_iff)

lemma set_conditions_no_panic: "ext_returns X \<Longrightarrow> set_conditions X doc idxs \<noteq> Panic m"
  by (induction X doc idxs rule: set_conditions.induct) (auto simp: ext_returns_def split: res.splits)

lemma NodeHasMajorUpdate_no_panic: "ext_returns X \<Longrightarrow> NodeHasMajorUpdate X a b \<noteq> Panic m"
  using set_conditions_no_panic[of X]
  by (auto simp: NodeHasMajorUpdate_def removeResVerAndTimestamp_def bind_res_Panic_iff ext_returns_def)

context badger_store
begin

lemma current_key_panic: "it_ValidForPrefix B (it_Seek B (tx_NewIterator B t o1) s) p \<Longrightarrow>
    prefix (opt_Prefix o1) p \<Longrightarrow> current_key B (it_Seek B (tx_NewIterator B t o1) s) \<noteq> Panic m"
  using valid_prefix[of "it_Seek B (tx_NewIterator B t o1) s" p] item[of "it_Seek B (tx_NewIterator B t o1) s"]
  by (auto simp: newiter seek_opts current_key_def split: list.splits option.splits)

lemma getLast_no_panic:
  assumes "tok t" "pb_returns P" "valid_pd pd"
  shows "getLastKubeWatchResult B P pd t ts kind ns name \<noteq> Panic m"
  using assms toWatchTableKey_no_panic[OF assms(2,3)] current_key_panic
    tbl_Get_no_panic[OF assms(1) wtk.table_key_axioms, of "watch_codec P"]
  by (auto simp: getLastKubeWatchResult_def getLastWatchKey_def Let_def bind_res_Panic_iff
      KubeWatchResultTable_Get_def pb_returns_def DefaultIteratorOptions_def split: if_splits)

lemma watch_update_frame:
  assumes "tok t" "writable t" "pb_returns P" "ext_returns X" "valid_pd pd"
    and "updateKubeWatchTable B P X pd t rec md keepMinor = (r, t')"
  shows "tok t' \<and> writable t' \<and> writes_below (table_prefix watch_key_ops) (tview t) (tview t') \<and> (\<forall>m. r \<noteq> Panic m)"
proof -
  have np: "doesNodeHaveMajorUpdates B P X pd t rec md \<noteq> Panic m" for m
    using getLast_no_panic[OF assms(1,3,5)] NodeHasMajorUpdate_no_panic[OF assms(4)]
    by (auto simp: doesNodeHaveMajorUpdates_def bind_res_Panic_iff split: option.splits)
  have cr: "codec_returns (watch_codec P)" using assms(3) by (simp add: pb_returns_def)
  note fr = tbl_Set_frame[OF assms(1,2) wtk.table_key_axioms cr]
  show ?thesis
    using assms(1,2,6) np toWatchTableKey_no_panic[OF assms(3,5)] fr
    by (fastforce simp: updateKubeWatchTable_def KubeWatchResultTable_Set_def split: res.splits prod.splits if_splits)
qed

end

context badger_store
begin

lemma activity_update_frame:
  assumes "tok t" "writable t" "pb_returns P" "valid_pd pd"
    and "updateWatchActivityTable B P X pd t rec md = (r, t')"
  shows "tok t' \<and> writable t' \<and> writes_below (table_prefix activity_key_ops) (tview t) (tview t') \<and> (\<forall>m. r \<noteq> Panic m)"
proof -
  have cr: "codec_returns (activity_codec P)" and pt: "ptypes_Timestamp P ts \<noteq> Panic m" for ts m
    using assms(3) by (simp_all add: pb_returns_def)
  note fr = tbl_Set_frame[OF assms(1,2) wak.table_key_axioms cr]
  have g: "WatchActivity_GetOrDefault B P t key \<noteq> Panic m" for key m
    using tbl_Get_no_panic[OF assms(1) wak.table_key_axioms cr]
    by (auto simp: WatchActivity_GetOrDefault_def WatchActivityTable_Get_def split: res.splits if_splits)
  have d: "didKubeWatchResultChange B P X pd t rec md \<noteq> Panic m" for m
    using getLast_no_panic[OF assms(1,3,4)]
    by (auto simp: didKubeWatchResultChange_def bind_res_Panic_iff split: option.splits prod.splits)
  have w: "getWatchActivity B P pd t ts rec md \<noteq> Panic m" for ts m
    using g GetPartitionId_no_panic[OF assms(4)] by (auto simp: getWatchActivity_def bind_res_Panic_iff Let_def)
  show ?thesis
    using assms(1,2,5) d w pt fr
    by (fastforce simp: updateWatchActivityTable_def putWatchActivity_def WatchActivityTable_Set_def
        bind_res_Panic_iff split: res.splits prod.splits if_splits)
qed

lemma summary_update_frame:
  assumes "tok t" "writable t" "pb_returns P" "ext_returns X" "valid_pd pd"
    and "updateResourceSummaryTable B P X pd t rec md = (r, t')"
  shows "tok t' \<and> writable t' \<and> writes_below (table_prefix ressum_key_ops) (tview t) (tview t') \<and> (\<forall>m. r \<noteq> Panic m)"
proof -
  have cr: "codec_returns (ressum_codec P)" and pt: "ptypes_Timestamp P ts \<noteq> Panic m"
    and pp: "ptypes_TimestampProto P tm \<noteq> Panic m" for ts tm m
    using assms(3) by (simp_all add: pb_returns_def)
  note fr = tbl_Set_frame[OF assms(1,2) rsk.table_key_axioms cr]
  have s: "StringToProtobufTimestamp P X s \<noteq> Panic m" for s m
    using assms(4) pp by (auto simp: StringToProtobufTimestamp_def bind_res_Panic_iff ext_returns_def)
  have k: "NewResourceSummaryKey pd ts kd ns nm u \<noteq> Panic m" for ts kd ns nm u m
    using GetPartitionId_no_panic[OF assms(5)] by (auto simp: NewResourceSummaryKey_def bind_res_Panic_iff)
  have v: "getResourceSummaryValue B P X t key md rec \<noteq> Panic m" for key m
    using tbl_Get_no_panic[OF assms(1) rsk.table_key_axioms cr] s
    by (auto simp: getResourceSummaryValue_def bind_res_Panic_iff ResourceSummaryTable_Get_def Let_def
        split: res.splits if_splits)
  have rel: "getRelationships pd ts ns refs \<noteq> Panic m" for ts ns refs m
    by (induction refs arbitrary: m) (auto simp: bind_res_Panic_iff k)
  show ?thesis
    using assms(1,2,6) k v rel pt fr
    by (fastforce simp: updateResourceSummaryTable_def ResourceSummaryTable_Set_def Let_def
        bind_res_Panic_iff split: res.splits prod.splits if_splits)
qed

end

context badger_store
begin

lemma run_update_ok:
  assumes "dok d"
    and f: "\<And>t r t'. tok t \<Longrightarrow> writable t \<Longrightarrow> f t = (r, t') \<Longrightarrow>
      tok t' \<and> writable t' \<and> writes_below p (tview t) (tview t') \<and> (\<forall>m. r \<noteq> Panic m)"
  shows "\<exists>d' fs'. run_update B name f (d, fs) = Ok (d', fs') \<and> dok d' \<and> writes_below p (dview d) (dview d')
    \<and> set fs \<subseteq> set fs' \<and> set fs' \<subseteq> insert name (set fs)
    \<and> (name \<notin> set fs' \<longrightarrow> (\<exists>t t'. tok t \<and> writable t \<and> tview t = dview d \<and> f t = (Ok (), t') \<and> dview d' = tview t'))"
proof -
  let ?t = "db_NewTxn B d False"
  have t: "tok ?t" "writable ?t" "tview ?t = dview d" using newtxn[OF assms(1), of False] by auto
  obtain r t' where r: "f ?t = (r, t')" by (cases "f ?t")
  note ft = f[OF t(1,2) r]
  obtain err d' where e: "db_EndTxn B d t' (is_ok r) = (err, d')" by (cases "db_EndTxn B d t' (is_ok r)")
  show ?thesis
  proof (cases r)
    case (Ok u)
    then have c: "dok d'" "if err = None then dview d' = tview t' else dview d' = dview d"
      using commit[OF assms(1), of t' err d'] e ft by auto
    then show ?thesis
      using ft r e t Ok
      by (cases err) (auto simp: run_update_def db_Update_def processingFailed_def)
  next
    case (Err x)
    then have c: "dok d'" "dview d' \<in> {dview d, tview t'}"
      using abort[OF assms(1), of t' err d'] e ft by auto
    then have "writes_below p (dview d) (dview d')" using ft t(3) by auto
    then show ?thesis
      using c(1) r e Err by (auto simp: run_update_def db_Update_def processingFailed_def)
  next
    case (Panic m)
    then show ?thesis using ft by blast
  qed
qed

lemma run_update_done:
  assumes "dok d" "run_update B name f (d, fs) = Ok (d', fs')" "name \<notin> set fs'"
    and f: "\<And>t r t'. tok t \<Longrightarrow> writable t \<Longrightarrow> f t = (r, t') \<Longrightarrow>
      tok t' \<and> writable t' \<and> writes_below p (tview t) (tview t') \<and> (\<forall>m. r \<noteq> Panic m)"
  obtains t t' where "tok t" "writable t" "tview t = dview d" "f t = (Ok (), t')" "dview d' = tview t'"
proof -
  have "\<exists>d' fs'. run_update B name f (d, fs) = Ok (d', fs') \<and> dok d' \<and> writes_below p (dview d) (dview d')
    \<and> set fs \<subseteq> set fs' \<and> set fs' \<subseteq> insert name (set fs)
    \<and> (name \<notin> set fs' \<longrightarrow> (\<exists>t t'. tok t \<and> writable t \<and> tview t = dview d \<and> f t = (Ok (), t') \<and> dview d' = tview t'))"
    by (rule run_update_ok[OF assms(1)]) (rule f)
  then obtain e gs where "run_update B name f (d, fs) = Ok (e, gs)"
    "name \<notin> set gs \<longrightarrow> (\<exists>t t'. tok t \<and> writable t \<and> tview t = dview d \<and> f t = (Ok (), t') \<and> dview e = tview t')"
    by (elim exE conjE)
  with assms(2,3) show ?thesis using that by auto
qed

text \<open>An object that is not an event changes no count.\<close>

lemma non_event_uncounted:
  "wr_Kind rec \<noteq> EventKind \<Longrightarrow> updateEventCountTable B P X plat pd loc now t rec md io = Some (Ok (), t)"
  by (simp add: updateEventCountTable_def)

text \<open>A record that changes no count: an object other than an event, or an event that counts nothing.\<close>

lemma process_uncounted:
  assumes "dok d" "pb_returns P" "ext_returns X" "valid_pd pd"
    and ev: "\<And>io. updateEventCountTable B P X plat pd loc now (db_NewTxn B d False) rec md io = Some (Ok (), db_NewTxn B d False)"
    and md: "ExtractMetadata X (wr_Payload rec) = (md, err)"
  obtains d' fs d2 fs2 d3 fs3 where "process_record B P X plat pd loc now keep d rec = Some (Ok (d', fs))"
    "dok d'" "dok d2" "set fs3 \<subseteq> set fs"
    "run_update B ''updateKubeWatchTable'' (\<lambda>txn. updateKubeWatchTable B P X pd txn rec md keep) (d2, fs2) = Ok (d3, fs3)"
    "writes_below (table_prefix activity_key_ops) (dview d) (dview d2)"
    "writes_below (table_prefix watch_key_ops) (dview d2) (dview d3)"
    "writes_below (table_prefix ressum_key_ops) (dview d3) (dview d')"
proof -
  obtain io ioerr where io: "ExtractInvolvedObject X (wr_Payload rec) = (io, ioerr)"
    by (cases "ExtractInvolvedObject X (wr_Payload rec)")
  define f0 where "f0 = (if err \<noteq> None then [''cannot extract resource metadata''] else [])
                  @ (if ioerr \<noteq> None then [''cannot extract involved object''] else [])"
  let ?t = "db_NewTxn B d False"
  have tn: "tok ?t" "writable ?t" "tview ?t = dview d" using newtxn[OF assms(1), of False] by auto
  obtain e1 d1 where e1: "db_EndTxn B d ?t True = (e1, d1)" by (cases "db_EndTxn B d ?t True")
  have d1: "dok d1" "dview d1 = dview d"
    using commit[OF assms(1) tn(1,2) e1] tn(3) by (auto split: if_splits)
  obtain f1 where s1: "run_update B ''updateEventCountTable'' (\<lambda>_. (Ok (), ?t)) (d, f0) = Ok (d1, f1)"
    using e1 by (cases e1) (auto simp: run_update_def db_Update_def)
  obtain d2 f2 where s2: "run_update B ''updateWatchActivityTable''
      (\<lambda>txn. updateWatchActivityTable B P X pd txn rec md) (d1, f1) = Ok (d2, f2)" "dok d2"
    "writes_below (table_prefix activity_key_ops) (dview d1) (dview d2)"
    using run_update_ok[OF d1(1), of "\<lambda>txn. updateWatchActivityTable B P X pd txn rec md"
        "table_prefix activity_key_ops" "''updateWatchActivityTable''" f1]
      activity_update_frame[OF _ _ assms(2,4)] by blast
  obtain d3 f3 where s3: "run_update B ''updateKubeWatchTable''
      (\<lambda>txn. updateKubeWatchTable B P X pd txn rec md keep) (d2, f2) = Ok (d3, f3)" "dok d3"
    "writes_below (table_prefix watch_key_ops) (dview d2) (dview d3)"
    using run_update_ok[OF s2(2), of "\<lambda>txn. updateKubeWatchTable B P X pd txn rec md keep"
        "table_prefix watch_key_ops" "''updateKubeWatchTable''" f2]
      watch_update_frame[OF _ _ assms(2,3,4)] by blast
  obtain d4 f4 where s4: "run_update B ''updateResourceSummaryTable''
      (\<lambda>txn. updateResourceSummaryTable B P X pd txn rec md) (d3, f3) = Ok (d4, f4)" "dok d4"
    "writes_below (table_prefix ressum_key_ops) (dview d3) (dview d4)" "set f3 \<subseteq> set f4"
    using run_update_ok[OF s3(2), of "\<lambda>txn. updateResourceSummaryTable B P X pd txn rec md"
        "table_prefix ressum_key_ops" "''updateResourceSummaryTable''" f3]
      summary_update_frame[OF _ _ assms(2,3,4)] by blast
  have "process_record B P X plat pd loc now keep d rec = Some (Ok (d4, f4))"
    unfolding process_record_def md io Let_def prod.case f0_def[symmetric] ev option.map s1 bind_res.simps
      s2(1) s3(1) s4(1) ..
  then show ?thesis by (rule that[OF _ s4(2) s2(2) s4(4) s3(1) s2(3)[unfolded d1(2)] s3(3) s4(3)])
qed

lemmas process_non_event = process_uncounted[OF _ _ _ _ non_event_uncounted]

lemma watch_update_stores:
  assumes "tok t" "writable t" "wr_Kind rec = NodeKind \<longrightarrow> keep"
    and "toWatchTableKey P pd (wr_Timestamp rec) (wr_Kind rec) (km_Namespace md) (km_Name md) = Ok k"
    and "watch_key_wf k" "codec_ok (watch_codec P) rec"
  shows "\<exists>t' b. updateKubeWatchTable B P X pd t rec md keep = (Ok (), t') \<and> tok t' \<and> writable t'
    \<and> tview t' = (tview t)(WatchTableKey_String k \<mapsto> b) \<and> c_Unmarshal (watch_codec P) b = Ok rec"
proof -
  obtain b where b: "c_Marshal (watch_codec P) rec = Ok b" "c_Unmarshal (watch_codec P) b = Ok rec"
    using assms(6) by (auto simp: codec_ok_def)
  have v: "k_ValidateKey watch_key_ops (WatchTableKey_String k) = Ok ()"
    using wtk.validate_string[OF assms(5)] by (simp add: watch_key_ops_def)
  have ne: "WatchTableKey_String k \<noteq> []" by (simp add: WatchTableKey_String_def slashed_simps)
  show ?thesis
    using tbl_Set_ok[OF assms(1,2) v ne b(1)] assms(3,4) b(2)
    by (auto simp: updateKubeWatchTable_def KubeWatchResultTable_Set_def)
qed

end

lemma watch_key_outside:
  "\<not> prefix (table_prefix ressum_key_ops) (WatchTableKey_String k)"
  by (simp add: table_prefix_def OpenTable_def ressum_key_ops_def table_names WatchTableKey_String_def slashed_simps)

section \<open>Properties of the runner\<close>



end
