(* ===== verification/SampleStores.thy ===== *)
theory SampleStores
  imports ProcessingFacts
begin

text \<open>
  In-memory stores with one version of one object, on which the witnesses evaluate the functions
  of \<open>pkg/sloop/processing\<close>.
\<close>

definition one_version :: "KubeWatchResult \<Rightarrow> MockDb" where
  "one_version w = \<lparr>mock_data = [(version_key ''001546398000'' (wr_Kind w) ''ns'' ''n'' 1546398000000000000,
     ok_of (c_Marshal sample_watch_codec w))]\<rparr>"

lemma empty_txn:
  "mock_dok (txn_db (mock_NewTxn mock_Open ro))" "mock_writable (mock_NewTxn mock_Open False)"
  "mock_dview (txn_db (mock_NewTxn mock_Open ro)) = Map.empty"
  by (simp_all add: mock_NewTxn_def mock_writable_def mock_dok_def mock_Open_def mock_dview_def fun_eq_iff)

lemma empty_tables: "tables_parse Map.empty" "all_partitions Map.empty = {}"
  by (simp_all add: all_partitions_def table_partitions_def table_keys_def tables_parse_def table_parses_def)

lemma one_version_txn:
  "mock_dok (txn_db (mock_NewTxn (one_version w) ro))" "mock_writable (mock_NewTxn (one_version w) False)"
  "mock_dview (txn_db (mock_NewTxn (one_version w) ro))
     = [version_key ''001546398000'' (wr_Kind w) ''ns'' ''n'' 1546398000000000000 \<mapsto> ok_of (c_Marshal sample_watch_codec w)]"
  by (simp_all add: mock_NewTxn_def mock_writable_def mock_dok_def one_version_def mock_dview_def fun_eq_iff)

lemma one_version_key:
  assumes "slash_free [wr_Kind w]"
  shows "watch_key_wf (NewWatchTableKey ''001546398000'' (wr_Kind w) ''ns'' ''n'' (Time 1546398000000000000 UTC))"
  using assms by (simp add: key_wf_defs NewWatchTableKey_def IsZero_def zero_ns_def)

lemma one_version_parses:
  assumes "slash_free [wr_Kind w]"
  shows "table_parses watch_key_ops (mock_dview (txn_db (mock_NewTxn (one_version w) ro)))"
proof -
  let ?k = "NewWatchTableKey ''001546398000'' (wr_Kind w) ''ns'' ''n'' (Time 1546398000000000000 UTC)"
  have "k_Parse watch_key_ops (version_key ''001546398000'' (wr_Kind w) ''ns'' ''n'' 1546398000000000000) = Ok ?k"
    using wtk.parse_string[OF one_version_key[OF assms]] by (simp add: version_key_def watch_key_ops_def)
  moreover have "k_PartitionId watch_key_ops ?k = ''001546398000''" by (simp add: watch_key_ops_def NewWatchTableKey_def)
  ultimately show ?thesis
    unfolding one_version_txn(3) table_parses_def by (simp add: is_digit_def)
qed

lemma one_version_last_key:
  assumes "slash_free [wr_Kind w]"
  shows "getLastWatchKey mock_ops (mock_NewTxn (one_version w) ro)
      (NewWatchTableKey ''001546398000'' (wr_Kind w) ''ns'' ''n'' zero_time)
    = Ok (True, version_key ''001546398000'' (wr_Kind w) ''ns'' ''n'' 1546398000000000000)"
proof -
  let ?vk = "version_key ''001546398000'' (wr_Kind w) ''ns'' ''n'' 1546398000000000000"
  have "prefix (versions_prefix ''001546398000'' (wr_Kind w) ''ns'' ''n'') ?vk"
    using version_key_eq[of 1546398000000000000] by (simp add: zero_ns_def)
  moreover have "slash_free [''001546398000'', wr_Kind w, ''ns'', ''n'']" using assms by (simp add: slash_free_def)
  moreover have "WatchTableKey_String (NewWatchTableKey ''001546398000'' (wr_Kind w) ''ns'' ''n'' zero_time)
      = versions_prefix ''001546398000'' (wr_Kind w) ''ns'' ''n''" by (rule prefix_key_string) simp_all
  ultimately show ?thesis
    using mock.last_watch_key[OF one_version_txn(1)[of w ro] one_version_parses[OF assms], where part = "''001546398000''"
        and kind = "wr_Kind w" and ns = "''ns''" and name = "''n''"] by (simp add: one_version_txn(3))
qed

lemma one_version_get:
  assumes "slash_free [wr_Kind w]"
  shows "KubeWatchResultTable_Get mock_ops sample_pb (mock_NewTxn (one_version w) ro)
      (version_key ''001546398000'' (wr_Kind w) ''ns'' ''n'' 1546398000000000000) = Ok w"
proof -
  let ?vk = "version_key ''001546398000'' (wr_Kind w) ''ns'' ''n'' 1546398000000000000"
  have "k_ValidateKey watch_key_ops ?vk = Ok ()"
    using wtk.validate_string[OF one_version_key[OF assms]] by (simp add: version_key_def watch_key_ops_def)
  moreover obtain b where "c_Marshal sample_watch_codec w = Ok b" "c_Unmarshal sample_watch_codec b = Ok w"
    using sample_codecs_ok(1)[of w] by (auto simp: codec_ok_def)
  ultimately show ?thesis
    using mock.tbl_Get_eq[OF one_version_txn(1)[of w ro], of watch_key_ops ?vk sample_watch_codec]
    by (simp add: KubeWatchResultTable_Get_def sample_pb_def one_version_txn(3))
qed

definition sample_ts :: "pb_timestamp option" where
  "sample_ts = Some \<lparr>pb_seconds = 1546398000, pb_nanos = 0\<rparr>"

lemma sample_prefix:
  "toWatchTableKeyPrefix sample_pb Hour sample_ts kind ns name
    = Ok (NewWatchTableKey ''001546398000'' kind ns name zero_time)"
  by (simp add: toWatchTableKeyPrefix_def sample_pb_def sample_ts_def sample_partition)

lemma one_version_last:
  assumes "slash_free [wr_Kind w]"
  shows "getLastKubeWatchResult mock_ops sample_pb Hour (mock_NewTxn (one_version w) ro) sample_ts (wr_Kind w) ''ns'' ''n''
    = Ok (Some w)"
  by (simp add: getLastKubeWatchResult_def sample_prefix one_version_last_key[OF assms] one_version_get[OF assms])

lemma empty_last:
  assumes "slash_free [kind, ns, name]" "name \<noteq> []" "last name \<noteq> CHR ''.''"
  shows "getLastKubeWatchResult mock_ops sample_pb Hour (mock_NewTxn mock_Open ro) sample_ts kind ns name = Ok None"
proof -
  have "last name \<noteq> CHR ''/''" using assms(1,2) by (metis last_in_set list.set_intros slash_free_def)
  then show ?thesis
    using mock.last_watch_key[OF empty_txn(1)[of ro], where part = "''001546398000''" and kind = kind and ns = ns and name = name
        and kp = "NewWatchTableKey ''001546398000'' kind ns name zero_time"] empty_tables(1) assms
      prefix_key_string[of name "''001546398000''" kind ns]
    by (simp add: getLastKubeWatchResult_def sample_prefix empty_txn(3) tables_parse_def slash_free_def)
qed

text \<open>The partition of the sample records is in the range of their time.\<close>

lemma sample_range_ids:
  assumes "GetPartitionsFromTimeRange Hour (Time 1546398000000000000 UTC) (Time 1546398000000000000 UTC) = Some (Ok (ids, None))"
  shows "''001546398000'' \<in> set ids"
proof -
  let ?t = "Time 1546398000000000000 UTC"
  let ?u = "part_start Hour (Unix ?t)"
  have u: "tloc ?t = UTC" "0 \<le> Unix ?t" "Unix ?t < 10 ^ 12" "Unix ?t + pd_secs Hour < 10 ^ 12" "valid_pd Hour"
    by (simp_all add: Unix_def pd_secs_def Hour_def valid_pd_def)
  have "ids = map pid (part_starts Hour ?u ?u)"
    using assms unfolding time_range_walk[OF u(5) u(1) u(1) u(2) u(3) u(2) u(4)] by blast
  moreover have "?u \<in> set (part_starts Hour ?u ?u)" unfolding set_part_starts[OF u(5)] by simp
  ultimately have "pid ?u \<in> set ids" by simp
  moreover have "pid ?u = ''001546398000''"
    using GetPartitionId_pid[OF u(5,1,2)] u(3) unfolding sample_partition by simp
  ultimately show ?thesis by simp
qed

end
