(* ===== verification/EventStore.thy ===== *)
theory EventStore
  imports SampleStores
begin

text \<open>
  The event counts as \<open>storeMinutes\<close> and \<open>updateEventCountTable\<close> keep them: what a stored count
  is, and how the updates of \<open>pkg/sloop/processing/eventcount.go\<close> change it.
\<close>

section \<open>Stored counts\<close>

definition counts_in :: "ResourceEventCounts \<Rightarrow> int \<Rightarrow> string \<Rightarrow> int" where
  "counts_in rec m r =
    (case rec_MapMinToEvents rec of None \<Rightarrow> 0 | Some minutes \<Rightarrow>
      (case map_of minutes m of None \<Rightarrow> 0 | Some c \<Rightarrow>
        (case evc_MapReasonToCount c of None \<Rightarrow> 0 | Some reasons \<Rightarrow>
          (case map_of reasons r of None \<Rightarrow> 0 | Some n \<Rightarrow> n))))"

text \<open>The count of reason \<open>r\<close> at minute \<open>m\<close> in the row of a key; 0 when there is none.\<close>

definition stored_count ::
  "('db, 'txn, 'it) badger \<Rightarrow> pb_lib \<Rightarrow> 'txn \<Rightarrow> string \<Rightarrow> int \<Rightarrow> string \<Rightarrow> int" where
  "stored_count B P t key m r =
    (case EventCount_GetOrDefault B P t key of Ok rec \<Rightarrow> counts_in rec m r | _ \<Rightarrow> 0)"

text \<open>No nil maps.\<close>

definition full_record :: "ResourceEventCounts \<Rightarrow> bool" where
  "full_record rec \<longleftrightarrow> (\<exists>minutes. rec_MapMinToEvents rec = Some minutes
     \<and> (\<forall>mc \<in> set minutes. evc_MapReasonToCount (snd mc) \<noteq> None))"

definition event_rows_ok :: "pb_lib \<Rightarrow> (string \<rightharpoonup> string) \<Rightarrow> bool" where
  "event_rows_ok P m \<longleftrightarrow> (\<forall>s b. m s = Some b \<longrightarrow> prefix (table_prefix event_key_ops) s \<longrightarrow>
     (\<exists>rec. c_Unmarshal (event_codec P) b = Ok rec \<and> full_record rec))"

text \<open>The key of the row that holds a minute.\<close>

definition minute_key :: "int \<Rightarrow> string \<Rightarrow> string \<Rightarrow> string \<Rightarrow> string \<Rightarrow> int \<Rightarrow> string" where
  "minute_key pd kind ns name uid m =
    (case NewEventCountKey pd (Time (m * 1000000000) UTC) kind ns name uid of
       Ok k \<Rightarrow> EventCountKey_String k | _ \<Rightarrow> [])"

lemma counts_in_update:
  assumes "rec_MapMinToEvents rec = Some minutes"
    and "(case map_of minutes m of None \<Rightarrow> Some [] | Some c \<Rightarrow> evc_MapReasonToCount c) = Some reasons"
  shows "counts_in \<lparr>rec_MapMinToEvents = Some (AList.update m \<lparr>evc_MapReasonToCount = Some (AList.update r v reasons)\<rparr> minutes)\<rparr> m' r'
    = (if m' = m \<and> r' = r then v else counts_in rec m' r')"
    and "counts_in rec m r = (case map_of reasons r of None \<Rightarrow> 0 | Some n \<Rightarrow> n)"
  using assms by (auto simp: counts_in_def map_of_AList_update split: option.splits)

lemma full_record_update:
  assumes "full_record rec" "rec_MapMinToEvents rec = Some minutes"
  shows "full_record \<lparr>rec_MapMinToEvents = Some (AList.update m \<lparr>evc_MapReasonToCount = Some x\<rparr> minutes)\<rparr>"
    "\<exists>reasons. (case map_of minutes m of None \<Rightarrow> Some [] | Some c \<Rightarrow> evc_MapReasonToCount c) = Some reasons"
proof -
  have full: "\<forall>mc \<in> set minutes. evc_MapReasonToCount (snd mc) \<noteq> None"
    using assms by (auto simp: full_record_def)
  have "set (AList.update m c minutes) \<subseteq> insert (m, c) (set minutes)" for c :: EventCounts
    by (induction minutes) auto
  then show "full_record \<lparr>rec_MapMinToEvents = Some (AList.update m \<lparr>evc_MapReasonToCount = Some x\<rparr> minutes)\<rparr>"
    using full by (fastforce simp: full_record_def)
  show "\<exists>reasons. (case map_of minutes m of None \<Rightarrow> Some [] | Some c \<Rightarrow> evc_MapReasonToCount c) = Some reasons"
    using full map_of_SomeD[of minutes m] by (fastforce split: option.splits)
qed

section \<open>Grouping by partition\<close>

lemma mset_concat_update:
  assumes "m \<notin> fst ` set (concat (map snd acc))"
  shows "mset (concat (map snd (AList.update p (AList.update m c (case map_of acc p of None \<Rightarrow> [] | Some ms \<Rightarrow> ms)) acc)))
    = add_mset (m, c) (mset (concat (map snd acc)))"
  using assms
proof (induction acc)
  case (Cons a acc)
  then show ?case by (cases a) (auto simp: update_fresh image_Un)
qed simp

lemma group_minutes_all:
  assumes "valid_pd pd" "distinct (map fst mins)" "fst ` set mins \<inter> fst ` set (concat (map snd acc)) = {}"
  shows "\<exists>g. group_minutes pd loc mins acc = Ok g
    \<and> mset (concat (map snd g)) = mset (concat (map snd acc)) + mset mins"
  using assms(2,3)
proof (induction mins arbitrary: acc)
  case (Cons a mins)
  obtain m c where a: "a = (m, c)" by (cases a)
  obtain p where p: "GetPartitionId pd (time_Unix loc m 0) = Ok p" using GetPartitionId_valid[OF assms(1)] by blast
  let ?acc = "AList.update p (AList.update m c (case map_of acc p of None \<Rightarrow> [] | Some ms \<Rightarrow> ms)) acc"
  have ms: "mset (concat (map snd ?acc)) = add_mset (m, c) (mset (concat (map snd acc)))"
    using Cons.prems(2) a by (intro mset_concat_update) auto
  then have "set (concat (map snd ?acc)) = insert (m, c) (set (concat (map snd acc)))"
    by (metis set_mset_add_mset_insert set_mset_mset)
  then have "fst ` set mins \<inter> fst ` set (concat (map snd ?acc)) = {}"
    using Cons.prems a by auto
  with Cons.prems obtain g where "group_minutes pd loc mins ?acc = Ok g"
    "mset (concat (map snd g)) = mset (concat (map snd ?acc)) + mset mins"
    using Cons.IH[of ?acc] by auto
  then show ?case using ms a p by (simp add: Let_def)
qed simp

section \<open>Storing one minute\<close>

context badger_store
begin

lemma event_get:
  assumes "tok t" "event_rows_ok P (tview t)" "k_ValidateKey event_key_ops key = Ok ()"
  obtains rec where "EventCount_GetOrDefault B P t key = Ok rec" "full_record rec"
proof (cases "tview t key")
  case None
  then have "EventCount_GetOrDefault B P t key = Ok \<lparr>rec_MapMinToEvents = Some []\<rparr>"
    using tbl_Get_eq[OF assms(1,3), of "event_codec P"]
    by (simp add: EventCount_GetOrDefault_def ResourceEventCountsTable_Get_def)
  then show ?thesis using that by (simp add: full_record_def)
next
  case (Some b)
  obtain k where "k_Parse event_key_ops key = Ok k" using assms(3) eck.validate_ok_iff by blast
  then have "prefix (table_prefix event_key_ops) key"
    using eck.parse_table_prefix by (simp add: table_prefix_slashed)
  then obtain rec where "c_Unmarshal (event_codec P) b = Ok rec" "full_record rec"
    using assms(2) Some by (auto simp: event_rows_ok_def)
  then show ?thesis
    using that[of rec] tbl_Get_eq[OF assms(1,3), of "event_codec P"] Some
    by (simp add: EventCount_GetOrDefault_def ResourceEventCountsTable_Get_def)
qed

lemma stored_count_cong:
  "tok t \<Longrightarrow> tok t' \<Longrightarrow> tview t key = tview t' key \<Longrightarrow> stored_count B P t key m r = stored_count B P t' key m r"
  using tbl_Get_cong[of t t' key event_key_ops "event_codec P"]
  by (simp add: stored_count_def EventCount_GetOrDefault_def ResourceEventCountsTable_Get_def)

lemma store_minute_adds:
  assumes "tok t" "writable t" "event_rows_ok P (tview t)" "valid_pd pd"
    and "slash_free [kind, ns, name, uid]" "uid \<noteq> []" "\<forall>v. codec_ok (event_codec P) v"
  obtains t' where "store_minute B P pd loc kind ns name uid reason sev m c t = (None, t')" "tok t'" "writable t'"
    "event_rows_ok P (tview t')"
    "\<forall>key' m' r'. stored_count B P t' key' m' r' =
      (if key' = minute_key pd kind ns name uid m \<and> m' = m \<and> r' = reason @ '':'' @ sev
       then wrap_int32 (stored_count B P t key' m' r' + wrap_int32 c) else stored_count B P t key' m' r')"
proof -
  obtain p where p: "GetPartitionId pd (Time (m * 1000000000) UTC) = Ok p" using GetPartitionId_valid[OF assms(4)] by blast
  let ?k = "\<lparr>ec_PartitionId = p, ec_Kind = kind, ec_Namespace = ns, ec_Name = name, ec_Uid = uid\<rparr>"
  let ?key = "EventCountKey_String ?k" and ?r = "reason @ '':'' @ sev"
  have nk: "NewEventCountKey pd (time_UTC (time_Unix loc m 0)) kind ns name uid = Ok ?k"
    using p by (simp add: NewEventCountKey_def time_UTC_def time_Unix_def)
  have mk: "minute_key pd kind ns name uid m = ?key"
    using p by (simp add: minute_key_def NewEventCountKey_def)
  have "CHR ''/'' \<notin> set p"
    using p assms(4) format_012d_digits digit_not_sign
    by (fastforce simp: GetPartitionId_def Let_def valid_pd_def split: if_splits)
  then have wfk: "event_key_wf ?k" using assms(5,6) by (simp add: key_wf_defs)
  then have v: "k_ValidateKey event_key_ops ?key = Ok ()"
    using eck.validate_string by (simp add: event_key_ops_def)
  obtain rec where rec: "EventCount_GetOrDefault B P t ?key = Ok rec" "full_record rec"
    using event_get[OF assms(1,3) v] .
  then obtain minutes where mins: "rec_MapMinToEvents rec = Some minutes" by (auto simp: full_record_def)
  obtain reasons where rs: "(case map_of minutes m of None \<Rightarrow> Some [] | Some c \<Rightarrow> evc_MapReasonToCount c) = Some reasons"
    using full_record_update(2)[OF rec(2) mins] by blast
  let ?old = "case map_of reasons ?r of None \<Rightarrow> 0 | Some n \<Rightarrow> n"
  let ?rec' = "\<lparr>rec_MapMinToEvents = Some (AList.update m
      \<lparr>evc_MapReasonToCount = Some (AList.update ?r (wrap_int32 (?old + wrap_int32 c)) reasons)\<rparr> minutes)\<rparr>"
  obtain b where b: "c_Marshal (event_codec P) ?rec' = Ok b" "c_Unmarshal (event_codec P) b = Ok ?rec'"
    using assms(7) by (auto simp: codec_ok_def)
  have ne: "?key \<noteq> []" by (simp add: EventCountKey_String_def slashed_simps)
  obtain t' where t': "tbl_Set B event_key_ops (event_codec P) t ?key ?rec' = (Ok (), t')" "tok t'" "writable t'"
    "tview t' = (tview t)(?key \<mapsto> b)"
    using tbl_Set_ok[OF assms(1,2) v ne b(1)] by blast
  have st: "store_minute B P pd loc kind ns name uid reason sev m c t = (None, t')"
    using t'(1) by (simp add: store_minute_def nk rec(1) mins rs Let_def ResourceEventCountsTable_Set_def)
  have rows: "event_rows_ok P (tview t')"
    using assms(3) b(2) full_record_update(1)[OF rec(2) mins] t'(4) by (auto simp: event_rows_ok_def)
  have g': "EventCount_GetOrDefault B P t' ?key = Ok ?rec'"
    using tbl_Get_eq[OF t'(2) v, of "event_codec P"] t'(4) b(2)
    by (simp add: EventCount_GetOrDefault_def ResourceEventCountsTable_Get_def)
  have "stored_count B P t' key' m' r' =
      (if key' = ?key \<and> m' = m \<and> r' = ?r
       then wrap_int32 (stored_count B P t key' m' r' + wrap_int32 c) else stored_count B P t key' m' r')" for key' m' r'
  proof (cases "key' = ?key")
    case True
    then show ?thesis
      using counts_in_update[OF mins rs] g' rec(1) by (simp add: stored_count_def)
  next
    case False
    then show ?thesis using stored_count_cong[OF t'(2) assms(1)] t'(4) by simp
  qed
  then show ?thesis using that[OF st t'(2,3) rows] mk by simp
qed

lemma store_loop_adds:
  assumes "tok t" "writable t" "event_rows_ok P (tview t)" "valid_pd pd" "distinct (map fst ms)"
    and "slash_free [kind, ns, name, uid]" "uid \<noteq> []" "\<forall>v. codec_ok (event_codec P) v"
  shows "\<exists>t'. store_loop (store_minute B P pd loc kind ns name uid reason sev) ms t = (Ok (), t') \<and> tok t' \<and> writable t'
    \<and> event_rows_ok P (tview t')
    \<and> (\<forall>key m r. stored_count B P t' key m r =
        (case map_of ms m of
           Some c \<Rightarrow> if key = minute_key pd kind ns name uid m \<and> r = reason @ '':'' @ sev
                    then wrap_int32 (stored_count B P t key m r + wrap_int32 c) else stored_count B P t key m r
         | None \<Rightarrow> stored_count B P t key m r))"
  using assms(1-3,5)
proof (induction ms arbitrary: t)
  case (Cons a ms)
  obtain m c where a: "a = (m, c)" by (cases a)
  obtain t1 where t1: "store_minute B P pd loc kind ns name uid reason sev m c t = (None, t1)" "tok t1" "writable t1"
    "event_rows_ok P (tview t1)"
    and st1: "\<forall>key' m' r'. stored_count B P t1 key' m' r' =
      (if key' = minute_key pd kind ns name uid m \<and> m' = m \<and> r' = reason @ '':'' @ sev
       then wrap_int32 (stored_count B P t key' m' r' + wrap_int32 c) else stored_count B P t key' m' r')"
    using store_minute_adds[OF Cons.prems(1-3) assms(4,6-8)] .
  have dist: "distinct (map fst ms)" using Cons.prems(4) by simp
  have fresh: "map_of ms m = None" using Cons.prems(4) a by (simp add: map_of_eq_None_iff)
  obtain t' where t': "store_loop (store_minute B P pd loc kind ns name uid reason sev) ms t1 = (Ok (), t')" "tok t'"
    "writable t'" "event_rows_ok P (tview t')"
    and st': "\<forall>key m r. stored_count B P t' key m r =
        (case map_of ms m of
           Some c \<Rightarrow> if key = minute_key pd kind ns name uid m \<and> r = reason @ '':'' @ sev
                    then wrap_int32 (stored_count B P t1 key m r + wrap_int32 c) else stored_count B P t1 key m r
         | None \<Rightarrow> stored_count B P t1 key m r)"
    using Cons.IH[OF t1(2-4) dist] by (elim exE conjE)
  have "stored_count B P t' key m' r =
        (case map_of (a # ms) m' of
           Some c \<Rightarrow> if key = minute_key pd kind ns name uid m' \<and> r = reason @ '':'' @ sev
                    then wrap_int32 (stored_count B P t key m' r + wrap_int32 c) else stored_count B P t key m' r
         | None \<Rightarrow> stored_count B P t key m' r)" for key m' r
  proof (cases "m' = m")
    case True
    then show ?thesis
      unfolding st'[rule_format, of key m' r] st1[rule_format, of key m' r] using fresh a by simp
  next
    case False
    then have eq: "stored_count B P t1 k m' q = stored_count B P t k m' q" for k q
      unfolding st1[rule_format, of k m' q] by simp
    show ?thesis unfolding st'[rule_format, of key m' r] eq using False a by simp
  qed
  then show ?case
    unfolding a store_loop.simps t1(1) option.case prod.case using t' by (intro exI[of _ t'] conjI allI) simp_all
qed simp

end

section \<open>Properties\<close>



text \<open>
  Events of an empty store are lost without an error. As long as no table holds a key, an
  event with a count to add makes \<open>updateEventCountTable\<close> report success and write nothing: the
  error it means to return wraps a nil error.
\<close>

lemma first_events_dropped_silently:
  assumes "badger_store B dview dok tview tok writable ahead iopts" "tok t" "tables_parse (tview t)"
    and "all_partitions (tview t) = {}"
    and "getPreviousEventInfo B P X pd t (wr_Timestamp rec) (wr_Kind rec) (km_Namespace md) (km_Name md) = Ok prev"
    and "ExtractEventInfo X (wr_Payload rec) = Ok info"
  shows "updateEventCountTable B P X plat pd loc now t rec md io = Some (Ok (), t)"
proof -
  obtain ps where ps: "collect_partitions (GetTables B) t [] = Ok ps" "spans ps (all_partitions (tview t))"
    using badger_store.collect_partitions_spans[OF assms(1-3)] by blast
  then have "GetMinAndMaxPartitionWithTxn B t = Ok (False, [], [])"
    using assms(4) by (simp add: GetMinAndMaxPartitionWithTxn_def spans_def)
  then show ?thesis
    unfolding updateEventCountTable_def assms(5,6) by (cases "computeEventsDiff plat prev info") simp
qed

definition sample_event :: KubeWatchResult where
  "sample_event = \<lparr>wr_Timestamp = sample_ts, wr_Kind = ''Event'', wr_WatchType = KubeWatchResult_ADD, wr_Payload = ''xyz''\<rparr>"

definition sample_md :: "string \<Rightarrow> KubeMetadata" where
  "sample_md version = \<lparr>km_Name = ''n'', km_Namespace = ''ns'', km_Uid = ''u'', km_SelfLink = [],
     km_ResourceVersion = version, km_CreationTimestamp = ''c'', km_OwnerReferences = []\<rparr>"

lemma sample_event_info:
  "ExtractEventInfo sample_ext p = Ok \<lparr>ei_Reason = ''Failed'', ei_Type = ''Warning'',
     ei_FirstTimestamp = Time 1546398000000000000 UTC,
     ei_LastTimestamp = Time (1546398000000000000 + int (length p) * 60000000000) UTC, ei_Count = 1\<rparr>"
  by (simp add: ExtractEventInfo_def sample_ext_def parse_or_zero_def)

lemma first_events_dropped_silently_witness:
  "updateEventCountTable mock_ops sample_pb sample_ext (\<lambda>_. 0) Hour UTC zero_time (mock_NewTxn mock_Open False)
     sample_event (sample_md ''1'') no_object = Some (Ok (), mock_NewTxn mock_Open False)"
proof -
  have "getPreviousEventInfo mock_ops sample_pb sample_ext Hour (mock_NewTxn mock_Open False) (wr_Timestamp sample_event)
      (wr_Kind sample_event) (km_Namespace (sample_md ''1'')) (km_Name (sample_md ''1'')) = Ok None"
    using empty_last[of "''Event''" "''ns''" "''n''"]
    by (simp add: getPreviousEventInfo_def sample_event_def sample_md_def slash_free_def)
  then show ?thesis
    using first_events_dropped_silently[OF mock.badger_store_axioms empty_txn(1) _ _ _ sample_event_info] empty_tables
    unfolding empty_txn(3) by blast
qed



end
