(* ===== verification/RowWrites.thy ===== *)
theory RowWrites
  imports EventStore Pipeline
begin

text \<open>
  What the runner does to the store, as a relation between views: a record changes the store by a
  sequence of writes of single rows, each below the prefix of one of the four tables, with a key that
  the table accepts and a value that its codec produced. Invariants of the store and claims on the
  keys that are in it need only be checked for one such write (\<open>process_all_writes\<close>).
\<close>

section \<open>Writes of rows\<close>

definition row_of :: "'k key_ops \<Rightarrow> 'v codec \<Rightarrow> string \<Rightarrow> string \<Rightarrow> bool" where
  "row_of K C key b \<longleftrightarrow> prefix (table_prefix K) key \<and> (\<exists>k. k_Parse K key = Ok k) \<and> (\<exists>v. c_Marshal C v = Ok b)"

text \<open>A write of a row; \<open>W\<close> bounds the keys of the summaries and of the versions that are written.\<close>

definition row_write :: "(string \<Rightarrow> bool) \<Rightarrow> pb_lib \<Rightarrow> (string \<rightharpoonup> string) \<Rightarrow> (string \<rightharpoonup> string) \<Rightarrow> bool" where
  "row_write W P m m' \<longleftrightarrow> (\<exists>key b. m' = m(key \<mapsto> b)
     \<and> (prefix (table_prefix ressum_key_ops) key \<or> prefix (table_prefix watch_key_ops) key \<longrightarrow> W key)
     \<and> (row_of watch_key_ops (watch_codec P) key b \<or> row_of ressum_key_ops (ressum_codec P) key b
      \<or> row_of event_key_ops (event_codec P) key b \<or> row_of activity_key_ops (activity_codec P) key b))"

text \<open>No key is below the prefixes of two tables.\<close>

lemma table_prefixes:
  "table_prefix watch_key_ops = ''/watch/''" "table_prefix ressum_key_ops = ''/ressum/''"
  "table_prefix event_key_ops = ''/eventcount/''" "table_prefix activity_key_ops = ''/watchactivity/''"
  by (simp_all add: table_prefix_def OpenTable_def key_ops_defs table_names)

lemma prefixes_apart:
  "prefix (table_prefix watch_key_ops) s \<Longrightarrow> \<not> prefix (table_prefix ressum_key_ops) s
     \<and> \<not> prefix (table_prefix event_key_ops) s \<and> \<not> prefix (table_prefix activity_key_ops) s"
  "prefix (table_prefix ressum_key_ops) s \<Longrightarrow> \<not> prefix (table_prefix watch_key_ops) s
     \<and> \<not> prefix (table_prefix event_key_ops) s \<and> \<not> prefix (table_prefix activity_key_ops) s"
  "prefix (table_prefix event_key_ops) s \<Longrightarrow> \<not> prefix (table_prefix watch_key_ops) s
     \<and> \<not> prefix (table_prefix ressum_key_ops) s \<and> \<not> prefix (table_prefix activity_key_ops) s"
  "prefix (table_prefix activity_key_ops) s \<Longrightarrow> \<not> prefix (table_prefix watch_key_ops) s
     \<and> \<not> prefix (table_prefix ressum_key_ops) s \<and> \<not> prefix (table_prefix event_key_ops) s"
  unfolding table_prefixes by (auto elim!: prefixE)

lemma row_of_write:
  "row_of watch_key_ops (watch_codec P) key b \<Longrightarrow> W key \<Longrightarrow> row_write W P m (m(key \<mapsto> b))"
  "row_of ressum_key_ops (ressum_codec P) key b \<Longrightarrow> W key \<Longrightarrow> row_write W P m (m(key \<mapsto> b))"
  "row_of event_key_ops (event_codec P) key b \<Longrightarrow> row_write W P m (m(key \<mapsto> b))"
  "row_of activity_key_ops (activity_codec P) key b \<Longrightarrow> row_write W P m (m(key \<mapsto> b))"
  using prefixes_apart[of key] unfolding row_write_def row_of_def by blast+

lemma row_writes_mono:
  assumes "(row_write W P)\<^sup>*\<^sup>* m m'" "\<And>s. W s \<Longrightarrow> W' s"
  shows "(row_write W' P)\<^sup>*\<^sup>* m m'"
proof -
  have "row_write W P \<le> row_write W' P" using assms(2) unfolding row_write_def le_fun_def le_bool_def by blast
  from rtranclp_mono[OF this] show ?thesis using assms(1) by blast
qed

text \<open>A property that one write keeps holds after all.\<close>

lemma row_writes_keep:
  assumes "(row_write W P)\<^sup>*\<^sup>* m m'" "I m" "\<And>m m'. row_write W P m m' \<Longrightarrow> I m \<Longrightarrow> I m'"
  shows "I m'"
  using assms(1,2) by (induction rule: rtranclp_induct) (auto intro: assms(3))

text \<open>No key gets lost.\<close>

lemma row_writes_dom: "(row_write W P)\<^sup>*\<^sup>* m m' \<Longrightarrow> dom m \<subseteq> dom m'"
  by (erule row_writes_keep[where I = "\<lambda>m'. dom m \<subseteq> dom m'"]) (auto simp: row_write_def)

text \<open>New keys of summaries are those that were written.\<close>

lemma row_writes_keys:
  assumes "(row_write W P)\<^sup>*\<^sup>* m m'" "s \<in> dom m'" "prefix (table_prefix ressum_key_ops) s"
  shows "s \<in> dom m \<or> W s"
proof -
  have "\<forall>s \<in> dom m'. prefix (table_prefix ressum_key_ops) s \<longrightarrow> s \<in> dom m \<or> W s"
    by (rule row_writes_keep[OF assms(1)]) (auto simp: row_write_def split: if_splits)
  then show ?thesis using assms(2,3) by blast
qed

text \<open>Rows of these two tables under other keys stay as they are.\<close>

lemma row_writes_same:
  assumes "(row_write W P)\<^sup>*\<^sup>* m m'" "\<not> W s" "prefix (table_prefix ressum_key_ops) s \<or> prefix (table_prefix watch_key_ops) s"
  shows "m' s = m s"
  by (rule row_writes_keep[OF assms(1), where I = "\<lambda>m'. m' s = m s"]) (use assms(2,3) in \<open>auto simp: row_write_def\<close>)

section \<open>The updates write rows\<close>

text \<open>The key of the summary that a record is written under, from its metadata.\<close>

definition summary_key :: "pb_lib \<Rightarrow> int \<Rightarrow> KubeWatchResult \<Rightarrow> KubeMetadata \<Rightarrow> ResourceSummaryKey res" where
  "summary_key P pd rec md = bind_res (ptypes_Timestamp P (wr_Timestamp rec)) (\<lambda>ts.
     NewResourceSummaryKey pd ts (wr_Kind rec) (km_Namespace md) (km_Name md) (km_Uid md))"

definition writes_key :: "pb_lib \<Rightarrow> int \<Rightarrow> KubeWatchResult \<Rightarrow> KubeMetadata \<Rightarrow> string \<Rightarrow> bool" where
  "writes_key P pd rec md s \<longleftrightarrow> wr_Kind rec \<noteq> EventKind
     \<and> (\<exists>k. summary_key P pd rec md = Ok k \<and> s = ResourceSummaryKey_String k)"

definition writes_version :: "pb_lib \<Rightarrow> int \<Rightarrow> KubeWatchResult \<Rightarrow> KubeMetadata \<Rightarrow> string \<Rightarrow> bool" where
  "writes_version P pd rec md s \<longleftrightarrow>
     (\<exists>k. toWatchTableKey P pd (wr_Timestamp rec) (wr_Kind rec) (km_Namespace md) (km_Name md) = Ok k \<and> s = WatchTableKey_String k)"

text \<open>The keys of the summaries that a list of records reports.\<close>

definition metadata_of :: "'j ext_lib \<Rightarrow> KubeWatchResult \<Rightarrow> KubeMetadata" where
  "metadata_of X rec = fst (ExtractMetadata X (wr_Payload rec))"

definition reports :: "pb_lib \<Rightarrow> 'j ext_lib \<Rightarrow> int \<Rightarrow> KubeWatchResult list \<Rightarrow> ResourceSummaryKey set" where
  "reports P X pd recs = {k. \<exists>r \<in> set recs. wr_Kind r \<noteq> EventKind \<and> summary_key P pd r (metadata_of X r) = Ok k}"

text \<open>The keys of versions are those of the watch table.\<close>

lemma watch_string_prefix: "prefix (table_prefix watch_key_ops) (WatchTableKey_String k)"
  by (simp add: table_prefixes WatchTableKey_String_def slashed_simps table_names)

lemma version_not_summary: "writes_version P pd rec md s \<Longrightarrow> \<not> prefix (table_prefix ressum_key_ops) s"
  unfolding writes_version_def using watch_string_prefix prefixes_apart(1) by blast

context badger_store
begin

definition evolves :: "(string \<Rightarrow> bool) \<Rightarrow> pb_lib \<Rightarrow> 'txn \<Rightarrow> 'txn \<Rightarrow> bool" where
  "evolves W P t t' \<longleftrightarrow> tok t' \<and> writable t' \<and> (row_write W P)\<^sup>*\<^sup>* (tview t) (tview t')"

lemma evolves_refl: "tok t \<Longrightarrow> writable t \<Longrightarrow> evolves W P t t"
  by (simp add: evolves_def)

text \<open>What a write of a table leaves: the view as it was, or with one row of the table.\<close>

lemma tbl_Set_view:
  assumes "tok t" "writable t" "table_key K wfk" "tbl_Set B K C t key v = (r, t')"
  shows "tok t' \<and> writable t' \<and> (tview t' = tview t \<or> (\<exists>b. row_of K C key b \<and> tview t' = (tview t)(key \<mapsto> b)))
    \<and> (r = Ok () \<longrightarrow> key \<in> dom (tview t'))"
proof (cases "k_ValidateKey K key")
  case (Ok u)
  then obtain k where k: "k_Parse K key = Ok k" using table_key.validate_ok_iff[OF assms(3), of key] by auto
  then have pre: "prefix (table_prefix K) key"
    using table_key.parse_table_prefix[OF assms(3)] by (simp add: table_prefix_slashed)
  then have ne: "key \<noteq> []" by (auto simp: table_prefix_def)
  show ?thesis
  proof (cases "c_Marshal C v")
    case (Ok b)
    then show ?thesis
      using tbl_Set_ok[OF assms(1,2) _ ne Ok, of K] \<open>k_ValidateKey K key = Ok u\<close> assms(4) pre k by (auto simp: row_of_def)
  qed (use Ok assms in \<open>auto simp: tbl_Set_def\<close>)
qed (use assms in \<open>auto simp: tbl_Set_def\<close>)

lemma Set_evolves:
  assumes "tok t" "writable t"
  shows "KubeWatchResultTable_Set B P t key w = (r, t') \<Longrightarrow> W key \<Longrightarrow> evolves W P t t'"
    "ResourceSummaryTable_Set B P t key s = (r, t') \<Longrightarrow> W key \<Longrightarrow> evolves W P t t'"
    "ResourceEventCountsTable_Set B P t key e = (r, t') \<Longrightarrow> evolves W P t t'"
    "WatchActivityTable_Set B P t key a = (r, t') \<Longrightarrow> evolves W P t t'"
proof -
  have one: "evolves W P t t'" if "tok t' \<and> writable t' \<and> (tview t' = tview t \<or> (\<exists>b. Q b \<and> tview t' = (tview t)(key \<mapsto> b))) \<and> R"
    "\<And>b. Q b \<Longrightarrow> row_write W P (tview t) ((tview t)(key \<mapsto> b))" for Q R
    using that unfolding evolves_def by (metis r_into_rtranclp rtranclp.rtrancl_refl)
  show "KubeWatchResultTable_Set B P t key w = (r, t') \<Longrightarrow> W key \<Longrightarrow> evolves W P t t'"
    unfolding KubeWatchResultTable_Set_def
    by (rule one, erule tbl_Set_view[OF assms wtk.table_key_axioms]) (rule row_of_write)
  show "ResourceSummaryTable_Set B P t key s = (r, t') \<Longrightarrow> W key \<Longrightarrow> evolves W P t t'"
    unfolding ResourceSummaryTable_Set_def
    by (rule one, erule tbl_Set_view[OF assms rsk.table_key_axioms]) (rule row_of_write)
  show "ResourceEventCountsTable_Set B P t key e = (r, t') \<Longrightarrow> evolves W P t t'"
    unfolding ResourceEventCountsTable_Set_def
    by (rule one, erule tbl_Set_view[OF assms eck.table_key_axioms]) (rule row_of_write)
  show "WatchActivityTable_Set B P t key a = (r, t') \<Longrightarrow> evolves W P t t'"
    unfolding WatchActivityTable_Set_def
    by (rule one, erule tbl_Set_view[OF assms wak.table_key_axioms]) (rule row_of_write)
qed

lemma watch_update_evolves:
  assumes "tok t" "writable t" "updateKubeWatchTable B P X pd t rec md keepMinor = (r, t')"
  shows "evolves (writes_version P pd rec md) P t t'"
proof -
  have W: "writes_version P pd rec md (WatchTableKey_String k)"
    if "toWatchTableKey P pd (wr_Timestamp rec) (wr_Kind rec) (km_Namespace md) (km_Name md) = Ok k" for k
    using that by (auto simp: writes_version_def)
  show ?thesis
    using assms(3) Set_evolves(1)[OF assms(1,2), where W = "writes_version P pd rec md"] W evolves_refl[OF assms(1,2)]
    by (fastforce simp: updateKubeWatchTable_def split: res.splits prod.splits if_splits)
qed

lemma activity_update_evolves:
  assumes "tok t" "writable t" "updateWatchActivityTable B P X pd t rec md = (r, t')"
  shows "evolves W P t t'"
  using assms(3) Set_evolves(4)[OF assms(1,2)] evolves_refl[OF assms(1,2)]
  by (auto simp: updateWatchActivityTable_def putWatchActivity_def split: res.splits prod.splits if_splits)

text \<open>The update of the summary: what it writes, and that it has written when it succeeds.\<close>

lemma summary_update_evolves:
  assumes "tok t" "writable t" "updateResourceSummaryTable B P X pd t rec md = (r, t')"
  shows "evolves (writes_key P pd rec md) P t t'
    \<and> (r = Ok () \<and> wr_Kind rec \<noteq> EventKind \<longrightarrow>
        (\<exists>k. summary_key P pd rec md = Ok k \<and> ResourceSummaryKey_String k \<in> dom (tview t')))"
proof (cases "wr_Kind rec = EventKind")
  case True
  then show ?thesis using assms evolves_refl by (auto simp: updateResourceSummaryTable_def)
next
  case False
  show ?thesis
  proof (cases "summary_key P pd rec md")
    case (Ok k)
    then obtain ts where ts: "ptypes_Timestamp P (wr_Timestamp rec) = Ok ts"
      "NewResourceSummaryKey pd ts (wr_Kind rec) (km_Namespace md) (km_Name md) (km_Uid md) = Ok k"
      by (auto simp: summary_key_def bind_res_Ok_iff)
    have W: "writes_key P pd rec md (ResourceSummaryKey_String k)" using False Ok by (simp add: writes_key_def)
    show ?thesis
    proof (cases "\<exists>val rels. getResourceSummaryValue B P X t (ResourceSummaryKey_String k) md rec = Ok val
        \<and> getRelationships pd ts (km_Namespace md) (km_OwnerReferences md) = Ok rels")
      case True
      then obtain val rels where v: "getResourceSummaryValue B P X t (ResourceSummaryKey_String k) md rec = Ok val"
        "getRelationships pd ts (km_Namespace md) (km_OwnerReferences md) = Ok rels" by blast
      obtain q u where q: "ResourceSummaryTable_Set B P t (ResourceSummaryKey_String k) (val\<lparr>rsum_Relationships := rels\<rparr>) = (q, u)"
        by fastforce
      have view: "q = Ok () \<longrightarrow> ResourceSummaryKey_String k \<in> dom (tview u)"
        using tbl_Set_view[OF assms(1,2) rsk.table_key_axioms q[unfolded ResourceSummaryTable_Set_def]] by blast
      have "t' = u" "r = Ok () \<longrightarrow> q = Ok ()"
        using assms(3) False ts v q by (auto simp: updateResourceSummaryTable_def Let_def split: res.splits)
      then show ?thesis using Set_evolves(2)[OF assms(1,2) q, where W = "writes_key P pd rec md", OF W] view Ok by auto
    next
      case no: False
      then have "t' = t \<and> r \<noteq> Ok ()"
        using assms(3) False ts
        by (cases "getResourceSummaryValue B P X t (ResourceSummaryKey_String k) md rec";
            cases "getRelationships pd ts (km_Namespace md) (km_OwnerReferences md)")
          (auto simp: updateResourceSummaryTable_def Let_def)
      then show ?thesis using evolves_refl[OF assms(1,2)] by auto
    qed
  qed (use assms False evolves_refl[OF assms(1,2)] in
      \<open>cases "ptypes_Timestamp P (wr_Timestamp rec)"; auto simp: updateResourceSummaryTable_def summary_key_def\<close>)+
qed

lemma store_minute_evolves:
  assumes "tok t" "writable t" "store_minute B P pd loc kind ns name uid reason sev m n t = (r, t')"
  shows "evolves W P t t'"
  using assms(3) Set_evolves(3)[OF assms(1,2)] evolves_refl[OF assms(1,2)]
  by (auto simp: store_minute_def Let_def split: res.splits prod.splits option.splits)

lemma store_loop_evolves:
  "tok t \<Longrightarrow> writable t \<Longrightarrow>
    store_loop (store_minute B P pd loc kind ns name uid reason sev) mc t = (r, t') \<Longrightarrow> evolves W P t t'"
proof (induction mc arbitrary: t)
  case (Cons x mc)
  obtain m n where x: "x = (m, n)" by fastforce
  obtain q t1 where t1: "store_minute B P pd loc kind ns name uid reason sev m n t = (q, t1)" by fastforce
  have k: "evolves W P t t1" by (rule store_minute_evolves[OF Cons.prems(1,2) t1])
  have "t' = t1 \<or> evolves W P t1 t'"
    using Cons.prems(3) Cons.IH[of t1] t1 x k by (cases q) (auto simp: evolves_def)
  then show ?case using k unfolding evolves_def by (meson rtranclp_trans)
qed (simp add: evolves_refl)

lemma event_update_evolves:
  assumes "tok t" "writable t" "updateEventCountTable B P X plat pd loc now t rec md io = Some (r, t')"
  shows "evolves W P t t'"
proof -
  have store: "evolves W P t t2" if "storeMinutes B P pd loc t mc kind ns name uid reason sev = (q, t2)"
    for mc kind ns name uid reason sev q t2
    using that store_loop_evolves[OF assms(1,2)] evolves_refl[OF assms(1,2)]
    by (auto simp: storeMinutes_def split: res.splits)
  have by_uid: "evolves W P t t2"
    if "map_option (\<lambda>r. case r of Err e \<Rightarrow> (Err (f e), t) | Panic m \<Rightarrow> (Panic m, t)
      | Ok u \<Rightarrow> storeMinutes B P pd loc t mc kind ns name u reason sev) q = Some (r2, t2)"
    for f mc kind ns name reason sev q r2 t2
    using that store evolves_refl[OF assms(1,2)] by (cases q; cases "the q") auto
  show ?thesis
    using assms(3) store by_uid evolves_refl[OF assms(1,2)]
    by (auto simp: updateEventCountTable_def Let_def simp del: map_option_eq_Some
        split: if_splits res.splits prod.splits)
qed

section \<open>The runner writes rows\<close>

text \<open>One transaction of the runner: the view evolves, failures stay, and without a new one it was committed.\<close>

lemma run_update_evolves:
  assumes "dok d" "run_update B name f (d, fs) = Ok (d', fs')"
    and f: "\<And>t r t'. tok t \<Longrightarrow> writable t \<Longrightarrow> t = db_NewTxn B d False \<Longrightarrow> f t = (r, t') \<Longrightarrow> evolves W P t t'"
  shows "dok d' \<and> (row_write W P)\<^sup>*\<^sup>* (dview d) (dview d') \<and> set fs \<subseteq> set fs' \<and> set fs' \<subseteq> insert name (set fs)
    \<and> (name \<notin> set fs' \<longrightarrow> (\<exists>t t'. tok t \<and> writable t \<and> tview t = dview d \<and> f t = (Ok (), t') \<and> dview d' = tview t'))"
proof -
  let ?t = "db_NewTxn B d False"
  have t: "tok ?t" "writable ?t" "tview ?t = dview d" using newtxn[OF assms(1), of False] by auto
  obtain r t' where r: "f ?t = (r, t')" by (cases "f ?t")
  have k: "evolves W P ?t t'" by (rule f[OF t(1,2) refl r])
  obtain err e where e: "db_EndTxn B d t' (is_ok r) = (err, e)" by (cases "db_EndTxn B d t' (is_ok r)")
  have e': "e = d'" and fs': "fs' = processingFailed name (case r of Ok u \<Rightarrow> (case err of None \<Rightarrow> Ok u | Some x \<Rightarrow> Err x) | q \<Rightarrow> q) fs"
    using assms(2) r e by (cases r; cases err; auto simp: run_update_def db_Update_def)+
  show ?thesis
  proof (cases "r = Ok () \<and> err = None")
    case True
    then have "dok e" "dview e = tview t'" using commit[OF assms(1), of t' err e] e k by (auto simp: evolves_def)
    then show ?thesis using True k r t e' fs' by (auto simp: evolves_def processingFailed_def)
  next
    case False
    have "dok e \<and> dview e \<in> {dview d, tview t'}"
      using commit[OF assms(1), of t' err e] abort[OF assms(1), of t' err e] e k False
      by (cases "is_ok r") (auto simp: evolves_def split: if_splits)
    moreover have "(row_write W P)\<^sup>*\<^sup>* (dview d) v" if "v \<in> {dview d, tview t'}" for v
      using that k t(3) by (auto simp: evolves_def)
    moreover have "set fs' = insert name (set fs)"
      using fs' False assms(2) r e by (cases r; cases err) (auto simp: processingFailed_def run_update_def db_Update_def)
    ultimately show ?thesis using e' by auto
  qed
qed

text \<open>The updates of a record one after the other: counts and activities, the version, the summary.\<close>

lemma process_record_stages:
  assumes "dok d" "process_record B P X plat pd loc now keep d rec = Some (Ok (d', fs))"
    and md: "ExtractMetadata X (wr_Payload rec) = (md, e1)"
  obtains d2 f2 d3 f3 where "dok d2" "(row_write (\<lambda>_. False) P)\<^sup>*\<^sup>* (dview d) (dview d2)" "''updateKubeWatchTable'' \<notin> set f2"
    "run_update B ''updateKubeWatchTable'' (\<lambda>txn. updateKubeWatchTable B P X pd txn rec md keep) (d2, f2) = Ok (d3, f3)"
    "dok d3" "(row_write (writes_version P pd rec md) P)\<^sup>*\<^sup>* (dview d2) (dview d3)"
    "''updateResourceSummaryTable'' \<notin> set f3" "set f3 \<subseteq> set fs" "set fs \<subseteq> insert ''updateResourceSummaryTable'' (set f3)"
    "run_update B ''updateResourceSummaryTable'' (\<lambda>txn. updateResourceSummaryTable B P X pd txn rec md) (d3, f3) = Ok (d', fs)"
    "dok d'" "(row_write (writes_key P pd rec md) P)\<^sup>*\<^sup>* (dview d3) (dview d')"
proof -
  let ?W = "\<lambda>_. False"
  obtain io e2 where io: "ExtractInvolvedObject X (wr_Payload rec) = (io, e2)" by fastforce
  define f0 where "f0 = (if e1 \<noteq> None then [''cannot extract resource metadata''] else [])
                  @ (if e2 \<noteq> None then [''cannot extract involved object''] else [])"
  obtain p d1 f1 d2 f2 d3 f3 where
    p: "updateEventCountTable B P X plat pd loc now (db_NewTxn B d False) rec md io = Some p"
    and s: "run_update B ''updateEventCountTable'' (\<lambda>_. p) (d, f0) = Ok (d1, f1)"
      "run_update B ''updateWatchActivityTable'' (\<lambda>txn. updateWatchActivityTable B P X pd txn rec md) (d1, f1) = Ok (d2, f2)"
      "run_update B ''updateKubeWatchTable'' (\<lambda>txn. updateKubeWatchTable B P X pd txn rec md keep) (d2, f2) = Ok (d3, f3)"
      "run_update B ''updateResourceSummaryTable'' (\<lambda>txn. updateResourceSummaryTable B P X pd txn rec md) (d3, f3) = Ok (d', fs)"
    using assms(2) unfolding process_record_def md io Let_def prod.case f0_def[symmetric]
    by (auto simp: bind_res_Ok_iff)
  have 1: "dok d1 \<and> (row_write ?W P)\<^sup>*\<^sup>* (dview d) (dview d1) \<and> set f1 \<subseteq> insert ''updateEventCountTable'' (set f0)"
    using run_update_evolves[OF assms(1) s(1), of ?W P] event_update_evolves[of _ P X plat pd loc now rec md io] p
    by (cases p) auto
  then have 2: "dok d2 \<and> (row_write ?W P)\<^sup>*\<^sup>* (dview d1) (dview d2) \<and> set f2 \<subseteq> insert ''updateWatchActivityTable'' (set f1)"
    using run_update_evolves[OF _ s(2), of ?W P] activity_update_evolves by blast
  then have 3: "dok d3 \<and> (row_write (writes_version P pd rec md) P)\<^sup>*\<^sup>* (dview d2) (dview d3) \<and> set f3 \<subseteq> insert ''updateKubeWatchTable'' (set f2)"
    using run_update_evolves[OF _ s(3), of "writes_version P pd rec md" P] watch_update_evolves by blast
  then have 4: "dok d' \<and> (row_write (writes_key P pd rec md) P)\<^sup>*\<^sup>* (dview d3) (dview d') \<and> set f3 \<subseteq> set fs
    \<and> set fs \<subseteq> insert ''updateResourceSummaryTable'' (set f3)"
    using run_update_evolves[OF _ s(4), of "writes_key P pd rec md" P] summary_update_evolves by blast
  have "''updateResourceSummaryTable'' \<notin> set f0" "''updateKubeWatchTable'' \<notin> set f0" by (simp_all add: f0_def)
  then have "''updateResourceSummaryTable'' \<notin> set f3" "''updateKubeWatchTable'' \<notin> set f2" using 1 2 3 by auto
  moreover have "(row_write ?W P)\<^sup>*\<^sup>* (dview d) (dview d2)" using 1 2 by (meson rtranclp_trans)
  ultimately show ?thesis using that[of d2 f2 d3 f3] 2 3 4 s(3,4) by blast
qed

lemma process_record_evolves:
  assumes "dok d" "process_record B P X plat pd loc now keep d rec = Some (Ok (d', fs))"
    and md: "ExtractMetadata X (wr_Payload rec) = (md, e1)"
  shows "dok d' \<and> (row_write (\<lambda>s. prefix (table_prefix ressum_key_ops) s \<longrightarrow> writes_key P pd rec md s) P)\<^sup>*\<^sup>* (dview d) (dview d')
    \<and> (''updateResourceSummaryTable'' \<notin> set fs \<and> wr_Kind rec \<noteq> EventKind \<longrightarrow>
        (\<exists>k. summary_key P pd rec md = Ok k \<and> ResourceSummaryKey_String k \<in> dom (dview d')))"
proof (rule process_record_stages[OF assms])
  fix d2 f2 d3 f3
  let ?W = "\<lambda>s. prefix (table_prefix ressum_key_ops) s \<longrightarrow> writes_key P pd rec md s"
  assume s: "dok d2" "(row_write (\<lambda>_. False) P)\<^sup>*\<^sup>* (dview d) (dview d2)" "dok d3"
    "(row_write (writes_version P pd rec md) P)\<^sup>*\<^sup>* (dview d2) (dview d3)" "dok d'"
    "(row_write (writes_key P pd rec md) P)\<^sup>*\<^sup>* (dview d3) (dview d')"
    and sum: "run_update B ''updateResourceSummaryTable'' (\<lambda>txn. updateResourceSummaryTable B P X pd txn rec md) (d3, f3) = Ok (d', fs)"
  have "(row_write ?W P)\<^sup>*\<^sup>* (dview d) (dview d2)" by (rule row_writes_mono[OF s(2)]) simp
  moreover have "(row_write ?W P)\<^sup>*\<^sup>* (dview d2) (dview d3)" by (rule row_writes_mono[OF s(4)]) (simp add: version_not_summary)
  moreover have "(row_write ?W P)\<^sup>*\<^sup>* (dview d3) (dview d')" by (rule row_writes_mono[OF s(6)]) simp
  ultimately have "(row_write ?W P)\<^sup>*\<^sup>* (dview d) (dview d')" by (meson rtranclp_trans)
  moreover have "\<exists>k. summary_key P pd rec md = Ok k \<and> ResourceSummaryKey_String k \<in> dom (dview d')"
    if no: "''updateResourceSummaryTable'' \<notin> set fs" "wr_Kind rec \<noteq> EventKind"
  proof -
    obtain t t' where t: "tok t" "writable t" "updateResourceSummaryTable B P X pd t rec md = (Ok (), t')" "dview d' = tview t'"
      using run_update_evolves[OF s(3) sum, of "writes_key P pd rec md" P] summary_update_evolves no(1) by blast
    then show ?thesis using summary_update_evolves[OF t(1-3)] no(2) by auto
  qed
  ultimately show ?thesis using s(5) by blast
qed

text \<open>When commits work and the update of the summary does, its failure is not reported.\<close>

lemma summary_not_failed:
  assumes "dok d" "process_record B P X plat pd loc now keep d rec = Some (Ok (d', fs))"
    and md: "ExtractMetadata X (wr_Payload rec) = (md, e1)"
    and key: "prefix (table_prefix ressum_key_ops) key" "key \<notin> dom (dview d)"
    and works: "\<And>t. tok t \<Longrightarrow> writable t \<Longrightarrow> key \<notin> dom (tview t) \<Longrightarrow> \<exists>t'. updateResourceSummaryTable B P X pd t rec md = (Ok (), t')"
    and commits: "\<And>d t. fst (db_EndTxn B d t True) = None"
  shows "''updateResourceSummaryTable'' \<notin> set fs"
proof -
  obtain d2 d3 f3 where s: "(row_write (\<lambda>_. False) P)\<^sup>*\<^sup>* (dview d) (dview d2)" "dok d3"
    "(row_write (writes_version P pd rec md) P)\<^sup>*\<^sup>* (dview d2) (dview d3)" "''updateResourceSummaryTable'' \<notin> set f3"
    "run_update B ''updateResourceSummaryTable'' (\<lambda>txn. updateResourceSummaryTable B P X pd txn rec md) (d3, f3) = Ok (d', fs)"
    using process_record_stages[OF assms(1-3)] by metis
  have "key \<notin> dom (dview d2)" using row_writes_keys[OF s(1) _ key(1)] key(2) by blast
  then have "key \<notin> dom (dview d3)" using row_writes_keys[OF s(3) _ key(1)] version_not_summary key(1) by blast
  then obtain t' where "updateResourceSummaryTable B P X pd (db_NewTxn B d3 False) rec md = (Ok (), t')"
    using works[of "db_NewTxn B d3 False"] newtxn[OF s(2), of False] by auto
  moreover obtain e where "db_EndTxn B d3 t' True = (None, e)" using commits[of d3 t'] by (metis prod.collapse)
  ultimately have "fs = f3" using s(5) by (simp add: run_update_def db_Update_def processingFailed_def)
  then show ?thesis using s(4) by simp
qed

text \<open>A run of the runner over records, each at its time.\<close>

lemma process_all_evolves:
  "dok d \<Longrightarrow> process_all (turn (\<lambda>now. process_record B P X plat pd loc now keep)) d fs recs = Some (Ok (d', fs')) \<Longrightarrow>
    dok d' \<and> (row_write (\<lambda>s. prefix (table_prefix ressum_key_ops) s \<longrightarrow> s \<in> ResourceSummaryKey_String ` reports P X pd (map snd recs)) P)\<^sup>*\<^sup>* (dview d) (dview d')
    \<and> set fs \<subseteq> set fs' \<and> (''updateResourceSummaryTable'' \<notin> set fs' \<longrightarrow>
        (\<forall>r \<in> snd ` set recs. wr_Kind r \<noteq> EventKind \<longrightarrow> (\<exists>k. summary_key P pd r (metadata_of X r) = Ok k
           \<and> ResourceSummaryKey_String k \<in> dom (dview d'))))"
proof (induction recs arbitrary: d fs)
  case (Cons r recs)
  let ?W = "\<lambda>rs s. prefix (table_prefix ressum_key_ops) s \<longrightarrow> s \<in> ResourceSummaryKey_String ` reports P X pd rs"
  obtain d1 f1 where one: "process_record B P X plat pd loc (fst r) keep d (snd r) = Some (Ok (d1, f1))"
    and rest: "process_all (turn (\<lambda>now. process_record B P X plat pd loc now keep)) d1 (fs @ f1) recs = Some (Ok (d', fs'))"
    using Cons.prems(2) by (auto simp: process_all_Cons turn_def[where db = d] simp del: process_all.simps(2))
  have md: "ExtractMetadata X (wr_Payload (snd r)) = (metadata_of X (snd r), snd (ExtractMetadata X (wr_Payload (snd r))))"
    by (simp add: metadata_of_def)
  note pr = process_record_evolves[OF Cons.prems(1) one md]
  have ih: "dok d'" "(row_write (?W (map snd recs)) P)\<^sup>*\<^sup>* (dview d1) (dview d')" "set (fs @ f1) \<subseteq> set fs'"
    and all: "''updateResourceSummaryTable'' \<notin> set fs' \<Longrightarrow>
        \<forall>r \<in> snd ` set recs. wr_Kind r \<noteq> EventKind \<longrightarrow> (\<exists>k. summary_key P pd r (metadata_of X r) = Ok k
           \<and> ResourceSummaryKey_String k \<in> dom (dview d'))"
    using Cons.IH[OF _ rest] pr by blast+
  have "(row_write (?W (map snd (r # recs))) P)\<^sup>*\<^sup>* (dview d) (dview d1)"
    by (rule row_writes_mono[OF pr[THEN conjunct2, THEN conjunct1]]) (auto simp: reports_def writes_key_def)
  moreover have "(row_write (?W (map snd (r # recs))) P)\<^sup>*\<^sup>* (dview d1) (dview d')"
    by (rule row_writes_mono[OF ih(2)]) (auto simp: reports_def)
  ultimately have "(row_write (?W (map snd (r # recs))) P)\<^sup>*\<^sup>* (dview d) (dview d')" by (rule rtranclp_trans)
  moreover have "\<exists>k. summary_key P pd (snd r) (metadata_of X (snd r)) = Ok k \<and> ResourceSummaryKey_String k \<in> dom (dview d')"
    if "''updateResourceSummaryTable'' \<notin> set fs'" "wr_Kind (snd r) \<noteq> EventKind"
  proof -
    have "''updateResourceSummaryTable'' \<notin> set f1" using that(1) ih(3) by auto
    then show ?thesis using pr that(2) row_writes_dom[OF ih(2)] by blast
  qed
  ultimately show ?case using ih(1,3) all by auto
qed simp

end

end
