(* ===== verification/StoreTyping.thy ===== *)
theory StoreTyping
  imports StoreStats RowWrites
begin

text \<open>
  The type of the store: below the prefix of each of the four tables there are only keys that parse
  as keys of that table, with values that decode as its values. Every operation of the program keeps
  it: the four updates of a record, the runner's loop, the pipeline around it and the store manager.
  Readers may rely on it, whatever was reported by the cluster.
\<close>

section \<open>Typed stores\<close>

definition table_typed :: "'k key_ops \<Rightarrow> 'v codec \<Rightarrow> (string \<rightharpoonup> string) \<Rightarrow> bool" where
  "table_typed K C m \<longleftrightarrow> (\<forall>s b. m s = Some b \<longrightarrow> prefix (table_prefix K) s \<longrightarrow>
     (\<exists>k. k_Parse K s = Ok k) \<and> (\<exists>v. c_Unmarshal C b = Ok v))"

definition store_typed :: "pb_lib \<Rightarrow> (string \<rightharpoonup> string) \<Rightarrow> bool" where
  "store_typed P m \<longleftrightarrow> table_typed watch_key_ops (watch_codec P) m \<and> table_typed ressum_key_ops (ressum_codec P) m
     \<and> table_typed event_key_ops (event_codec P) m \<and> table_typed activity_key_ops (activity_codec P) m"

text \<open>What the codecs promise: what is written can be read.\<close>

definition codec_reads :: "'v codec \<Rightarrow> bool" where
  "codec_reads C \<longleftrightarrow> (\<forall>v b. c_Marshal C v = Ok b \<longrightarrow> (\<exists>w. c_Unmarshal C b = Ok w))"

definition pb_reads :: "pb_lib \<Rightarrow> bool" where
  "pb_reads P \<longleftrightarrow> codec_reads (watch_codec P) \<and> codec_reads (ressum_codec P)
     \<and> codec_reads (event_codec P) \<and> codec_reads (activity_codec P)"

lemma table_typed_upd:
  assumes "table_typed K C m" "k_Parse K key = Ok k" "c_Unmarshal C b = Ok v"
  shows "table_typed K C (m(key \<mapsto> b))"
  using assms by (auto simp: table_typed_def)

lemma table_typed_other:
  assumes "table_typed K C m" "\<not> prefix (table_prefix K) key"
  shows "table_typed K C (m(key \<mapsto> b))"
  using assms by (auto simp: table_typed_def)

lemma table_typed_row:
  "codec_reads C \<Longrightarrow> table_typed K C m \<Longrightarrow> k_Parse K key = Ok k \<Longrightarrow> c_Marshal C v = Ok b \<Longrightarrow> table_typed K C (m(key \<mapsto> b))"
  unfolding codec_reads_def by (meson table_typed_upd)

lemma table_typed_drop: "table_typed K C m \<Longrightarrow> table_typed K C (\<lambda>k. if Q k then None else m k)"
  by (auto simp: table_typed_def)

lemma store_typed_drop: "store_typed P m \<Longrightarrow> store_typed P (\<lambda>k. if Q k then None else m k)"
  by (simp add: store_typed_def table_typed_drop)

lemma store_typed_empty: "store_typed P Map.empty"
  by (simp add: store_typed_def table_typed_def)

section \<open>Every write of a row keeps the type\<close>

text \<open>A row with a key that parses and a value that was encoded.\<close>

lemma table_typed_write:
  assumes "table_typed K C m" "prefix (table_prefix K) key \<Longrightarrow> codec_reads C \<and> row_of K C key b"
  shows "table_typed K C (m(key \<mapsto> b))"
proof (cases "prefix (table_prefix K) key")
  case True
  then show ?thesis using assms table_typed_row[of C K m key _ _ b] unfolding row_of_def by blast
qed (use assms(1) table_typed_other in blast)

lemma row_write_typed:
  assumes "pb_reads P" "row_write W P m m'" "store_typed P m"
  shows "store_typed P m'"
proof -
  obtain key b where m': "m' = m(key \<mapsto> b)"
    and row: "row_of watch_key_ops (watch_codec P) key b \<or> row_of ressum_key_ops (ressum_codec P) key b
      \<or> row_of event_key_ops (event_codec P) key b \<or> row_of activity_key_ops (activity_codec P) key b"
    using assms(2) by (auto simp: row_write_def)
  have only: "prefix (table_prefix watch_key_ops) key \<Longrightarrow> row_of watch_key_ops (watch_codec P) key b"
    "prefix (table_prefix ressum_key_ops) key \<Longrightarrow> row_of ressum_key_ops (ressum_codec P) key b"
    "prefix (table_prefix event_key_ops) key \<Longrightarrow> row_of event_key_ops (event_codec P) key b"
    "prefix (table_prefix activity_key_ops) key \<Longrightarrow> row_of activity_key_ops (activity_codec P) key b"
    using row prefixes_apart[of key] unfolding row_of_def by blast+
  show ?thesis
    unfolding m' store_typed_def
    using assms(1,3) only by (intro conjI table_typed_write) (auto simp: store_typed_def pb_reads_def)
qed

text \<open>The store manager keeps the type: it only drops.\<close>

lemma only_dropped_typed: "only_dropped v v' \<Longrightarrow> store_typed P v \<Longrightarrow> store_typed P v'"
  by (auto simp: only_dropped_def store_typed_drop)

text \<open>What a reader gets from a typed store: the value, or that there is none.\<close>

lemma typed_get:
  assumes "badger_store B dview dok tview tok writable ahead iopts" "tok t" "table_key K wfk"
    and "table_typed K C (tview t)" "k_ValidateKey K key = Ok ()"
  shows "tbl_Get B K C t key = Err ErrKeyNotFound \<or> (\<exists>v. tbl_Get B K C t key = Ok v)"
proof -
  obtain k where k: "k_Parse K key = Ok k" using table_key.validate_ok_iff[OF assms(3), of key] assms(5) by auto
  then have pre: "prefix (table_prefix K) key"
    using table_key.parse_table_prefix[OF assms(3)] by (simp add: table_prefix_slashed)
  have "\<exists>v. c_Unmarshal C b = Ok v" if "tview t key = Some b" for b
    using assms(4) that pre by (simp add: table_typed_def)
  then show ?thesis
    using badger_store.tbl_Get_eq[OF assms(1,2,5), of C] by (cases "tview t key") auto
qed

section \<open>Properties\<close>

text \<open>
  C25: the store is well typed. Whatever records the cluster reports, however they interleave with the
  recorder and the shutdown, every state of the pipeline has a store in which each key below the
  prefix of a table parses as a key of that table and its value decodes as a value of that table,
  if the store it started with had; an empty store has.
\<close>

theorem stored_rows_typed:
  assumes "badger_store B dview dok tview tok writable ahead iopts" "pb_reads P" "dok db" "store_typed P (dview db)"
    and "(pl_step (\<lambda>now. process_record B P X plat pd loc now keep))\<^sup>*\<^sup>* (start_pipeline db recordFile) s"
  shows "dok (pl_db s) \<and> store_typed P (dview (pl_db s))"
proof -
  have "pl_inv (\<lambda>now. process_record B P X plat pd loc now keep) db s" using assms(5) pl_inv_start by (rule pl_inv_steps)
  then have "process_all (turn (\<lambda>now. process_record B P X plat pd loc now keep)) db [] (pl_processed s) = Some (Ok (pl_db s, pl_failures s))"
    by (simp add: pl_inv_def)
  from badger_store.process_all_evolves[OF assms(1,3) this]
  obtain W where "dok (pl_db s)" "(row_write W P)\<^sup>*\<^sup>* (dview db) (dview (pl_db s))" by blast
  then show ?thesis using row_writes_keep[of W P _ _ "store_typed P"] row_write_typed[OF assms(2)] assms(4) by blast
qed

lemma sample_pb_reads: "pb_reads sample_pb"
  by (auto simp: pb_reads_def codec_reads_def sample_pb_def sample_watch_codec_def sample_ressum_codec_def
      sample_event_codec_def sample_activity_codec_def nat_codec_def)

theorem stored_rows_typed_witness:
  "\<exists>s :: MockDb pipeline. pl_sent s = [sample_record] \<and> pl_main s = Finished \<and> store_typed sample_pb (mock_dview (pl_db s))"
proof -
  let ?process = "\<lambda>now. process_record mock_ops sample_pb sample_ext (\<lambda>_. 0) Hour UTC now True"
  obtain md err where md: "ExtractMetadata sample_ext (wr_Payload sample_record) = (md, err)" by fastforce
  have ok: "mock_dok mock_Open" and empty: "mock_dview mock_Open = Map.empty"
    by (auto simp: mock_dok_def mock_Open_def mock_dview_def)
  have pd: "valid_pd Hour" by (simp add: valid_pd_def)
  have kind: "wr_Kind sample_record \<noteq> EventKind" by (simp add: sample_record_def EventKind_def)
  obtain d' fs where d': "?process zero_time mock_Open sample_record = Some (Ok (d', fs))"
    by (rule mock.process_non_event[OF ok sample_pb_returns sample_ext_returns pd kind md])
  obtain s s' where s: "(pl_step ?process)\<^sup>*\<^sup>* (start_pipeline mock_Open []) s" "(pl_step ?process ^^ 4) s s'"
    "pl_main s' = Finished" "pl_sent s' = [sample_record]"
    using simple_run[of ?process zero_time, OF d'] by auto
  have "(pl_step ?process)\<^sup>*\<^sup>* (start_pipeline mock_Open []) s'" using s(1) relpowp_imp_rtranclp[OF s(2)] by (rule rtranclp_trans)
  from stored_rows_typed[OF mock.badger_store_axioms sample_pb_reads ok _ this] show ?thesis
    using s(3,4) by (intro exI[of _ s']) (simp add: empty store_typed_empty)
qed

end
