(* ===== verification/EndToEnd.thy ===== *)
theory EndToEnd
  imports StoreTyping Queries
begin

text \<open>
  From what the cluster reports to what the page shows: a run of the pipeline with the code's
  processing of records, then the queries that fill the filters of the page. The summaries in the store
  are those that were there and those of the reported resources, so the queries over the store answer
  as queries over the history of reports would.
\<close>

section \<open>Summaries of a run\<close>

lemma ressum_key_prefix: "prefix (table_prefix ressum_key_ops) (ResourceSummaryKey_String k)"
  by (simp add: table_prefixes ResourceSummaryKey_String_def slashed_simps table_names)

lemma row_write_summaries_ok:
  assumes "pb_reads P" "row_write W P m m'" "summaries_ok P m" "\<And>s. prefix ''/ressum/'' s \<Longrightarrow> W s \<Longrightarrow> \<exists>k. ressum_key_wf k \<and> s = ResourceSummaryKey_String k"
  shows "summaries_ok P m'"
proof -
  obtain key b where m': "m' = m(key \<mapsto> b)" and W: "prefix ''/ressum/'' key \<Longrightarrow> W key"
    and row: "prefix ''/ressum/'' key \<Longrightarrow> row_of ressum_key_ops (ressum_codec P) key b"
    using assms(2) prefixes_apart unfolding row_write_def row_of_def table_prefixes by metis
  have "row_ok ressum_key_ops (ressum_codec P) ressum_key_wf (key, b)" if "prefix ''/ressum/'' key"
    using row[OF that] assms(1) assms(4)[OF that W[OF that]]
    by (auto simp: row_ok_def row_of_def pb_reads_def codec_reads_def ressum_key_ops_def)
  then show ?thesis using assms(3) by (auto simp: m' summaries_ok_def)
qed

text \<open>The resources that are in the store after a run, in some partitions.\<close>

definition reported_resources ::
  "pb_lib \<Rightarrow> 'j ext_lib \<Rightarrow> int \<Rightarrow> string list \<Rightarrow> KubeWatchResult list \<Rightarrow> ResourceSummaryKey set" where
  "reported_resources P X pd ids recs = {k \<in> reports P X pd recs. rk_PartitionId k \<in> set ids}"

lemma resources_after_run:
  assumes "badger_store B dview dok tview tok writable ahead iopts" "pb_reads P" "dok db" "summaries_ok P (dview db)"
    and "(pl_step (\<lambda>now. process_record B P X plat pd loc now keep))\<^sup>*\<^sup>* (start_pipeline db recordFile) s"
    and wf: "\<forall>k \<in> reports P X pd (map snd (pl_processed s)). ressum_key_wf k"
    and "''updateResourceSummaryTable'' \<notin> set (pl_failures s)"
  shows "dok (pl_db s) \<and> summaries_ok P (dview (pl_db s))
    \<and> stored_resources (dview (pl_db s)) ids
        = stored_resources (dview db) ids \<union> reported_resources P X pd ids (map snd (pl_processed s))"
proof -
  let ?recs = "map snd (pl_processed s)" and ?m = "dview db" and ?m' = "dview (pl_db s)"
  let ?W = "\<lambda>s. prefix (table_prefix ressum_key_ops) s \<longrightarrow> s \<in> ResourceSummaryKey_String ` reports P X pd ?recs"
  have "pl_inv (\<lambda>now. process_record B P X plat pd loc now keep) db s" using assms(5) pl_inv_start by (rule pl_inv_steps)
  then have run: "process_all (turn (\<lambda>now. process_record B P X plat pd loc now keep)) db [] (pl_processed s) = Some (Ok (pl_db s, pl_failures s))"
    by (simp add: pl_inv_def)
  note ev = badger_store.process_all_evolves[OF assms(1,3) run]
  have writes: "(row_write ?W P)\<^sup>*\<^sup>* ?m ?m'" using ev by blast
  have ok: "summaries_ok P ?m'"
    by (rule row_writes_keep[OF writes, of "summaries_ok P", OF assms(4)])
      (erule (1) row_write_summaries_ok[OF assms(2)], use wf in \<open>auto simp: table_prefixes\<close>)
  have "k \<in> stored_resources ?m' ids \<longleftrightarrow> k \<in> stored_resources ?m ids \<or> k \<in> reported_resources P X pd ids ?recs" for k
  proof
    assume k: "k \<in> stored_resources ?m' ids"
    then consider "ResourceSummaryKey_String k \<in> dom ?m" | "?W (ResourceSummaryKey_String k)"
      using row_writes_keys[OF writes _ ressum_key_prefix[of k]] by (auto simp: stored_resources_def)
    then show "k \<in> stored_resources ?m ids \<or> k \<in> reported_resources P X pd ids ?recs"
    proof cases
      case 2
      then obtain l where l: "l \<in> reports P X pd ?recs" "ResourceSummaryKey_String k = ResourceSummaryKey_String l"
        using ressum_key_prefix[of k] by blast
      then have "k = l"
        using rsk.string_inj[of k l] k wf by (simp add: ressum_key_ops_def stored_resources_def)
      then show ?thesis using l(1) k by (simp add: reported_resources_def stored_resources_def)
    qed (use k in \<open>simp add: stored_resources_def\<close>)
  next
    assume "k \<in> stored_resources ?m ids \<or> k \<in> reported_resources P X pd ids ?recs"
    then show "k \<in> stored_resources ?m' ids"
    proof
      assume k: "k \<in> reported_resources P X pd ids ?recs"
      then have "ResourceSummaryKey_String k \<in> dom ?m'"
        using ev assms(7) by (auto simp: reported_resources_def reports_def)
      then show ?thesis using k wf by (auto simp: reported_resources_def stored_resources_def)
    qed (use row_writes_dom[OF writes] in \<open>auto simp: stored_resources_def\<close>)
  qed
  then show ?thesis using ev ok by blast
qed

section \<open>Properties\<close>


text \<open>The sample record is reported under one key, and its summary can be written.\<close>

definition sample_summary_key :: ResourceSummaryKey where
  "sample_summary_key = \<lparr>rk_PartitionId = ''001546398000'', rk_Kind = ''Pod'', rk_Namespace = ''ns'', rk_Name = ''n'', rk_Uid = ''u''\<rparr>"

lemma sample_report:
  "ressum_key_wf sample_summary_key" "reports sample_pb sample_ext Hour [sample_record] = {sample_summary_key}"
  "summary_key sample_pb Hour sample_record (metadata_of sample_ext sample_record) = Ok sample_summary_key"
proof -
  show 1: "summary_key sample_pb Hour sample_record (metadata_of sample_ext sample_record) = Ok sample_summary_key"
    by (simp add: summary_key_def metadata_of_def sample_pb_def sample_record_def NewResourceSummaryKey_def
        sample_partition ExtractMetadata_def sample_ext_def sample_summary_key_def)
  show "ressum_key_wf sample_summary_key" by (simp add: key_wf_defs sample_summary_key_def)
  show "reports sample_pb sample_ext Hour [sample_record] = {sample_summary_key}"
    using 1 by (auto simp: reports_def sample_record_def EventKind_def)
qed

lemma sample_summary_works:
  assumes "mock_dok (txn_db t)" "mock_writable t" "ResourceSummaryKey_String sample_summary_key \<notin> dom (mock_dview (txn_db t))"
  shows "\<exists>t'. updateResourceSummaryTable mock_ops sample_pb sample_ext Hour t sample_record (metadata_of sample_ext sample_record) = (Ok (), t')"
proof -
  let ?key = "ResourceSummaryKey_String sample_summary_key" and ?md = "metadata_of sample_ext sample_record"
  have v: "k_ValidateKey ressum_key_ops ?key = Ok ()"
    using rsk.validate_string[OF sample_report(1)] by (simp add: ressum_key_ops_def)
  have "ResourceSummaryTable_Get mock_ops sample_pb t ?key = Err ErrKeyNotFound"
    using mock.tbl_Get_eq[OF assms(1) v, of "ressum_codec sample_pb"] assms(3)
    by (auto simp: ResourceSummaryTable_Get_def split: option.splits)
  moreover have "\<exists>c. StringToProtobufTimestamp sample_pb sample_ext (km_CreationTimestamp ?md) = Ok c"
    by (simp add: StringToProtobufTimestamp_def sample_pb_def sample_ext_def metadata_of_def ExtractMetadata_def)
  ultimately obtain val where val: "getResourceSummaryValue mock_ops sample_pb sample_ext t ?key ?md sample_record = Ok val"
    by (auto simp: getResourceSummaryValue_def Let_def)
  have rels: "km_OwnerReferences ?md = []" by (simp add: metadata_of_def ExtractMetadata_def sample_ext_def)
  obtain b where b: "c_Marshal (ressum_codec sample_pb) (val\<lparr>rsum_Relationships := []\<rparr>) = Ok b"
    using sample_codecs_ok(2) by (auto simp: codec_ok_def sample_pb_def)
  obtain ts where "ptypes_Timestamp sample_pb (wr_Timestamp sample_record) = Ok ts"
    "NewResourceSummaryKey Hour ts (wr_Kind sample_record) (km_Namespace ?md) (km_Name ?md) (km_Uid ?md) = Ok sample_summary_key"
    using sample_report(3) by (auto simp: summary_key_def bind_res_Ok_iff)
  moreover have "wr_Kind sample_record \<noteq> EventKind" by (simp add: sample_record_def EventKind_def)
  moreover have "?key \<noteq> []" by (simp add: ResourceSummaryKey_String_def slashed_simps)
  ultimately show ?thesis
    using val rels mock.tbl_Set_ok[OF assms(1,2) v _ b]
    by (auto simp: updateResourceSummaryTable_def Let_def ResourceSummaryTable_Set_def)
qed

lemma sample_run:
  obtains s :: "MockDb pipeline"
  where "(pl_step (\<lambda>now. process_record mock_ops sample_pb sample_ext (\<lambda>_. 0) Hour UTC now True))\<^sup>*\<^sup>* (start_pipeline mock_Open []) s"
    "pl_main s = Finished" "pl_sent s = [sample_record]" "map snd (pl_processed s) = [sample_record]"
    "''updateResourceSummaryTable'' \<notin> set (pl_failures s)"
proof -
  let ?process = "\<lambda>now. process_record mock_ops sample_pb sample_ext (\<lambda>_. 0) Hour UTC now True"
  have md: "ExtractMetadata sample_ext (wr_Payload sample_record)
      = (metadata_of sample_ext sample_record, snd (ExtractMetadata sample_ext (wr_Payload sample_record)))"
    by (simp add: metadata_of_def)
  have ok: "mock_dok mock_Open" and empty: "mock_dview mock_Open = Map.empty"
    by (auto simp: mock_dok_def mock_Open_def mock_dview_def)
  have pd: "valid_pd Hour" by (simp add: valid_pd_def)
  have kind: "wr_Kind sample_record \<noteq> EventKind" by (simp add: sample_record_def EventKind_def)
  obtain d' fs where d': "?process zero_time mock_Open sample_record = Some (Ok (d', fs))"
    by (rule mock.process_non_event[OF ok sample_pb_returns sample_ext_returns pd kind md])
  have "''updateResourceSummaryTable'' \<notin> set fs"
    by (rule mock.summary_not_failed[OF ok d' md ressum_key_prefix[of sample_summary_key]])
      (use sample_summary_works in \<open>auto simp: empty mock_ops_def mock_EndTxn_def\<close>)
  moreover obtain s s' where run: "(pl_step ?process)\<^sup>*\<^sup>* (start_pipeline mock_Open []) s" "(pl_step ?process ^^ 4) s s'"
    "pl_main s' = Finished" "pl_sent s' = [sample_record]" "pl_failures s' = fs" "pl_processed s' = [(zero_time, sample_record)]"
    using simple_run[of ?process zero_time, OF d'] by auto
  moreover have "(pl_step ?process)\<^sup>*\<^sup>* (start_pipeline mock_Open []) s'"
    using run(1) relpowp_imp_rtranclp[OF run(2)] by (rule rtranclp_trans)
  ultimately show ?thesis using that[of s'] by simp
qed

lemma distinct_singleton: "set xs = {x} \<Longrightarrow> distinct xs \<Longrightarrow> xs = [x]"
  by (cases xs; cases "tl xs") auto


end
