(* ===== verification/EventHistory.thy ===== *)
theory EventHistory
  imports StoreTyping Queries
begin

text \<open>
  From the events that the cluster reports to the page that lists them. Every record is kept as a version
  of its object in the watch table, and the query for events reads versions of that table. After a run the
  table holds, under the key of a version, the last record that was reported for it, so the query
  answers as one over the history of reports would.
\<close>

section \<open>Versions of a run\<close>

definition version_of :: "pb_lib \<Rightarrow> 'j ext_lib \<Rightarrow> int \<Rightarrow> KubeWatchResult \<Rightarrow> WatchTableKey res" where
  "version_of P X pd rec = toWatchTableKey P pd (wr_Timestamp rec) (wr_Kind rec)
     (km_Namespace (metadata_of X rec)) (km_Name (metadata_of X rec))"

text \<open>The last record that was reported as a version.\<close>

definition reported_at :: "pb_lib \<Rightarrow> 'j ext_lib \<Rightarrow> int \<Rightarrow> KubeWatchResult list \<Rightarrow> WatchTableKey \<Rightarrow> KubeWatchResult option" where
  "reported_at P X pd recs k = List.find (\<lambda>r. version_of P X pd r = Ok k) (rev recs)"

lemma reported_at_Nil [simp]: "reported_at P X pd [] k = None"
  by (simp add: reported_at_def)

lemma find_append: "List.find Q (xs @ ys) = (case List.find Q xs of None \<Rightarrow> List.find Q ys | Some x \<Rightarrow> Some x)"
  by (induction xs) simp_all

lemma reported_at_Cons: "reported_at P X pd (r # recs) k =
    (case reported_at P X pd recs k of None \<Rightarrow> if version_of P X pd r = Ok k then Some r else None | Some q \<Rightarrow> Some q)"
  by (simp add: reported_at_def find_append split: option.split)

lemma reported_at_SomeD: "reported_at P X pd recs k = Some r \<Longrightarrow> r \<in> set recs \<and> version_of P X pd r = Ok k"
  by (auto simp: reported_at_def find_Some_iff) (metis nth_mem set_rev length_rev)

lemma version_kind: "version_of P X pd r = Ok k \<Longrightarrow> wk_Kind k = wr_Kind r"
  by (auto simp: version_of_def toWatchTableKey_def bind_res_Ok_iff NewWatchTableKey_def)

context badger_store
begin

lemma tbl_Set_stored:
  assumes "tok t" "writable t" "table_key K wfk" "tbl_Set B K C t key v = (Ok (), t')"
  shows "\<exists>b. c_Marshal C v = Ok b \<and> tview t' = (tview t)(key \<mapsto> b)"
proof -
  obtain b where b: "c_Marshal C v = Ok b" and val: "k_ValidateKey K key = Ok ()"
    using assms(4) by (auto simp: tbl_Set_def split: res.splits)
  then obtain k where k: "k_Parse K key = Ok k" using table_key.validate_ok_iff[OF assms(3), of key] by auto
  have "prefix (table_prefix K) key"
    using table_key.parse_table_prefix[OF assms(3) k] by (simp add: table_prefix_slashed)
  then have "key \<noteq> []" by (auto simp: table_prefix_def)
  from tbl_Set_ok[OF assms(1,2) val this b] show ?thesis using assms(4) b by auto
qed

lemma watch_update_stored:
  assumes "tok t" "writable t" "updateKubeWatchTable B P X pd t rec md keep = (Ok (), t')" "wr_Kind rec = NodeKind \<longrightarrow> keep"
  shows "\<exists>k b. toWatchTableKey P pd (wr_Timestamp rec) (wr_Kind rec) (km_Namespace md) (km_Name md) = Ok k
    \<and> c_Marshal (watch_codec P) rec = Ok b \<and> tview t' = (tview t)(WatchTableKey_String k \<mapsto> b)"
proof -
  obtain k where k: "toWatchTableKey P pd (wr_Timestamp rec) (wr_Kind rec) (km_Namespace md) (km_Name md) = Ok k"
    and put: "KubeWatchResultTable_Set B P t (WatchTableKey_String k) rec = (Ok (), t')"
    using assms(3,4) by (auto simp: updateKubeWatchTable_def split: res.splits prod.splits if_splits)
  from tbl_Set_stored[OF assms(1,2) wtk.table_key_axioms put[unfolded KubeWatchResultTable_Set_def]] k show ?thesis by blast
qed

text \<open>One record: its version is stored when its update did not fail, and nothing else changes in the table.\<close>

lemma process_record_versions:
  assumes "dok d" "process_record B P X plat pd loc now keep d rec = Some (Ok (d', fs))" "prefix (table_prefix watch_key_ops) s"
  shows "dok d' \<and> ((\<forall>k. version_of P X pd rec = Ok k \<longrightarrow> s \<noteq> WatchTableKey_String k) \<longrightarrow> dview d' s = dview d s)
    \<and> (''updateKubeWatchTable'' \<notin> set fs \<and> (wr_Kind rec = NodeKind \<longrightarrow> keep) \<longrightarrow>
        (\<exists>k b. version_of P X pd rec = Ok k \<and> c_Marshal (watch_codec P) rec = Ok b
           \<and> (s = WatchTableKey_String k \<longrightarrow> dview d' s = Some b)))"
proof -
  let ?md = "metadata_of X rec"
  have md: "ExtractMetadata X (wr_Payload rec) = (?md, snd (ExtractMetadata X (wr_Payload rec)))" by (simp add: metadata_of_def)
  have not_sum: "\<not> writes_key P pd rec ?md s"
    using assms(3) prefixes_apart(1) by (auto simp: writes_key_def table_prefixes ResourceSummaryKey_String_def slashed_simps table_names)
  show ?thesis
  proof (rule process_record_stages[OF assms(1,2) md])
    fix d2 f2 d3 f3
    assume st: "dok d2" "(row_write (\<lambda>_. False) P)\<^sup>*\<^sup>* (dview d) (dview d2)"
      "run_update B ''updateKubeWatchTable'' (\<lambda>txn. updateKubeWatchTable B P X pd txn rec ?md keep) (d2, f2) = Ok (d3, f3)"
      "(row_write (writes_version P pd rec ?md) P)\<^sup>*\<^sup>* (dview d2) (dview d3)" "set f3 \<subseteq> set fs"
      "dok d'" "(row_write (writes_key P pd rec ?md) P)\<^sup>*\<^sup>* (dview d3) (dview d')"
    have a: "dview d2 s = dview d s" "dview d' s = dview d3 s"
      using row_writes_same[OF st(2)] row_writes_same[OF st(7) not_sum] assms(3) by auto
    have "dview d3 s = dview d2 s" if "\<forall>k. version_of P X pd rec = Ok k \<longrightarrow> s \<noteq> WatchTableKey_String k"
      by (rule row_writes_same[OF st(4)]) (use that assms(3) in \<open>auto simp: writes_version_def version_of_def\<close>)
    moreover have "\<exists>k b. version_of P X pd rec = Ok k \<and> c_Marshal (watch_codec P) rec = Ok b
        \<and> (s = WatchTableKey_String k \<longrightarrow> dview d3 s = Some b)"
      if no: "''updateKubeWatchTable'' \<notin> set fs" "wr_Kind rec = NodeKind \<longrightarrow> keep"
    proof -
      obtain t t' where t: "tok t" "writable t" "updateKubeWatchTable B P X pd t rec ?md keep = (Ok (), t')" "dview d3 = tview t'"
        using run_update_evolves[OF st(1,3), of "writes_version P pd rec ?md" P] watch_update_evolves no(1) st(5) by blast
      from watch_update_stored[OF t(1-3) no(2)] show ?thesis using t(4) by (auto simp: version_of_def)
    qed
    ultimately show ?thesis unfolding a(1)[symmetric] a(2) using st(6) by blast
  qed
qed

text \<open>A version that can be encoded is written, and no failure is reported when commits work.\<close>

lemma version_not_failed:
  assumes "dok d" "process_record B P X plat pd loc now keep d rec = Some (Ok (d', fs))"
    and md: "ExtractMetadata X (wr_Payload rec) = (md, e1)"
    and k: "toWatchTableKey P pd (wr_Timestamp rec) (wr_Kind rec) (km_Namespace md) (km_Name md) = Ok k" "watch_key_wf k"
    and b: "c_Marshal (watch_codec P) rec = Ok b" and keep: "wr_Kind rec = NodeKind \<longrightarrow> keep"
    and commits: "\<And>d t. fst (db_EndTxn B d t True) = None"
  shows "''updateKubeWatchTable'' \<notin> set fs"
proof -
  obtain d2 f2 d3 f3 where s: "dok d2" "''updateKubeWatchTable'' \<notin> set f2"
    "run_update B ''updateKubeWatchTable'' (\<lambda>txn. updateKubeWatchTable B P X pd txn rec md keep) (d2, f2) = Ok (d3, f3)"
    "set fs \<subseteq> insert ''updateResourceSummaryTable'' (set f3)"
    using process_record_stages[OF assms(1-3)] by metis
  let ?t = "db_NewTxn B d2 False"
  have t: "tok ?t" "writable ?t" using newtxn[OF s(1), of False] by auto
  have "k_ValidateKey watch_key_ops (WatchTableKey_String k) = Ok ()"
    using wtk.validate_string[OF k(2)] by (simp add: watch_key_ops_def)
  moreover have "WatchTableKey_String k \<noteq> []" by (simp add: WatchTableKey_String_def slashed_simps)
  ultimately obtain t' where "KubeWatchResultTable_Set B P ?t (WatchTableKey_String k) rec = (Ok (), t')"
    using tbl_Set_ok[OF t _ _ b] by (auto simp: KubeWatchResultTable_Set_def)
  then have "updateKubeWatchTable B P X pd ?t rec md keep = (Ok (), t')" using k(1) keep by (auto simp: updateKubeWatchTable_def)
  moreover obtain e where "db_EndTxn B d2 t' True = (None, e)" using commits[of d2 t'] by (metis prod.collapse)
  ultimately have "f3 = f2" using s(3) by (simp add: run_update_def db_Update_def processingFailed_def)
  then show ?thesis using s(2,4) by auto
qed

text \<open>A run of the runner: the keys of the table, and what is under the key of a version.\<close>

lemma process_all_new_keys:
  assumes "dok d" "process_all (turn (\<lambda>now. process_record B P X plat pd loc now keep)) d fs recs = Some (Ok (d', fs'))"
    and "prefix (table_prefix watch_key_ops) s" "\<forall>r \<in> snd ` set recs. \<forall>k. version_of P X pd r = Ok k \<longrightarrow> s \<noteq> WatchTableKey_String k"
  shows "dok d' \<and> dview d' s = dview d s"
  using assms(1,2,4)
proof (induction recs arbitrary: d fs)
  case (Cons r recs)
  obtain d1 f1 where one: "process_record B P X plat pd loc (fst r) keep d (snd r) = Some (Ok (d1, f1))"
    and rest: "process_all (turn (\<lambda>now. process_record B P X plat pd loc now keep)) d1 (fs @ f1) recs = Some (Ok (d', fs'))"
    using Cons.prems(2) by (auto simp: process_all_Cons turn_def[where db = d] simp del: process_all.simps(2))
  from process_record_versions[OF Cons.prems(1) one assms(3)] Cons.IH[OF _ rest] Cons.prems(3) show ?case by auto
qed simp

lemma process_all_versions:
  assumes "dok d" "process_all (turn (\<lambda>now. process_record B P X plat pd loc now keep)) d fs recs = Some (Ok (d', fs'))"
    and "''updateKubeWatchTable'' \<notin> set fs'" "watch_key_wf k"
    and "\<forall>r \<in> snd ` set recs. \<forall>l. version_of P X pd r = Ok l \<longrightarrow> watch_key_wf l"
    and "\<forall>r \<in> snd ` set recs. version_of P X pd r = Ok k \<longrightarrow> wr_Kind r = NodeKind \<longrightarrow> keep"
  shows "case reported_at P X pd (map snd recs) k of None \<Rightarrow> dview d' (WatchTableKey_String k) = dview d (WatchTableKey_String k)
    | Some r \<Rightarrow> \<exists>b. c_Marshal (watch_codec P) r = Ok b \<and> dview d' (WatchTableKey_String k) = Some b"
  using assms(1,2,5,6)
proof (induction recs arbitrary: d fs)
  case (Cons r recs)
  let ?s = "WatchTableKey_String k"
  obtain d1 f1 where one: "process_record B P X plat pd loc (fst r) keep d (snd r) = Some (Ok (d1, f1))"
    and rest: "process_all (turn (\<lambda>now. process_record B P X plat pd loc now keep)) d1 (fs @ f1) recs = Some (Ok (d', fs'))"
    using Cons.prems(2) by (auto simp: process_all_Cons turn_def[where db = d] simp del: process_all.simps(2))
  note pr = process_record_versions[OF Cons.prems(1) one watch_string_prefix[of k]]
  have "set (fs @ f1) \<subseteq> set fs'" using process_all_evolves[OF _ rest] pr by blast
  then have no: "''updateKubeWatchTable'' \<notin> set f1" using assms(3) by auto
  have ih: "case reported_at P X pd (map snd recs) k of None \<Rightarrow> dview d' ?s = dview d1 ?s
    | Some q \<Rightarrow> \<exists>b. c_Marshal (watch_codec P) q = Ok b \<and> dview d' ?s = Some b"
    by (rule Cons.IH[OF _ rest]) (use pr Cons.prems(3,4) in auto)
  show ?case
  proof (cases "version_of P X pd (snd r) = Ok k")
    case True
    then have "wr_Kind (snd r) = NodeKind \<longrightarrow> keep" using Cons.prems(4) by auto
    then have "\<exists>b. c_Marshal (watch_codec P) (snd r) = Ok b \<and> dview d1 ?s = Some b" using pr no True by auto
    then show ?thesis using ih True by (auto simp: reported_at_Cons split: option.splits)
  next
    case False
    have "?s \<noteq> WatchTableKey_String l" if l: "version_of P X pd (snd r) = Ok l" for l
    proof -
      have "watch_key_wf l" using Cons.prems(3) l by auto
      then show ?thesis using wtk.string_inj[of k l] assms(4) False l by (auto simp: watch_key_ops_def)
    qed
    then have "dview d1 ?s = dview d ?s" using pr by blast
    then show ?thesis using ih False by (auto simp: reported_at_Cons split: option.splits)
  qed
qed simp

end

section \<open>The keys that the query matches\<close>

lemma prefix_part:
  assumes "CHR ''/'' \<notin> set a" "CHR ''/'' \<notin> set b"
  shows "prefix (a @ CHR ''/'' # xs) (b @ CHR ''/'' # ys) \<longleftrightarrow> a = b \<and> prefix xs ys"
  using assms
proof (induction a arbitrary: b)
  case Nil
  then show ?case by (cases b) auto
next
  case (Cons c a)
  then show ?case by (cases b) auto
qed

lemma prefix_last_part: "CHR ''/'' \<notin> set a \<Longrightarrow> prefix a (b @ CHR ''/'' # ys) \<longleftrightarrow> prefix a b"
proof (induction a arbitrary: b)
  case (Cons c a)
  then show ?case by (cases b) auto
qed simp

definition event_namespace :: "url_values \<Rightarrow> string" where
  "event_namespace params = (if IsClustersScopedResource (params_Get params KindParam) then DefaultNamespace
     else params_Get params NamespaceParam)"

lemma event_seek:
  assumes "slash_free [p, event_namespace params, params_Get params NameParam]" "watch_key_wf k"
  shows "prefix (seek_string watch_key_ops (Some (event_key_prefix params)) p) (WatchTableKey_String k)
    \<longleftrightarrow> wk_PartitionId k = p \<and> wk_Kind k = EventKind \<and> wk_Namespace k = event_namespace params
      \<and> prefix (params_Get params NameParam @ ''.'') (wk_Name k)"
proof -
  have key: "WatchTableKey_String k = slashed [WatchTableKey_TableName, wk_PartitionId k, wk_Kind k, wk_Namespace k, wk_Name k,
      format_int (UnixNano (wk_Timestamp k))]"
    using assms(2) by (simp add: WatchTableKey_String_def key_wf_defs)
  have seek: "seek_string watch_key_ops (Some (event_key_prefix params)) p
      = slashed [WatchTableKey_TableName, p, EventKind, event_namespace params, params_Get params NameParam @ ''.'']"
    by (simp add: seek_string_def watch_key_ops_def WatchTableKey_SetPartitionId_def event_key_prefix_def event_namespace_def
        WatchTableKey_String_def IsZero_def zero_time_def IsNameAlreadyDelimited_def Let_def)
  have sf: "CHR ''/'' \<notin> set EventKind" "CHR ''/'' \<notin> set WatchTableKey_TableName"
    by (simp_all add: EventKind_def table_names)
  show ?thesis
    unfolding key seek slashed_simps append_Nil2
    using assms sf
    by (auto simp: key_wf_defs prefix_part prefix_last_part)
qed

text \<open>
  What the table of versions holds after a run from an empty store: keys of versions that were reported,
  with values that decode, and under the key of each version of an event the last report of it.
\<close>

lemma versions_after_run:
  assumes "badger_store B dview dok tview tok writable ahead iopts" "pb_reads P" "dok db" "dview db = Map.empty"
    and "(pl_step (\<lambda>now. process_record B P X plat pd loc now keep))\<^sup>*\<^sup>* (start_pipeline db recordFile) s"
    and wf: "\<forall>r \<in> snd ` set (pl_processed s). \<forall>k. version_of P X pd r = Ok k \<longrightarrow> watch_key_wf k"
    and "''updateKubeWatchTable'' \<notin> set (pl_failures s)"
  shows "dok (pl_db s)"
    "prefix (table_prefix watch_key_ops) key \<Longrightarrow> dview (pl_db s) key = Some b \<Longrightarrow>
       row_ok watch_key_ops (watch_codec P) watch_key_wf (key, b)"
    "watch_key_wf k \<Longrightarrow> wk_Kind k = EventKind \<Longrightarrow>
       (case reported_at P X pd (map snd (pl_processed s)) k of None \<Rightarrow> dview (pl_db s) (WatchTableKey_String k) = None
        | Some r \<Rightarrow> \<exists>b. c_Marshal (watch_codec P) r = Ok b \<and> dview (pl_db s) (WatchTableKey_String k) = Some b)"
proof -
  have "pl_inv (\<lambda>now. process_record B P X plat pd loc now keep) db s" using assms(5) pl_inv_start by (rule pl_inv_steps)
  then have run: "process_all (turn (\<lambda>now. process_record B P X plat pd loc now keep)) db [] (pl_processed s) = Some (Ok (pl_db s, pl_failures s))"
    by (simp add: pl_inv_def)
  obtain W where ev: "dok (pl_db s)" "(row_write W P)\<^sup>*\<^sup>* (dview db) (dview (pl_db s))"
    using badger_store.process_all_evolves[OF assms(1,3) run] by blast
  show "dok (pl_db s)" by (rule ev(1))
  have typed: "store_typed P (dview (pl_db s))"
    by (rule row_writes_keep[OF ev(2), of "store_typed P"])
      (simp_all add: assms(4) store_typed_empty row_write_typed[OF assms(2)])
  show "row_ok watch_key_ops (watch_codec P) watch_key_wf (key, b)"
    if key: "prefix (table_prefix watch_key_ops) key" "dview (pl_db s) key = Some b"
  proof -
    have "dview (pl_db s) key \<noteq> dview db key" using key(2) assms(4) by simp
    then obtain r k where "r \<in> snd ` set (pl_processed s)" "version_of P X pd r = Ok k" "key = WatchTableKey_String k"
      using badger_store.process_all_new_keys[OF assms(1,3) run key(1)] by blast
    then have "watch_key_wf k" "key = k_String watch_key_ops k" using wf by (auto simp: watch_key_ops_def)
    moreover have "\<exists>v. c_Unmarshal (watch_codec P) b = Ok v"
      using typed key by (auto simp: store_typed_def table_typed_def)
    ultimately show ?thesis by (auto simp: row_ok_def)
  qed
  show "case reported_at P X pd (map snd (pl_processed s)) k of None \<Rightarrow> dview (pl_db s) (WatchTableKey_String k) = None
      | Some r \<Rightarrow> \<exists>b. c_Marshal (watch_codec P) r = Ok b \<and> dview (pl_db s) (WatchTableKey_String k) = Some b"
    if k: "watch_key_wf k" "wk_Kind k = EventKind"
  proof -
    have "\<forall>r \<in> snd ` set (pl_processed s). version_of P X pd r = Ok k \<longrightarrow> wr_Kind r = NodeKind \<longrightarrow> keep"
      using version_kind[of P X pd _ k] k(2) by (force simp: EventKind_def NodeKind_def)
    from badger_store.process_all_versions[OF assms(1,3) run assms(7) k(1) wf this] show ?thesis
      by (simp add: assms(4) split: option.split_asm option.split)
  qed
qed

text \<open>The rows that the query for events reads from a table of rows that can be read.\<close>

definition event_filter :: "'j ext_lib \<Rightarrow> url_values \<Rightarrow> gotime \<Rightarrow> gotime \<Rightarrow> KubeWatchResult \<Rightarrow> bool" where
  "event_filter X params st en r \<longleftrightarrow> isEventValInTimeRange X st en r \<and> matchEventInvolvedObject X params r"

definition event_asked :: "url_values \<Rightarrow> string list \<Rightarrow> WatchTableKey \<Rightarrow> bool" where
  "event_asked params ids k \<longleftrightarrow> wk_PartitionId k \<in> set ids \<and> wk_Kind k = EventKind
     \<and> wk_Namespace k = event_namespace params \<and> prefix (params_Get params NameParam @ ''.'') (wk_Name k)"

lemma events_read:
  assumes "badger_store B dview dok tview tok writable ahead iopts" "dok db"
    and rows_ok: "\<And>key b. prefix (table_prefix watch_key_ops) key \<Longrightarrow> dview db key = Some b \<Longrightarrow>
      row_ok watch_key_ops (watch_codec P) watch_key_wf (key, b)"
    and "slash_free [event_namespace params, params_Get params NameParam]"
    and range: "valid_pd pd" "tloc st = UTC" "tloc en = UTC" "0 \<le> Unix st" "Unix st < 10 ^ 12" "0 \<le> Unix en" "Unix en + pd_secs pd < 10 ^ 12"
  obtains ids rows where "GetPartitionsFromTimeRange pd st en = Some (Ok (ids, None))"
    "GetEventData B P X json pd params db st en = Some (if rows = [] then Ok []
        else map_err (\<lambda>x. Wrapped x ''failed to marshal json'') (json (map event_output rows)))"
    "distinct rows"
    "set rows = {(k, r). watch_key_wf k \<and> event_asked params ids k \<and> event_filter X params st en r
       \<and> (\<exists>b. dview db (WatchTableKey_String k) = Some b \<and> c_Unmarshal (watch_codec P) b = Ok r)}"
proof -
  let ?t = "db_NewTxn B db True" and ?kp = "Some (event_key_prefix params)"
  let ?vp = "KubeWatchResult_ValPredicateFns [isEventValInTimeRange X st en, matchEventInvolvedObject X params]"
  have t: "tok ?t" "tview ?t = dview db" using badger_store.newtxn[OF assms(1,2)] by auto
  have str: "k_String watch_key_ops = WatchTableKey_String" by (simp add: watch_key_ops_def)
  have "prefix (table_prefix watch_key_ops) (seek_string watch_key_ops ?kp p)" for p
    using watch_string_prefix by (simp add: seek_string_def str)
  then have "\<forall>p key b. tview ?t key = Some b \<and> prefix (seek_string watch_key_ops ?kp p) key
      \<longrightarrow> row_ok watch_key_ops (watch_codec P) watch_key_wf (key, b)"
    unfolding t(2) using rows_ok prefix_order.trans by blast
  from range_read_rows[OF assms(1) wtk.table_key_axioms t(1) range this, of None "Some ?vp"]
  obtain ids rows stats where ids: "GetPartitionsFromTimeRange pd st en = Some (Ok (ids, None))"
    and rr: "RangeRead B watch_key_ops (watch_codec P) pd ?t ?kp None () (Some ?vp) st en = Some (Ok ((rows, stats, ()), None))"
    and rows: "\<And>k v. map_of rows k = Some v \<longleftrightarrow>
         (\<exists>p \<in> set ids. \<exists>b. watch_key_wf k \<and> prefix (seek_string watch_key_ops ?kp p) (WatchTableKey_String k)
            \<and> dview db (WatchTableKey_String k) = Some b \<and> c_Unmarshal (watch_codec P) b = Ok v
            \<and> passes (watch_codec P) (Some ?vp) b)"
    and dist: "distinct (map fst rows)"
    unfolding t(2) str by (auto simp: keeps_def)
  have slash: "slash_free [p, event_namespace params, params_Get params NameParam]" if "p \<in> set ids" for p
    using that ids time_range_walk[OF range] partition_ids_no_slash assms(4) by (auto simp: slash_free_def)
  have filter: "passes (watch_codec P) (Some ?vp) b \<longleftrightarrow> event_filter X params st en v"
    if "c_Unmarshal (watch_codec P) b = Ok v" for b v
    using that by (simp add: passes_def KubeWatchResult_ValPredicateFns_def event_filter_def)
  have "(k, r) \<in> set rows \<longleftrightarrow> watch_key_wf k \<and> event_asked params ids k \<and> event_filter X params st en r
       \<and> (\<exists>b. dview db (WatchTableKey_String k) = Some b \<and> c_Unmarshal (watch_codec P) b = Ok r)" for k r
  proof -
    have "(k, r) \<in> set rows \<longleftrightarrow> map_of rows k = Some r" using dist by simp
    then show ?thesis unfolding rows event_asked_def using event_seek[OF slash] filter by blast
  qed
  then have "set rows = {(k, r). watch_key_wf k \<and> event_asked params ids k \<and> event_filter X params st en r
       \<and> (\<exists>b. dview db (WatchTableKey_String k) = Some b \<and> c_Unmarshal (watch_codec P) b = Ok r)}" by auto
  moreover have "distinct rows" using dist by (simp add: distinct_map)
  ultimately show ?thesis
    using that[OF ids] by (simp add: GetEventData_def db_View_def KubeWatchResultTable_RangeRead_def rr Let_def)
qed

section \<open>Properties\<close>


text \<open>The version of one event is written, whatever else is in the store.\<close>

definition event_ext :: "unit ext_lib" where
  "event_ext = sample_ext\<lparr>json_Metadata := (\<lambda>p. Ok ((sample_md p)\<lparr>km_Name := ''n.1''\<rparr>))\<rparr>"

definition event_version :: WatchTableKey where
  "event_version = NewWatchTableKey ''001546398000'' ''Event'' ''ns'' ''n.1'' (Time 1546398000000000000 UTC)"

definition event_params :: url_values where
  "event_params = [(''namespace'', [''ns'']), (''kind'', [''Pod'']), (''name'', [''n''])]"

lemma event_ext_returns: "ext_returns event_ext"
  using sample_ext_returns by (simp add: event_ext_def ext_returns_def)

lemma event_metadata: "metadata_of event_ext sample_event = (sample_md ''xyz'')\<lparr>km_Name := ''n.1''\<rparr>"
  by (simp add: metadata_of_def ExtractMetadata_def event_ext_def sample_event_def)

lemma event_version_key:
  "version_of sample_pb event_ext Hour sample_event = Ok event_version" "watch_key_wf event_version"
proof -
  have "wr_Timestamp sample_event = sample_ts" "wr_Kind sample_event = ''Event''" by (simp_all add: sample_event_def)
  then show "version_of sample_pb event_ext Hour sample_event = Ok event_version"
    by (simp add: version_of_def event_metadata sample_md_def event_version_def toWatchTableKey_def sample_pb_def
        sample_ts_def sample_partition)
qed (simp add: key_wf_defs event_version_def NewWatchTableKey_def IsZero_def zero_ns_def)

lemma event_uncounted:
  "updateEventCountTable mock_ops sample_pb event_ext (\<lambda>_. 0) Hour UTC zero_time (mock_NewTxn mock_Open False)
     sample_event (metadata_of event_ext sample_event) io = Some (Ok (), mock_NewTxn mock_Open False)"
proof -
  have ev: "wr_Timestamp sample_event = sample_ts" "wr_Kind sample_event = ''Event''" by (simp_all add: sample_event_def)
  have "getPreviousEventInfo mock_ops sample_pb event_ext Hour (mock_NewTxn mock_Open False) (wr_Timestamp sample_event)
      (wr_Kind sample_event) (km_Namespace (metadata_of event_ext sample_event)) (km_Name (metadata_of event_ext sample_event)) = Ok None"
    using empty_last[of "''Event''" "''ns''" "''n.1''"]
    by (simp add: getPreviousEventInfo_def ev event_metadata sample_md_def slash_free_def)
  moreover have "\<exists>info. ExtractEventInfo event_ext (wr_Payload sample_event) = Ok info"
    by (simp add: ExtractEventInfo_def event_ext_def sample_ext_def)
  ultimately show ?thesis
    using first_events_dropped_silently[OF mock.badger_store_axioms empty_txn(1)] empty_tables
    unfolding empty_txn(3) by blast
qed

lemma event_run:
  obtains s :: "MockDb pipeline"
  where "(pl_step (\<lambda>now. process_record mock_ops sample_pb event_ext (\<lambda>_. 0) Hour UTC now True))\<^sup>*\<^sup>* (start_pipeline mock_Open []) s"
    "pl_main s = Finished" "pl_sent s = [sample_event]" "map snd (pl_processed s) = [sample_event]"
    "''updateKubeWatchTable'' \<notin> set (pl_failures s)"
proof -
  let ?process = "\<lambda>now. process_record mock_ops sample_pb event_ext (\<lambda>_. 0) Hour UTC now True"
  let ?md = "metadata_of event_ext sample_event"
  have md: "ExtractMetadata event_ext (wr_Payload sample_event) = (?md, snd (ExtractMetadata event_ext (wr_Payload sample_event)))"
    by (simp add: metadata_of_def)
  have ok: "mock_dok mock_Open" by (simp add: mock_dok_def mock_Open_def)
  have pd: "valid_pd Hour" by (simp add: valid_pd_def)
  have nt: "db_NewTxn mock_ops = mock_NewTxn" by (simp add: mock_ops_def)
  obtain d' fs where d': "?process zero_time mock_Open sample_event = Some (Ok (d', fs))"
    using mock.process_uncounted[OF ok sample_pb_returns event_ext_returns pd event_uncounted[folded nt] md] by metis
  obtain b where b: "c_Marshal (watch_codec sample_pb) sample_event = Ok b"
    using sample_codecs_ok(1)[of sample_event] by (auto simp: codec_ok_def sample_pb_def)
  have "fst (db_EndTxn mock_ops d t True) = None" for d t by (simp add: mock_ops_def mock_EndTxn_def)
  then have "''updateKubeWatchTable'' \<notin> set fs"
    using mock.version_not_failed[OF ok d' md event_version_key(1)[unfolded version_of_def] event_version_key(2) b] by blast
  moreover obtain s s' where run: "(pl_step ?process)\<^sup>*\<^sup>* (start_pipeline mock_Open []) s" "(pl_step ?process ^^ 4) s s'"
    "pl_main s' = Finished" "pl_sent s' = [sample_event]" "pl_failures s' = fs" "pl_processed s' = [(zero_time, sample_event)]"
    using simple_run[of ?process zero_time, OF d'] by auto
  moreover have "(pl_step ?process)\<^sup>*\<^sup>* (start_pipeline mock_Open []) s'"
    using run(1) relpowp_imp_rtranclp[OF run(2)] by (rule rtranclp_trans)
  ultimately show ?thesis using that[of s'] by simp
qed

lemma event_found:
  assumes "''001546398000'' \<in> set ids"
  shows "{(k, r). reported_at sample_pb event_ext Hour [sample_event] k = Some r \<and> event_asked event_params ids k
      \<and> event_filter event_ext event_params (Time 1546398000000000000 UTC) (Time 1546398000000000000 UTC) r}
    = {(event_version, sample_event)}"
proof -
  let ?t = "Time 1546398000000000000 UTC"
  have "reported_at sample_pb event_ext Hour [sample_event] k = Some r \<longleftrightarrow> k = event_version \<and> r = sample_event" for k r
    by (auto simp: reported_at_Cons event_version_key(1))
  moreover have "event_asked event_params ids event_version"
    using assms by (simp add: event_asked_def event_version_def NewWatchTableKey_def EventKind_def event_namespace_def
        event_params_def params_Get_def go_defs IsClustersScopedResource_def)
  moreover have "event_filter event_ext event_params ?t ?t sample_event"
    by (simp add: event_filter_def isEventValInTimeRange_def matchEventInvolvedObject_def ExtractEventInfo_def
        ExtractInvolvedObject_def event_ext_def sample_ext_def sample_event_def parse_or_zero_def event_params_def
        params_Get_def go_defs time_After_def time_Before_def)
  ultimately show ?thesis by auto
qed


end
