(* ===== verification/ResourceHistory.thy ===== *)
theory ResourceHistory
  imports EventStore
begin

text \<open>
  What the watch, activity and summary tables say about a resource after an update, and when a
  node's update is skipped (\<open>watch.go\<close>, \<open>watchactivity.go\<close> and \<open>resourcesummary.go\<close> of
  \<open>pkg/sloop/processing\<close>).
\<close>

section \<open>Witness of the newest version\<close>

theorem last_watch_result_is_newest_witness:
  "getLastKubeWatchResult mock_ops sample_pb Hour (mock_NewTxn (one_version sample_event) True) sample_ts ''Event'' ''ns'' ''n''
    = Ok (Some sample_event)"
proof -
  let ?t = "mock_NewTxn (one_version sample_event) True"
  let ?vk = "version_key ''001546398000'' ''Event'' ''ns'' ''n''"
  have w: "wr_Kind sample_event = ''Event''" by (simp add: sample_event_def)
  have dom: "dom (mock_dview (txn_db ?t)) = {?vk 1546398000000000000}" by (simp add: one_version_txn(3) w)
  have ts: "ptypes_Timestamp sample_pb sample_ts = Ok (Time 1546398000000000000 UTC)"
    by (simp add: sample_pb_def sample_ts_def)
  have p: "table_parses watch_key_ops (mock_dview (txn_db ?t))"
    by (rule one_version_parses) (simp add: w slash_free_def)
  have get: "KubeWatchResultTable_Get mock_ops sample_pb ?t (?vk 1546398000000000000) = Ok sample_event"
    using one_version_get[of sample_event True] by (simp add: w slash_free_def)
  define S where "S = {n. ?vk n \<in> dom (mock_dview (txn_db ?t)) \<and> 10 ^ 18 \<le> n \<and> n < 2 ^ 63}"
  have n0: "1546398000000000000 \<in> S" by (simp add: S_def dom)
  have all: "\<forall>s \<in> dom (mock_dview (txn_db ?t)). prefix (versions_prefix ''001546398000'' ''Event'' ''ns'' ''n'') s \<longrightarrow> s \<in> ?vk ` S"
    using n0 unfolding dom by simp
  have sf: "slash_free [''001546398000'', ''Event'', ''ns'', ''n'']" by (simp add: slash_free_def)
  from last_watch_result_is_newest[OF mock.badger_store_axioms one_version_txn(1) p ts sample_partition sf _ _ S_def all]
  obtain n where n: "n \<in> S" "getLastKubeWatchResult mock_ops sample_pb Hour ?t sample_ts ''Event'' ''ns'' ''n''
      = bind_res (KubeWatchResultTable_Get mock_ops sample_pb ?t (?vk n)) (\<lambda>w. Ok (Some w))"
    using n0 by auto
  then have "?vk n = ?vk 1546398000000000000" by (simp add: S_def dom)
  then show ?thesis using n(2) get by simp
qed

section \<open>The summary of a resource\<close>

text \<open>The summary that an update starts from: the stored one, or a fresh one.\<close>

definition summary_before ::
  "('db, 'txn, 'it) badger \<Rightarrow> pb_lib \<Rightarrow> 'j ext_lib \<Rightarrow> 'txn \<Rightarrow> string \<Rightarrow> KubeMetadata \<Rightarrow> KubeWatchResult \<Rightarrow> ResourceSummary \<Rightarrow> bool" where
  "summary_before B P X t key md rec old \<longleftrightarrow>
     ResourceSummaryTable_Get B P t key = Ok old
   \<or> (ResourceSummaryTable_Get B P t key = Err ErrKeyNotFound \<and>
      (\<exists>c. StringToProtobufTimestamp P X (km_CreationTimestamp md) = Ok c \<and>
        old = \<lparr>rsum_FirstSeen = wr_Timestamp rec, rsum_LastSeen = None, rsum_CreateTime = Some c,
          rsum_DeletedAtEnd = False, rsum_Relationships = []\<rparr>))"

lemma getRelationships_eq:
  assumes "GetPartitionId pd ts = Ok part"
  shows "getRelationships pd ts ns refs = Ok (map (\<lambda>r. ResourceSummaryKey_String
    \<lparr>rk_PartitionId = part, rk_Kind = or_Kind r, rk_Namespace = ns, rk_Name = or_Name r, rk_Uid = or_Uid r\<rparr>) refs)"
  by (induction refs) (simp_all add: NewResourceSummaryKey_def assms)

text \<open>
  C6: the summary of a resource follows its history. For a record that is not an event, whose
  key can be stored, the update succeeds and the stored summary is then: last seen at the
  record's time; first seen where it was, unless the record is an addition, which moves it to the
  record's time; created when it was; deleted when it was deleted before (an addition does not
  take that back) or the record is a deletion; related to the owners that the record names, with
  keys in the record's partition. Other rows of all tables stay.
\<close>

theorem summary_follows_history:
  assumes "badger_store B dview dok tview tok writable ahead iopts" "tok t" "writable t"
    and "wr_Kind rec \<noteq> EventKind" "ptypes_Timestamp P (wr_Timestamp rec) = Ok ts" "GetPartitionId pd ts = Ok part"
    and k: "k = \<lparr>rk_PartitionId = part, rk_Kind = wr_Kind rec, rk_Namespace = km_Namespace md,
       rk_Name = km_Name md, rk_Uid = km_Uid md\<rparr>" "ressum_key_wf k"
    and "summary_before B P X t (ResourceSummaryKey_String k) md rec old" "\<forall>v. codec_ok (ressum_codec P) v"
  shows "\<exists>t' new. updateResourceSummaryTable B P X pd t rec md = (Ok (), t') \<and> tok t' \<and> writable t'
    \<and> ResourceSummaryTable_Get B P t' (ResourceSummaryKey_String k) = Ok new
    \<and> rsum_LastSeen new = wr_Timestamp rec
    \<and> rsum_FirstSeen new = (if wr_WatchType rec = KubeWatchResult_ADD then wr_Timestamp rec else rsum_FirstSeen old)
    \<and> rsum_CreateTime new = rsum_CreateTime old
    \<and> (rsum_DeletedAtEnd new \<longleftrightarrow> rsum_DeletedAtEnd old \<or> wr_WatchType rec = KubeWatchResult_DELETE)
    \<and> rsum_Relationships new = map (\<lambda>r. ResourceSummaryKey_String \<lparr>rk_PartitionId = part, rk_Kind = or_Kind r,
        rk_Namespace = km_Namespace md, rk_Name = or_Name r, rk_Uid = or_Uid r\<rparr>) (km_OwnerReferences md)
    \<and> (\<forall>key. key \<noteq> ResourceSummaryKey_String k \<longrightarrow> tview t' key = tview t key)"
proof -
  let ?key = "ResourceSummaryKey_String k"
  let ?rels = "map (\<lambda>r. ResourceSummaryKey_String \<lparr>rk_PartitionId = part, rk_Kind = or_Kind r,
        rk_Namespace = km_Namespace md, rk_Name = or_Name r, rk_Uid = or_Uid r\<rparr>) (km_OwnerReferences md)"
  have nk: "NewResourceSummaryKey pd ts (wr_Kind rec) (km_Namespace md) (km_Name md) (km_Uid md) = Ok k"
    by (simp add: NewResourceSummaryKey_def assms(6) k(1))
  obtain val where val: "getResourceSummaryValue B P X t ?key md rec = Ok val" "rsum_LastSeen val = wr_Timestamp rec"
    "rsum_FirstSeen val = (if wr_WatchType rec = KubeWatchResult_ADD then wr_Timestamp rec else rsum_FirstSeen old)"
    "rsum_CreateTime val = rsum_CreateTime old"
    "rsum_DeletedAtEnd val \<longleftrightarrow> rsum_DeletedAtEnd old \<or> wr_WatchType rec = KubeWatchResult_DELETE"
    using assms(9) by (auto simp: summary_before_def getResourceSummaryValue_def Let_def)
  let ?new = "val\<lparr>rsum_Relationships := ?rels\<rparr>"
  obtain b where b: "c_Marshal (ressum_codec P) ?new = Ok b" "c_Unmarshal (ressum_codec P) b = Ok ?new"
    using assms(10) by (auto simp: codec_ok_def)
  have v: "k_ValidateKey ressum_key_ops ?key = Ok ()"
    using rsk.validate_string[OF k(2)] by (simp add: ressum_key_ops_def)
  have ne: "?key \<noteq> []" by (simp add: ResourceSummaryKey_String_def slashed_simps)
  obtain t' where t': "tbl_Set B ressum_key_ops (ressum_codec P) t ?key ?new = (Ok (), t')" "tok t'" "writable t'"
    "tview t' = (tview t)(?key \<mapsto> b)"
    using badger_store.tbl_Set_ok[OF assms(1-3) v ne b(1)] by blast
  have "updateResourceSummaryTable B P X pd t rec md = (Ok (), t')"
    using assms(4,5) t'(1) val(1)
    by (simp add: updateResourceSummaryTable_def nk getRelationships_eq[OF assms(6)] ResourceSummaryTable_Set_def Let_def)
  moreover have "ResourceSummaryTable_Get B P t' ?key = Ok ?new"
    using badger_store.tbl_Get_eq[OF assms(1) t'(2) v, of "ressum_codec P"] t'(4) b(2)
    by (simp add: ResourceSummaryTable_Get_def)
  ultimately show ?thesis
    using val t' by (intro exI[of _ t'] exI[of _ ?new] conjI) simp_all
qed

theorem summary_follows_history_witness:
  "\<exists>t' new. updateResourceSummaryTable mock_ops sample_pb sample_ext Hour (mock_NewTxn mock_Open False) sample_record
       (sample_md ''1'') = (Ok (), t')
    \<and> ResourceSummaryTable_Get mock_ops sample_pb t' ''/ressum/001546398000/Pod/ns/n/u'' = Ok new
    \<and> rsum_LastSeen new = wr_Timestamp sample_record \<and> \<not> rsum_DeletedAtEnd new"
proof -
  let ?k = "\<lparr>rk_PartitionId = ''001546398000'', rk_Kind = wr_Kind sample_record, rk_Namespace = km_Namespace (sample_md ''1''),
       rk_Name = km_Name (sample_md ''1''), rk_Uid = km_Uid (sample_md ''1'')\<rparr>"
  let ?t = "mock_NewTxn mock_Open False"
  obtain c where c: "StringToProtobufTimestamp sample_pb sample_ext (km_CreationTimestamp (sample_md ''1'')) = Ok c"
    by (simp add: StringToProtobufTimestamp_def sample_pb_def sample_ext_def sample_md_def)
  let ?old = "\<lparr>rsum_FirstSeen = wr_Timestamp sample_record, rsum_LastSeen = None, rsum_CreateTime = Some c,
          rsum_DeletedAtEnd = False, rsum_Relationships = []\<rparr>"
  have wfk: "ressum_key_wf ?k" by (simp add: key_wf_defs sample_record_def sample_md_def)
  have s: "ResourceSummaryKey_String ?k = ''/ressum/001546398000/Pod/ns/n/u''"
    by (simp add: ResourceSummaryKey_String_def sample_record_def sample_md_def slashed_simps table_names)
  have "k_ValidateKey ressum_key_ops (ResourceSummaryKey_String ?k) = Ok ()"
    using rsk.validate_string[OF wfk] by (simp add: ressum_key_ops_def)
  then have "ResourceSummaryTable_Get mock_ops sample_pb ?t (ResourceSummaryKey_String ?k) = Err ErrKeyNotFound"
    using mock.tbl_Get_eq[OF empty_txn(1)[of False], of ressum_key_ops "ResourceSummaryKey_String ?k" "ressum_codec sample_pb"]
    by (simp add: ResourceSummaryTable_Get_def empty_txn(3))
  then have old: "summary_before mock_ops sample_pb sample_ext ?t (ResourceSummaryKey_String ?k) (sample_md ''1'') sample_record ?old"
    using c by (simp add: summary_before_def)
  have ts: "ptypes_Timestamp sample_pb (wr_Timestamp sample_record) = Ok (Time 1546398000000000000 UTC)"
    by (simp add: sample_pb_def sample_record_def)
  have kd: "wr_Kind sample_record \<noteq> EventKind" by (simp add: sample_record_def EventKind_def)
  have ok: "\<forall>v. codec_ok (ressum_codec sample_pb) v" by (simp add: sample_pb_def sample_codecs_ok)
  from summary_follows_history[OF mock.badger_store_axioms empty_txn(1,2) kd ts sample_partition refl wfk old ok]
  show ?thesis unfolding s by (auto simp: sample_record_def KubeWatchResult_ADD_def KubeWatchResult_DELETE_def)
qed

section \<open>Minor updates of nodes\<close>

text \<open>
  A node's minor update is skipped. With minor updates switched off, when a newest version of
  the node is stored and both payloads can be cleaned of resource version and heartbeat times, the
  update succeeds; it writes nothing when the cleaned payloads are equal, and otherwise it is the
  write of the record under its key.
\<close>

lemma node_minor_update_skipped:
  assumes "wr_Kind rec = NodeKind"
    and "toWatchTableKey P pd (wr_Timestamp rec) NodeKind (km_Namespace md) (km_Name md) = Ok k"
    and "getLastKubeWatchResult B P pd t (wr_Timestamp rec) NodeKind (km_Namespace md) (km_Name md) = Ok (Some old)"
    and "removeResVerAndTimestamp X (wr_Payload old) = Ok a" "removeResVerAndTimestamp X (wr_Payload rec) = Ok b"
  shows "updateKubeWatchTable B P X pd t rec md False
    = (if a = b then (Ok (), t) else updateKubeWatchTable B P X pd t rec md True)"
  using assms
  by (auto simp: updateKubeWatchTable_def doesNodeHaveMajorUpdates_def NodeHasMajorUpdate_def)

lemma node_minor_update_skipped_witness:
  "updateKubeWatchTable mock_ops sample_pb sample_ext Hour
      (mock_NewTxn (one_version (sample_record\<lparr>wr_Kind := NodeKind\<rparr>)) False)
      (sample_record\<lparr>wr_Kind := NodeKind, wr_Payload := ''q''\<rparr>) (sample_md ''1'') False
    = (Ok (), mock_NewTxn (one_version (sample_record\<lparr>wr_Kind := NodeKind\<rparr>)) False)"
proof -
  let ?w = "sample_record\<lparr>wr_Kind := NodeKind\<rparr>" and ?v = "sample_record\<lparr>wr_Kind := NodeKind, wr_Payload := ''q''\<rparr>"
  have clean: "removeResVerAndTimestamp sample_ext p = Ok []" for p
    by (simp add: removeResVerAndTimestamp_def sample_ext_def)
  have "\<exists>k. toWatchTableKey sample_pb Hour (wr_Timestamp ?v) NodeKind (km_Namespace (sample_md ''1'')) (km_Name (sample_md ''1'')) = Ok k"
    by (simp add: toWatchTableKey_def sample_pb_def sample_record_def sample_partition)
  then obtain k where k: "toWatchTableKey sample_pb Hour (wr_Timestamp ?v) NodeKind (km_Namespace (sample_md ''1''))
      (km_Name (sample_md ''1'')) = Ok k" ..
  have l: "getLastKubeWatchResult mock_ops sample_pb Hour (mock_NewTxn (one_version ?w) False) (wr_Timestamp ?v) NodeKind
      (km_Namespace (sample_md ''1'')) (km_Name (sample_md ''1'')) = Ok (Some ?w)"
    using one_version_last[of ?w False]
    by (simp add: sample_md_def slash_free_def NodeKind_def sample_record_def sample_ts_def)
  from node_minor_update_skipped[OF _ k l clean clean] show ?thesis by simp
qed

end
