(* ===== verification/Debug.thy ===== *)
theory Debug
  imports Web DbUtil
begin

text \<open>
  The data of the debug pages (\<open>pkg/sloop/webserver/debug.go\<close>): the view of a key, the list of keys
  and the histogram of keys per table and partition. The encoders, the regular expressions, the
  estimated size of an item and its deletion mark (both of badger) are parameters.
\<close>

section \<open>One key\<close>

record keyView =
  kv_Key :: string
  kv_Payload :: string
  kv_ExtraName :: string
  kv_ExtraValue :: string

datatype table_value =
    WatchValue KubeWatchResult
  | SummaryValue ResourceSummary
  | CountsValue ResourceEventCounts
  | ActivityValue WatchActivity

record debug_lib =
  dl_MarshalIndent :: "table_value \<Rightarrow> string res"
  dl_Indent :: "string \<Rightarrow> string res"
  dl_regexp_Compile :: "string \<Rightarrow> (string \<Rightarrow> bool) res"
  dl_EstimatedSize :: "store_item \<Rightarrow> int"
  dl_IsDeletedOrExpired :: "store_item \<Rightarrow> bool"

definition jsonPrettyPrint :: "debug_lib \<Rightarrow> string \<Rightarrow> string" where
  "jsonPrettyPrint L inp = (case dl_Indent L inp of Ok out \<Rightarrow> out | _ \<Rightarrow> inp)"

text \<open>The value of a key from the first table whose keys it fits.\<close>

definition view_value ::
  "('db, 'txn, 'it) badger \<Rightarrow> pb_lib \<Rightarrow> 'txn \<Rightarrow> string \<Rightarrow> table_value res" where
  "view_value B P txn key =
    (if k_ValidateKey watch_key_ops key = Ok () then
       bind_res (KubeWatchResultTable_Get B P txn key) (\<lambda>kwr. Ok (WatchValue kwr))
     else if k_ValidateKey ressum_key_ops key = Ok () then
       bind_res (ResourceSummaryTable_Get B P txn key) (\<lambda>rs. Ok (SummaryValue rs))
     else if k_ValidateKey event_key_ops key = Ok () then
       bind_res (ResourceEventCountsTable_Get B P txn key) (\<lambda>ec. Ok (CountsValue ec))
     else if k_ValidateKey activity_key_ops key = Ok () then
       bind_res (WatchActivityTable_Get B P txn key) (\<lambda>wa. Ok (ActivityValue wa))
     else Err (Errorf (''Invalid key: '' @ key)))"

definition viewKeyHandler :: "('db, 'txn, 'it) badger \<Rightarrow> pb_lib \<Rightarrow> debug_lib \<Rightarrow> 'db \<Rightarrow> string \<Rightarrow> keyView res" where
  "viewKeyHandler B P L db key =
    bind_res (map_err (\<lambda>e. Wrapped e ''view transaction failed'') (db_View B db (\<lambda>txn. view_value B P txn key))) (\<lambda>valueFromTable.
      bind_res (map_err (\<lambda>e. Wrapped e (''Failed to marshal kubeWatchResult for key: '' @ key)) (dl_MarshalIndent L valueFromTable)) (\<lambda>prettyJson.
        Ok (case valueFromTable of
              WatchValue kwr \<Rightarrow> \<lparr>kv_Key = key, kv_Payload = prettyJson, kv_ExtraName = ''$.Payload'',
                kv_ExtraValue = jsonPrettyPrint L (wr_Payload kwr)\<rparr>
            | _ \<Rightarrow> \<lparr>kv_Key = key, kv_Payload = prettyJson, kv_ExtraName = [], kv_ExtraValue = []\<rparr>)))"

section \<open>Lists of keys\<close>

record keysData =
  kd_Keys :: "string list"
  kd_TotalKeys :: int
  kd_TotalSize :: int
  kd_KeysMatched :: int

definition debug_opts :: "string \<Rightarrow> iter_opts" where
  "debug_opts keyPrefix = DefaultIteratorOptions\<lparr>opt_Prefix := keyPrefix, opt_AllVersions := True, opt_InternalAccess := True\<rparr>"

text \<open>
  The regular expression is nil (\<open>None\<close>) when it did not compile: the handler logs that and goes on,
  and a nil expression panics at the first key. \<open>break\<close> leaves the loop over the keys of one table.
\<close>

definition match_key ::
  "debug_lib \<Rightarrow> (string \<Rightarrow> bool) option \<Rightarrow> int \<Rightarrow> store_item \<Rightarrow> keysData \<Rightarrow> (keysData, keysData res) flow" where
  "match_key L keyRegEx maxRows item d =
    (let d1 = d\<lparr>kd_TotalKeys := kd_TotalKeys d + 1\<rparr>; thisKey = item_key item
     in case keyRegEx of
          None \<Rightarrow> Return (Panic ''nil pointer dereference'')
        | Some re \<Rightarrow>
            if re thisKey then
              let d2 = d1\<lparr>kd_Keys := kd_Keys d1 @ [thisKey], kd_KeysMatched := kd_KeysMatched d1 + 1,
                         kd_TotalSize := kd_TotalSize d1 + dl_EstimatedSize L item\<rparr>
              in if kd_KeysMatched d2 \<ge> maxRows then Break d2 else Continue d2
            else Continue d1)"

fun list_by_regex ::
  "('db, 'txn, 'it) badger \<Rightarrow> debug_lib \<Rightarrow> (string \<Rightarrow> bool) option \<Rightarrow> int \<Rightarrow> 'txn \<Rightarrow> string list \<Rightarrow> keysData
     \<Rightarrow> keysData res option" where
  "list_by_regex B L keyRegEx maxRows txn [] d = Some (Ok d)"
| "list_by_regex B L keyRegEx maxRows txn (tablename # tablesToSearch) d =
    (let keyPrefix = (if tablename \<noteq> ''internal'' then ''/'' @ tablename @ ''/'' else [])
     in bind_ores (item_loop B (\<lambda>i. it_ValidForPrefix B i keyPrefix) (match_key L keyRegEx maxRows)
            (it_Rewind B (tx_NewIterator B txn (debug_opts keyPrefix))) d)
          (\<lambda>d'. list_by_regex B L keyRegEx maxRows txn tablesToSearch d'))"

definition keys_of_table ::
  "('db, 'txn, 'it) badger \<Rightarrow> int \<Rightarrow> 'db \<Rightarrow> int \<Rightarrow> int \<Rightarrow> string \<Rightarrow> string \<Rightarrow> string list res option" where
  "keys_of_table B pd db maxRows lookBack keySearch tablename =
    (if tablename = ''watch'' then KubeWatchResultTable_GetAllKeysForGivenPartitions B pd db
         (NewWatchTableKey [] [] [] [] zero_time) maxRows lookBack keySearch
     else if tablename = ''eventcount'' then ResourceEventCountsTable_GetAllKeysForGivenPartitions B pd db
         \<lparr>ec_PartitionId = [], ec_Kind = [], ec_Namespace = [], ec_Name = [], ec_Uid = []\<rparr> maxRows lookBack keySearch
     else if tablename = ''ressum'' then ResourceSummaryTable_GetAllKeysForGivenPartitions B pd db
         \<lparr>rk_PartitionId = [], rk_Kind = [], rk_Namespace = [], rk_Name = [], rk_Uid = []\<rparr> maxRows lookBack keySearch
     else if tablename = ''watchactivity'' then WatchActivityTable_GetAllKeysForGivenPartitions B pd db
         (NewWatchActivityKey [] [] [] [] []) maxRows lookBack keySearch
     else Some (Ok []))"

fun list_by_partition ::
  "('db, 'txn, 'it) badger \<Rightarrow> int \<Rightarrow> 'db \<Rightarrow> int \<Rightarrow> int \<Rightarrow> string \<Rightarrow> string list \<Rightarrow> string list res option" where
  "list_by_partition B pd db maxRows lookBack keySearch [] = Some (Ok [])"
| "list_by_partition B pd db maxRows lookBack keySearch (tablename # tablesToSearch) =
    bind_ores (keys_of_table B pd db maxRows lookBack keySearch tablename) (\<lambda>keys.
      bind_ores (list_by_partition B pd db maxRows lookBack keySearch tablesToSearch) (\<lambda>rest. Some (Ok (keys @ rest))))"

definition listKeysHandler ::
  "('db, 'txn, 'it) badger \<Rightarrow> debug_lib \<Rightarrow> int \<Rightarrow> 'db \<Rightarrow> url_values \<Rightarrow> keysData res option" where
  "listKeysHandler B L pd db query =
    (let table = cleanStringFromParam query ''table'' [];
         maxRows = numberFromParam query ''maxrows'' 1000;
         searchOption = cleanStringFromParam query ''searchOption'' [];
         tablesToSearch = (if table = ''all'' then [''watch'', ''eventcount'', ''ressum'', ''watchactivity''] else [table])
     in if searchOption = ''regex'' then
          (case dl_regexp_Compile L (params_Get query ''keymatch'') of
             Panic m \<Rightarrow> Some (Panic m)
           | Ok re \<Rightarrow> db_View B db (\<lambda>txn. list_by_regex B L (Some re) maxRows txn tablesToSearch
               \<lparr>kd_Keys = [], kd_TotalKeys = 0, kd_TotalSize = 0, kd_KeysMatched = 0\<rparr>)
           | Err e \<Rightarrow> db_View B db (\<lambda>txn. list_by_regex B L None maxRows txn tablesToSearch
               \<lparr>kd_Keys = [], kd_TotalKeys = 0, kd_TotalSize = 0, kd_KeysMatched = 0\<rparr>))
        else
          bind_ores (list_by_partition B pd db maxRows (numberFromParam query ''lookback'' 336)
              (params_Get query ''urlmatch'') tablesToSearch)
            (\<lambda>keys. let n = int (length keys)
              in Some (Ok \<lparr>kd_Keys = keys, kd_TotalKeys = n, kd_TotalSize = n, kd_KeysMatched = n\<rparr>)))"

section \<open>The histogram\<close>

record sloopKeyInfo =
  ski_MinimumSize :: int
  ski_MaximumSize :: int
  ski_TotalKeys :: int
  ski_TotalSize :: int
  ski_AverageSize :: int

record histogram =
  hg_HistogramMap :: "(SloopKey \<times> sloopKeyInfo) list"
  hg_TotalKeys :: int
  hg_TotalSloopKeys :: int
  hg_TotalEstimatedSize :: int
  hg_DeletedKeys :: int
  hg_TotalInternalKeys :: int
  hg_TotalInternalKeysSize :: int
  hg_TotalHeadKeys :: int
  hg_TotalMoveKeys :: int
  hg_TotalDiscardKeys :: int

definition empty_histogram :: histogram where
  "empty_histogram = \<lparr>hg_HistogramMap = [], hg_TotalKeys = 0, hg_TotalSloopKeys = 0, hg_TotalEstimatedSize = 0,
     hg_DeletedKeys = 0, hg_TotalInternalKeys = 0, hg_TotalInternalKeysSize = 0, hg_TotalHeadKeys = 0,
     hg_TotalMoveKeys = 0, hg_TotalDiscardKeys = 0\<rparr>"

definition add_size :: "int \<Rightarrow> sloopKeyInfo option \<Rightarrow> sloopKeyInfo" where
  "add_size sz info = (case info of
     None \<Rightarrow> \<lparr>ski_MinimumSize = sz, ski_MaximumSize = sz, ski_TotalKeys = 1, ski_TotalSize = sz, ski_AverageSize = sz\<rparr>
   | Some i \<Rightarrow>
       let n = ski_TotalKeys i + 1; tot = ski_TotalSize i + sz
       in \<lparr>ski_MinimumSize = (if sz < ski_MinimumSize i then sz else ski_MinimumSize i),
           ski_MaximumSize = (if sz > ski_MaximumSize i then sz else ski_MaximumSize i),
           ski_TotalKeys = n, ski_TotalSize = tot, ski_AverageSize = tot sdiv n\<rparr>)"

definition histogram_item :: "debug_lib \<Rightarrow> store_item \<Rightarrow> histogram \<Rightarrow> (histogram, histogram res) flow" where
  "histogram_item L item h =
    (let sz = dl_EstimatedSize L item;
         h1 = h\<lparr>hg_TotalEstimatedSize := hg_TotalEstimatedSize h + sz, hg_TotalKeys := hg_TotalKeys h + 1,
               hg_DeletedKeys := hg_DeletedKeys h + (if dl_IsDeletedOrExpired L item then 1 else 0)\<rparr>
     in if prefix ''!badger'' (item_key item) then
          let h2 = h1\<lparr>hg_TotalInternalKeys := hg_TotalInternalKeys h1 + 1,
                     hg_TotalInternalKeysSize := hg_TotalInternalKeysSize h1 + sz\<rparr>
          in Continue (if prefix ''!badger!head'' (item_key item) then h2\<lparr>hg_TotalHeadKeys := hg_TotalHeadKeys h2 + 1\<rparr>
             else if prefix ''!badger!move'' (item_key item) then h2\<lparr>hg_TotalMoveKeys := hg_TotalMoveKeys h2 + 1\<rparr>
             else if prefix ''!badger!discard'' (item_key item) then h2\<lparr>hg_TotalDiscardKeys := hg_TotalDiscardKeys h2 + 1\<rparr>
             else h2)
        else
          let h2 = h1\<lparr>hg_TotalSloopKeys := hg_TotalSloopKeys h1 + 1\<rparr>
          in case GetSloopKey item of
               Err e \<Rightarrow> Return (Err (Wrapped e ''failed to parse information about key''))
             | Panic m \<Rightarrow> Return (Panic m)
             | Ok sloopKey \<Rightarrow>
                 Continue (h2\<lparr>hg_HistogramMap :=
                   AList.update sloopKey (add_size sz (map_of (hg_HistogramMap h2) sloopKey)) (hg_HistogramMap h2)\<rparr>))"

definition histogramHandler ::
  "('db, 'txn, 'it) badger \<Rightarrow> debug_lib \<Rightarrow> 'db \<Rightarrow> url_values \<Rightarrow> histogram res option" where
  "histogramHandler B L db query =
    (let pre = params_Get query ''prefix''
     in if pre = [] then Some (Ok empty_histogram)
        else let pre' = (if pre = ''*'' then [] else pre)
             in db_View B db (\<lambda>txn. item_loop B (it_Valid B) (histogram_item L)
                  (it_Rewind B (tx_NewIterator B txn (debug_opts pre'))) empty_histogram))"

section \<open>Lemmas\<close>

text \<open>What a loop body keeps holds after the loop, whatever the iterator does.\<close>

lemma iter_loop_keeps:
  assumes loop: "iter_loop guard nxt body it s = Some r" and init: "P s"
    and step: "\<And>it s s'. P s \<Longrightarrow> body it s = Continue s' \<or> body it s = Break s' \<Longrightarrow> P s'"
    and return: "\<And>it s q. P s \<Longrightarrow> body it s = Return q \<Longrightarrow> Q q"
  shows "case r of Inl s' \<Rightarrow> P s' | Inr q \<Rightarrow> Q q"
proof -
  have "body = body \<longrightarrow> P s \<longrightarrow> (case r of Inl s' \<Rightarrow> P s' | Inr q \<Rightarrow> Q q)"
  proof (rule iter_loop.raw_induct[OF _ loop, where P =
      "\<lambda>g n b it s r. b = body \<longrightarrow> P s \<longrightarrow> (case r of Inl s' \<Rightarrow> P s' | Inr q \<Rightarrow> Q q)"])
    fix f g n b it s r
    assume IH: "\<And>g n b it s r. f g n b it s = Some r \<Longrightarrow>
        b = body \<longrightarrow> P s \<longrightarrow> (case r of Inl s' \<Rightarrow> P s' | Inr q \<Rightarrow> Q q)"
      and run: "(if g it then case b it s of Continue s' \<Rightarrow> f g n b (n it) s' | Break s' \<Rightarrow> Some (Inl s') | Return q \<Rightarrow> Some (Inr q)
          else Some (Inl s)) = Some r"
    show "b = body \<longrightarrow> P s \<longrightarrow> (case r of Inl s' \<Rightarrow> P s' | Inr q \<Rightarrow> Q q)"
    proof (intro impI)
      assume b: "b = body" and s: "P s"
      show "case r of Inl s' \<Rightarrow> P s' | Inr q \<Rightarrow> Q q"
        using run IH[of g n b "n it" _ r] step[OF s, of it] return[OF s, of it] b s
        by (cases "g it"; cases "body it s") auto
    qed
  qed
  then show ?thesis using init by simp
qed

lemma info_sum_update:
  fixes f :: "'v \<Rightarrow> int"
  shows "distinct (map fst xs) \<Longrightarrow> sum_list (map (f \<circ> snd) (AList.update k v xs))
    = sum_list (map (f \<circ> snd) xs) + f v - (case map_of xs k of None \<Rightarrow> 0 | Some w \<Rightarrow> f w)"
proof (induction xs)
  case (Cons x xs)
  then show ?case by (cases x) (auto simp: map_of_eq_None_iff[THEN iffD2] split: option.splits)
qed simp

definition info_ok :: "sloopKeyInfo \<Rightarrow> bool" where
  "info_ok i \<longleftrightarrow> 0 < ski_TotalKeys i \<and> ski_MinimumSize i \<le> ski_MaximumSize i
    \<and> ski_MinimumSize i * ski_TotalKeys i \<le> ski_TotalSize i \<and> ski_TotalSize i \<le> ski_MaximumSize i * ski_TotalKeys i
    \<and> ski_AverageSize i = ski_TotalSize i sdiv ski_TotalKeys i"

lemma add_size_ok: "info \<in> {None} \<union> Some ` Collect info_ok \<Longrightarrow> info_ok (add_size sz info)"
proof (cases info)
  case None
  then show ?thesis by (simp add: info_ok_def add_size_def)
next
  case (Some i)
  assume "info \<in> {None} \<union> Some ` Collect info_ok"
  then have i: "info_ok i" using Some by auto
  have pos: "0 \<le> ski_TotalKeys i" and lo: "ski_MinimumSize i * ski_TotalKeys i \<le> ski_TotalSize i"
    and hi: "ski_TotalSize i \<le> ski_MaximumSize i * ski_TotalKeys i"
    using i by (auto simp: info_ok_def)
  have m1: "sz * ski_TotalKeys i \<le> ski_TotalSize i" if "sz < ski_MinimumSize i"
    using mult_right_mono[OF less_imp_le[OF that] pos] lo by (rule order.trans)
  have m2: "ski_TotalSize i \<le> sz * ski_TotalKeys i" if "ski_MaximumSize i < sz"
    using hi mult_right_mono[OF less_imp_le[OF that] pos] by (rule order.trans)
  show ?thesis using i Some m1 m2
    by (auto simp: info_ok_def add_size_def Let_def algebra_simps)
qed

definition histogram_ok :: "histogram \<Rightarrow> bool" where
  "histogram_ok h \<longleftrightarrow> hg_TotalKeys h = hg_TotalSloopKeys h + hg_TotalInternalKeys h
    \<and> hg_TotalHeadKeys h + hg_TotalMoveKeys h + hg_TotalDiscardKeys h \<le> hg_TotalInternalKeys h
    \<and> distinct (map fst (hg_HistogramMap h))
    \<and> sum_list (map (ski_TotalKeys \<circ> snd) (hg_HistogramMap h)) = hg_TotalSloopKeys h
    \<and> sum_list (map (ski_TotalSize \<circ> snd) (hg_HistogramMap h)) + hg_TotalInternalKeysSize h = hg_TotalEstimatedSize h
    \<and> (\<forall>i \<in> snd ` set (hg_HistogramMap h). info_ok i)"

lemma update_values: "snd ` set (AList.update k v xs) \<subseteq> insert v (snd ` set xs)"
  by (induction xs) auto

lemma histogram_item_cases:
  "histogram_item L item h \<noteq> Break h'" "histogram_item L item h \<noteq> Return (Ok h')"
  by (simp_all add: histogram_item_def Let_def split: res.split)

text \<open>What an internal key changes.\<close>

lemma histogram_item_internal:
  assumes "histogram_item L item h = Continue h'" "prefix ''!badger'' (item_key item)"
  shows "hg_TotalKeys h' = hg_TotalKeys h + 1" "hg_TotalSloopKeys h' = hg_TotalSloopKeys h"
    "hg_TotalInternalKeys h' = hg_TotalInternalKeys h + 1" "hg_HistogramMap h' = hg_HistogramMap h"
    "hg_TotalEstimatedSize h' = hg_TotalEstimatedSize h + dl_EstimatedSize L item"
    "hg_TotalInternalKeysSize h' = hg_TotalInternalKeysSize h + dl_EstimatedSize L item"
    "hg_TotalHeadKeys h' + hg_TotalMoveKeys h' + hg_TotalDiscardKeys h'
       \<le> hg_TotalHeadKeys h + hg_TotalMoveKeys h + hg_TotalDiscardKeys h + 1"
  using assms by (auto simp: histogram_item_def Let_def split: if_splits)

lemma histogram_item_sloop:
  assumes "histogram_item L item h = Continue h'" "\<not> prefix ''!badger'' (item_key item)" "GetSloopKey item = Ok k"
  shows "hg_TotalKeys h' = hg_TotalKeys h + 1" "hg_TotalSloopKeys h' = hg_TotalSloopKeys h + 1"
    "hg_TotalInternalKeys h' = hg_TotalInternalKeys h"
    "hg_HistogramMap h' = AList.update k (add_size (dl_EstimatedSize L item) (map_of (hg_HistogramMap h) k)) (hg_HistogramMap h)"
    "hg_TotalEstimatedSize h' = hg_TotalEstimatedSize h + dl_EstimatedSize L item"
    "hg_TotalInternalKeysSize h' = hg_TotalInternalKeysSize h"
    "hg_TotalHeadKeys h' + hg_TotalMoveKeys h' + hg_TotalDiscardKeys h'
       = hg_TotalHeadKeys h + hg_TotalMoveKeys h + hg_TotalDiscardKeys h"
  using assms by (auto simp: histogram_item_def Let_def)

lemma histogram_item_ok:
  assumes "histogram_ok h" "histogram_item L item h = Continue h'"
  shows "histogram_ok h'"
proof (cases "prefix ''!badger'' (item_key item)")
  case True
  then show ?thesis using assms(1) histogram_item_internal[OF assms(2) True] by (simp add: histogram_ok_def)
next
  case False
  then obtain k where k: "GetSloopKey item = Ok k"
    using assms(2) by (cases "GetSloopKey item") (auto simp: histogram_item_def Let_def)
  note new = histogram_item_sloop[OF assms(2) False k]
  let ?m = "hg_HistogramMap h" and ?sz = "dl_EstimatedSize L item"
  let ?i = "add_size ?sz (map_of ?m k)"
  have d: "distinct (map fst ?m)" and all: "\<forall>i \<in> snd ` set ?m. info_ok i"
    using assms(1) by (simp_all add: histogram_ok_def)
  have old: "map_of ?m k \<in> {None} \<union> Some ` Collect info_ok"
    using all by (cases "map_of ?m k") (force dest: map_of_SomeD)+
  have new_ok: "info_ok ?i" by (rule add_size_ok[OF old])
  have infos: "\<forall>i \<in> snd ` set (hg_HistogramMap h'). info_ok i"
    unfolding new(4)
  proof
    fix i assume "i \<in> snd ` set (AList.update k ?i ?m)"
    then have "i = ?i \<or> i \<in> snd ` set ?m" using update_values[of k ?i ?m] by blast
    then show "info_ok i"
    proof
      assume "i = ?i" then show ?thesis using new_ok by simp
    next
      assume "i \<in> snd ` set ?m" then show ?thesis by (rule all[rule_format])
    qed
  qed
  have keys: "sum_list (map (ski_TotalKeys \<circ> snd) (hg_HistogramMap h')) = sum_list (map (ski_TotalKeys \<circ> snd) ?m) + 1"
    "sum_list (map (ski_TotalSize \<circ> snd) (hg_HistogramMap h')) = sum_list (map (ski_TotalSize \<circ> snd) ?m) + ?sz"
    unfolding new(4) info_sum_update[OF d] by (simp_all add: add_size_def Let_def split: option.split)
  have dist: "distinct (map fst (hg_HistogramMap h'))" unfolding new(4) using d by (rule distinct_update)
  have "sum_list (map (ski_TotalKeys \<circ> snd) (hg_HistogramMap h')) = hg_TotalSloopKeys h'"
    "sum_list (map (ski_TotalSize \<circ> snd) (hg_HistogramMap h')) + hg_TotalInternalKeysSize h' = hg_TotalEstimatedSize h'"
    using assms(1) keys new(2,5,6) by (simp_all add: histogram_ok_def)
  then show ?thesis using assms(1) infos dist new(1-3,7) by (simp add: histogram_ok_def)
qed

section \<open>Properties\<close>

text \<open>
  The histogram adds up. Whatever store is read, the page counts every key as the program's or
  as internal; the entries of the tables and partitions add up to the program's keys and, with
  the internal ones, to the estimated size; and every entry has its least and greatest size
  around its average.
\<close>

lemma histogram_adds_up:
  assumes "histogramHandler B L db query = Some (Ok h)"
  shows "hg_TotalKeys h = hg_TotalSloopKeys h + hg_TotalInternalKeys h
    \<and> hg_TotalHeadKeys h + hg_TotalMoveKeys h + hg_TotalDiscardKeys h \<le> hg_TotalInternalKeys h
    \<and> sum_list (map (ski_TotalKeys \<circ> snd) (hg_HistogramMap h)) = hg_TotalSloopKeys h
    \<and> sum_list (map (ski_TotalSize \<circ> snd) (hg_HistogramMap h)) + hg_TotalInternalKeysSize h = hg_TotalEstimatedSize h
    \<and> list_all (\<lambda>(k, i). 0 < ski_TotalKeys i \<and> ski_AverageSize i = ski_TotalSize i sdiv ski_TotalKeys i
         \<and> ski_MinimumSize i * ski_TotalKeys i \<le> ski_TotalSize i \<and> ski_TotalSize i \<le> ski_MaximumSize i * ski_TotalKeys i)
        (hg_HistogramMap h)"
proof -
  have e: "histogram_ok empty_histogram" by (simp add: histogram_ok_def empty_histogram_def)
  have "histogram_ok h"
  proof (cases "params_Get query ''prefix'' = []")
    case True
    then show ?thesis using assms e by (simp add: histogramHandler_def Let_def)
  next
    case False
    let ?pre = "if params_Get query ''prefix'' = ''*'' then [] else params_Get query ''prefix''"
    let ?it = "it_Rewind B (tx_NewIterator B (db_NewTxn B db True) (debug_opts ?pre))"
    obtain r where r: "iter_loop (it_Valid B) (it_Next B) (on_item B (histogram_item L)) ?it empty_histogram = Some r"
      and h: "case_sum Ok id r = Ok h"
      using assms False by (auto simp: histogramHandler_def Let_def db_View_def item_loop_def simp del: iter_loop.simps)
    have "case r of Inl h' \<Rightarrow> histogram_ok h' | Inr q \<Rightarrow> \<forall>h'. q \<noteq> Ok h'"
    proof (rule iter_loop_keeps[where P = histogram_ok and Q = "\<lambda>q. \<forall>h'. q \<noteq> Ok h'", OF r e])
      fix it s s' assume s: "histogram_ok s"
        and b: "on_item B (histogram_item L) it s = Continue s' \<or> on_item B (histogram_item L) it s = Break s'"
      obtain item where "histogram_item L item s = Continue s'"
        using b histogram_item_cases(1) by (cases "it_Item B it") (auto simp: on_item_def)
      then show "histogram_ok s'" by (rule histogram_item_ok[OF s])
    next
      fix it s q assume "on_item B (histogram_item L) it s = Return q"
      then show "\<forall>h'. q \<noteq> Ok h'"
        using histogram_item_cases(2) by (cases "it_Item B it") (auto simp: on_item_def)
    qed
    then show ?thesis using h by (cases r) auto
  qed
  then show ?thesis by (auto simp: histogram_ok_def info_ok_def list_all_iff)
qed

definition sample_debug :: debug_lib where
  "sample_debug = \<lparr>dl_MarshalIndent = (\<lambda>v. Ok []), dl_Indent = (\<lambda>s. Ok s), dl_regexp_Compile = (\<lambda>s. Ok (\<lambda>k. True)),
     dl_EstimatedSize = (\<lambda>i. int (length (item_key i))), dl_IsDeletedOrExpired = (\<lambda>i. False)\<rparr>"

lemma histogram_adds_up_witness:
  "\<exists>h. histogramHandler mock_ops sample_debug \<lparr>mock_data = [(''/watch/1/a/b/c/2'', ''v''), (''!badger!move/x'', ''w'')]\<rparr>
      [(''prefix'', [''*''])] = Some (Ok h) \<and> hg_TotalKeys h = hg_TotalSloopKeys h + hg_TotalInternalKeys h"
proof -
  let ?db = "\<lparr>mock_data = [(''/watch/1/a/b/c/2'', ''v''), (''!badger!move/x'', ''w'')]\<rparr>"
  have "\<exists>h. histogramHandler mock_ops sample_debug ?db [(''prefix'', [''*''])] = Some (Ok h)"
    by (simp add: histogramHandler_def params_Get_def db_View_def item_loop_def mock_ops_def mock_defs
        debug_opts_def DefaultIteratorOptions_def on_item_def iter_loop.simps histogram_item_def Let_def
        sample_debug_def empty_histogram_def GetSloopKey_def ParseKey_def add_size_def)
  then show ?thesis using histogram_adds_up[of mock_ops sample_debug ?db "[(''prefix'', [''*''])]"] by blast
qed

end
