(* ===== verification/WebServe.thy ===== *)
theory WebServe
  imports Server Debug
begin

text \<open>
  The answers of the web server: what each handler of \<open>webserver.go\<close>, \<open>debug.go\<close>, \<open>indexhandler.go\<close> and
  \<open>resourcehandler.go\<close> writes for a request, the middleware around it (\<open>middleware.go\<close>) and the routing to
  it. The rules of \<open>net/http\<close> for a response are modelled: the first byte or the first call of
  \<open>WriteHeader\<close> fixes the status and the headers. The template engine, the compression, the quoting of
  an address and the handlers of other packages are parameters.
\<close>

section \<open>Requests and responses\<close>

record request =
  rq_Method :: string
  rq_URL :: string
  rq_Path :: string
  rq_RawQuery :: string
  rq_Query :: url_values
  rq_Form :: url_values
  rq_Header :: "string \<Rightarrow> string"
  rq_Context :: "string \<rightharpoonup> string"

text \<open>A response, with what its request leaves in the log and in the counters.\<close>

record response =
  rs_Header :: "string \<rightharpoonup> string"
  rs_Sent :: "(int \<times> (string \<rightharpoonup> string)) option"
  rs_Body :: string
  rs_Log :: "(string \<times> string) list"
  rs_Counted :: "(int \<times> string) list"
  rs_Published :: "string list list"

text \<open>The names of headers are compared in the form \<open>Content-Type\<close>.\<close>

definition ascii_upper :: "char \<Rightarrow> char" where
  "ascii_upper c = (if 97 \<le> (of_char c :: nat) \<and> (of_char c :: nat) \<le> 122 then char_of ((of_char c :: nat) - 32) else c)"

fun canonical_from :: "bool \<Rightarrow> string \<Rightarrow> string" where
  "canonical_from up [] = []"
| "canonical_from up (c # s) = (if up then ascii_upper c else lower_char c) # canonical_from (c = CHR ''-'') s"

declare canonical_from.simps [simp del]

definition header_Set :: "string \<Rightarrow> string \<Rightarrow> response \<Rightarrow> response" where
  "header_Set k v w = w\<lparr>rs_Header := (rs_Header w)(canonical_from True k \<mapsto> v)\<rparr>"

definition WriteHeader :: "int \<Rightarrow> response \<Rightarrow> response" where
  "WriteHeader code w = (case rs_Sent w of None \<Rightarrow> w\<lparr>rs_Sent := Some (code, rs_Header w)\<rparr> | Some _ \<Rightarrow> w)"

definition http_Write :: "string \<Rightarrow> response \<Rightarrow> response" where
  "http_Write data w = (let w1 = WriteHeader 200 w in w1\<lparr>rs_Body := rs_Body w1 @ data\<rparr>)"

definition http_Error :: "string \<Rightarrow> int \<Rightarrow> response \<Rightarrow> response" where
  "http_Error msg code w =
    http_Write (msg @ [CHR 0x0A]) (WriteHeader code
      (header_Set ''X-Content-Type-Options'' ''nosniff'' (header_Set ''Content-Type'' ''text/plain; charset=utf-8'' w)))"

text \<open>What a client sees: a handler that has written nothing is answered with the status 200.\<close>

definition rs_status :: "response \<Rightarrow> int" where
  "rs_status w = (case rs_Sent w of None \<Rightarrow> 200 | Some (code, _) \<Rightarrow> code)"

definition rs_headers :: "response \<Rightarrow> string \<rightharpoonup> string" where
  "rs_headers w = (case rs_Sent w of None \<Rightarrow> rs_Header w | Some (_, h) \<Rightarrow> h)"

text \<open>A handler returns, or panics, which ends the connection, or may not return (\<open>None\<close>).\<close>

datatype served = Served response | Aborted string response

type_synonym http_handler = "request \<Rightarrow> response \<Rightarrow> served option"

section \<open>Handlers\<close>

record badgerTableInfo =
  bt_Level :: int
  bt_LeftKey :: string
  bt_RightKey :: string
  bt_KeyCount :: int
  bt_ID :: int
  bt_Size :: int

datatype page_data = IndexData indexData | ResourceData resourceData | KeyData keyView | KeysData keysData
  | HistogramData histogram | ConfigData string | NoData | TablesData "badgerTableInfo list"

text \<open>
  The libraries. An executed template and a backup write some bytes and then may return an error; the
  backup's bytes are those that leave the compressor.
\<close>

record ('db, 'tmpl) web_lib =
  wl_Quote :: "string \<Rightarrow> string"
  wl_ErrorText :: "gerror option \<Rightarrow> string"
  wl_HtmlEscape :: "string \<Rightarrow> string"
  wl_TypeByExtension :: "string \<Rightarrow> string"
  wl_URLString :: "string \<Rightarrow> string \<Rightarrow> string"
  wl_UnixNano :: int
  wl_files :: file_lib
  wl_runTextTemplate :: template_engine
  wl_Parse :: "string \<Rightarrow> string \<Rightarrow> 'tmpl res"
  wl_Execute :: "'tmpl \<Rightarrow> page_data \<Rightarrow> string \<times> gerror option"
  wl_write_error :: "gerror option"
  wl_zstd_NewWriter :: "unit res"
  wl_Backup :: "'db \<Rightarrow> int \<Rightarrow> string \<times> gerror option"
  wl_zstd_Close :: "'db \<Rightarrow> int \<Rightarrow> string \<times> gerror option"
  wl_Tables :: "'db \<Rightarrow> badgerTableInfo list"
  wl_other :: "handler \<Rightarrow> http_handler"

definition logWebError :: "('db, 'tmpl) web_lib \<Rightarrow> gerror option \<Rightarrow> string \<Rightarrow> request \<Rightarrow> response \<Rightarrow> response" where
  "logWebError L err note r w =
    http_Error (''Error rendering url: '' @ wl_Quote L (rq_URL r) @ ''.  Note: '' @ note @ ''. Error: '' @ wl_ErrorText L err) 500 w"

text \<open>\<open>if err != nil { logWebError(err, note, r, w); return }\<close>, and the rest.\<close>

definition or_error :: "('db, 'tmpl) web_lib \<Rightarrow> string \<Rightarrow> request \<Rightarrow> response \<Rightarrow> 'a res \<Rightarrow> ('a \<Rightarrow> served option) \<Rightarrow> served option" where
  "or_error L note r w res k = (case res of
     Ok x \<Rightarrow> k x | Err e \<Rightarrow> Some (Served (logWebError L (Some e) note r w)) | Panic m \<Rightarrow> Some (Aborted m w))"

text \<open>The same for the data of a page, whose error holds the note.\<close>

fun web_note :: "gerror \<Rightarrow> gerror option \<times> string" where
  "web_note (Wrapped e note) = (Some e, note)"
| "web_note (Errorf note) = (None, note)"
| "web_note e = (Some e, [])"

definition or_noted :: "('db, 'tmpl) web_lib \<Rightarrow> request \<Rightarrow> response \<Rightarrow> 'a res \<Rightarrow> ('a \<Rightarrow> served option) \<Rightarrow> served option" where
  "or_noted L r w res k = (case res of
     Ok x \<Rightarrow> k x | Err e \<Rightarrow> Some (Served (logWebError L (fst (web_note e)) (snd (web_note e)) r w)) | Panic m \<Rightarrow> Some (Aborted m w))"

definition getTemplate :: "('db, 'tmpl) web_lib \<Rightarrow> string \<Rightarrow> string \<Rightarrow> 'tmpl res" where
  "getTemplate L webFilesPath templateName = bind_res (readWebfile (wl_files L) webFilesPath templateName) (wl_Parse L templateName)"

definition stream :: "string \<Rightarrow> response \<Rightarrow> response" where
  "stream out w = (if out = [] then w else http_Write out w)"

definition execute_template :: "('db, 'tmpl) web_lib \<Rightarrow> 'tmpl \<Rightarrow> page_data \<Rightarrow> request \<Rightarrow> response \<Rightarrow> served option" where
  "execute_template L tmpl data r w = (case wl_Execute L tmpl data of
     (out, None) \<Rightarrow> Some (Served (stream out w))
   | (out, Some e) \<Rightarrow> Some (Served (logWebError L (Some e) ''Template.ExecuteTemplate failed'' r (stream out w))))"

definition serve_index :: "('db, 'tmpl) web_lib \<Rightarrow> WebConfig \<Rightarrow> http_handler" where
  "serve_index L config r w =
    or_error L ''Template.New failed'' r w (getTemplate L (wc_WebFilesPath config) ''index.html'') (\<lambda>indexTemplate.
      or_noted L r w (indexHandler (wl_runTextTemplate L) config) (\<lambda>data.
        execute_template L indexTemplate (IndexData data) r w))"

definition serve_resource :: "('db, 'tmpl) web_lib \<Rightarrow> WebConfig \<Rightarrow> http_handler" where
  "serve_resource L config r w =
    or_error L ''Template.New failed'' r w (getTemplate L (wc_WebFilesPath config) ''resource.html'') (\<lambda>resourceTemplate.
      or_noted L r w (resourceHandler (wl_runTextTemplate L) (wc_ResourceLinks config) (wc_CurrentContext config) (rq_URL r) (rq_Query r)) (\<lambda>d.
        execute_template L resourceTemplate (ResourceData d) r w))"

definition serve_webfile :: "('db, 'tmpl) web_lib \<Rightarrow> WebConfig \<Rightarrow> http_handler" where
  "serve_webfile L config r w =
    (let fixedUrl = trim_prefix (rq_URL r) (path_Join [''/'', wc_CurrentContext config, ''/webfiles''])
     in if contains_str fixedUrl ''..'' then Some (Served (logWebError L None ''Not allowed'' r w))
        else or_error L (''Error reading web file: '' @ fixedUrl) r w
          (webFileHandler (wl_files L) (wc_WebFilesPath config) (wc_CurrentContext config) (rq_URL r)) (\<lambda>data.
            let w1 = header_Set ''content-type'' (wl_TypeByExtension L (file_ext (GetFilePath webfiles_prefix fixedUrl))) w
            in case wl_write_error L of
                 None \<Rightarrow> Some (Served (http_Write data w1))
               | Some e \<Rightarrow> Some (Served (logWebError L (Some e) (''Error writing web file: '' @ fixedUrl) r (WriteHeader 200 w1)))))"

text \<open>\<open>strconv.ParseUint(s, 10, 64)\<close>, which takes no sign.\<close>

definition ParseUint :: "string \<Rightarrow> int res" where
  "ParseUint s = (if s = [] then Err (NumSyntax s) else bind_res (parse_digits s 0 s) (\<lambda>n. Ok (int n)))"

definition serve_backup :: "('db, 'tmpl) web_lib \<Rightarrow> WebConfig \<Rightarrow> 'db \<Rightarrow> http_handler" where
  "serve_backup L config db r w =
    (let sinceStr = (if params_Get (rq_Query r) ''since'' = [] then ''0'' else params_Get (rq_Query r) ''since'')
     in or_error L ''Error parsing 'since' parameter. Must be expressed as a positive integer.'' r w (ParseUint sinceStr) (\<lambda>since.
          let w1 = header_Set ''Transfer-Encoding'' ''chunked'' (header_Set ''Content-Type'' ''application/zstd''
              (header_Set ''Content-Encoding'' ''zstd'' (header_Set ''Content-Disposition''
                (''attachment; filename=sloop-'' @ wc_CurrentContext config @ ''-'' @ format_int since @ ''.bak.zst'') w)))
          in or_error L ''Error configuring compression'' r w1 (wl_zstd_NewWriter L) (\<lambda>_.
            case wl_Backup L db since of
              (out, Some e) \<Rightarrow> Some (Served (logWebError L (Some e) ''Error writing backup'' r (stream out w1)))
            | (out, None) \<Rightarrow>
                (case wl_zstd_Close L db since of
                   (out', Some e) \<Rightarrow> Some (Served (logWebError L (Some e) ''Error writing backup'' r (stream (out @ out') w1)))
                 | (out', None) \<Rightarrow> Some (Served (WriteHeader 200 (stream (out @ out') w1)))))))"

text \<open>The queries; the parsers and encoders, the partition duration and the time are in front.\<close>

definition serve_query ::
  "('db, 'txn, 'it) badger \<Rightarrow> pb_lib \<Rightarrow> 'j ext_lib \<Rightarrow> json_lib \<Rightarrow> (string \<Rightarrow> int res) \<Rightarrow> (string \<Rightarrow> gotime res) \<Rightarrow> int
     \<Rightarrow> gotime \<Rightarrow> ('db, 'tmpl) web_lib \<Rightarrow> WebConfig \<Rightarrow> 'db \<Rightarrow> http_handler" where
  "serve_query B P X J parseDuration parseLayout pd now L config db r w =
    (let w1 = header_Set ''content-type'' ''application/json'' w
     in case queryHandler B P X J parseDuration parseLayout pd now (rq_Query r) db (wc_MaxLookback config) of
          None \<Rightarrow> None
        | Some res \<Rightarrow> or_noted L r w1 res (\<lambda>data. Some (Served (http_Write data w1))))"

definition serve_health :: "http_handler" where
  "serve_health r w = Some (Served (http_Write ''OK'' (WriteHeader 200 w)))"

text \<open>\<open>http.Redirect\<close> to a rooted and clean path, with the link that it writes for \<open>GET\<close>.\<close>

definition http_Redirect :: "('db, 'tmpl) web_lib \<Rightarrow> string \<Rightarrow> int \<Rightarrow> string \<Rightarrow> request \<Rightarrow> response \<Rightarrow> response" where
  "http_Redirect L url code status r w =
    (let hadCT = rs_Header w ''Content-Type'' \<noteq> None;
         w1 = header_Set ''Location'' url w;
         w2 = (if \<not> hadCT \<and> rq_Method r \<in> {''GET'', ''HEAD''} then header_Set ''Content-Type'' ''text/html; charset=utf-8'' w1 else w1);
         w3 = WriteHeader code w2
     in if \<not> hadCT \<and> rq_Method r = ''GET''
        then http_Write (''<a href='' @ [CHR 0x22] @ wl_HtmlEscape L url @ [CHR 0x22] @ ''>'' @ status @ ''</a>.'' @ [CHR 0x0A, CHR 0x0A]) w3 else w3)"

definition serve_redirect :: "('db, 'tmpl) web_lib \<Rightarrow> WebConfig \<Rightarrow> http_handler" where
  "serve_redirect L config r w = (case redirect_target (wc_CurrentContext config) (rq_Path r) of
     None \<Rightarrow> Some (Served (http_Write ''Not Found'' (WriteHeader 404 w)))
   | Some redirectURL \<Rightarrow> Some (Served (http_Redirect L redirectURL 307 ''Temporary Redirect'' r w)))"

section \<open>Debug pages\<close>

definition serve_view_key :: "('db, 'txn, 'it) badger \<Rightarrow> pb_lib \<Rightarrow> debug_lib \<Rightarrow> ('db, 'tmpl) web_lib \<Rightarrow> WebConfig \<Rightarrow> 'db \<Rightarrow> http_handler" where
  "serve_view_key B P D L config db r w =
    (let w1 = header_Set ''content-type'' ''text/html'' w
     in or_noted L r w1 (viewKeyHandler B P D db (params_Get (rq_Form r) ''k'')) (\<lambda>data.
          or_error L ''failed to parse template'' r w1 (getTemplate L (wc_WebFilesPath config) ''debugviewkey.html'') (\<lambda>tmpl.
            execute_template L tmpl (KeyData data) r w1)))"

text \<open>The note for an invalid regular expression is written, and the handler goes on.\<close>

definition serve_list_keys :: "('db, 'txn, 'it) badger \<Rightarrow> debug_lib \<Rightarrow> int \<Rightarrow> ('db, 'tmpl) web_lib \<Rightarrow> WebConfig \<Rightarrow> 'db \<Rightarrow> http_handler" where
  "serve_list_keys B D pd L config db r w =
    (let w0 = (case dl_regexp_Compile D (params_Get (rq_Query r) ''keymatch'') of
           Err e \<Rightarrow> if cleanStringFromParam (rq_Query r) ''searchOption'' [] = ''regex''
             then logWebError L (Some e) ''Invalid regex'' r w else w
         | _ \<Rightarrow> w)
     in case listKeysHandler B D pd db (rq_Query r) of
          None \<Rightarrow> None
        | Some res \<Rightarrow> or_error L ''Could not list keys'' r w0 res (\<lambda>result.
            let w1 = header_Set ''content-type'' ''text/html'' w0
            in or_error L ''failed to parse template'' r w1 (getTemplate L (wc_WebFilesPath config) ''debuglistkeys.html'') (\<lambda>tmpl.
                 execute_template L tmpl (KeysData result) r w1)))"

definition serve_histogram :: "('db, 'txn, 'it) badger \<Rightarrow> debug_lib \<Rightarrow> ('db, 'tmpl) web_lib \<Rightarrow> WebConfig \<Rightarrow> 'db \<Rightarrow> http_handler" where
  "serve_histogram B D L config db r w =
    (case histogramHandler B D db (rq_Query r) of
       None \<Rightarrow> None
     | Some res \<Rightarrow> or_error L ''Could not get histogram'' r w res (\<lambda>result.
         let w1 = header_Set ''content-type'' ''text/html'' w
         in or_error L ''failed to parse histogram template'' r w1 (getTemplate L (wc_WebFilesPath config) ''debughistogram.html'') (\<lambda>tmpl.
              execute_template L tmpl (HistogramData result) r w1)))"

definition serve_config :: "('db, 'tmpl) web_lib \<Rightarrow> WebConfig \<Rightarrow> http_handler" where
  "serve_config L config r w =
    or_error L ''failed to parse template'' r w (getTemplate L (wc_WebFilesPath config) ''debugconfig.html'') (\<lambda>tmpl.
      execute_template L tmpl (ConfigData (wc_ConfigYaml config)) r w)"

definition serve_debug :: "('db, 'tmpl) web_lib \<Rightarrow> WebConfig \<Rightarrow> http_handler" where
  "serve_debug L config r w =
    or_error L ''failed to parse template'' r w (getTemplate L (wc_WebFilesPath config) ''debug.html'') (\<lambda>tmpl.
      execute_template L tmpl NoData r w)"

definition serve_tables :: "('db, 'tmpl) web_lib \<Rightarrow> WebConfig \<Rightarrow> 'db \<Rightarrow> http_handler" where
  "serve_tables L config db r w =
    or_error L ''failed to parse template'' r w (getTemplate L (wc_WebFilesPath config) ''debugtables.html'') (\<lambda>tmpl.
      execute_template L tmpl (TablesData (wl_Tables L db)) r w)"

section \<open>Middleware\<close>

definition requestIDKey :: string where "requestIDKey = ''reqId''"

definition getRequestId :: "request \<Rightarrow> string" where
  "getRequestId r = (case rq_Context r requestIDKey of Some requestID \<Rightarrow> requestID | None \<Rightarrow> ''unknown'')"

text \<open>What is done once the next handler has returned; a panic goes past it.\<close>

definition after_served :: "(response \<Rightarrow> response) \<Rightarrow> served option \<Rightarrow> served option" where
  "after_served f s = (case s of Some (Served w) \<Rightarrow> Some (Served (f w)) | _ \<Rightarrow> s)"

definition traceMiddleware :: "('db, 'tmpl) web_lib \<Rightarrow> http_handler \<Rightarrow> http_handler" where
  "traceMiddleware L next1 r w =
    (let requestID = (if rq_Header r ''X-Request-Id'' = [] then format_int (wl_UnixNano L sdiv 1000) else rq_Header r ''X-Request-Id'')
     in next1 (r\<lparr>rq_Context := (rq_Context r)(requestIDKey \<mapsto> requestID)\<rparr>) (header_Set ''X-Request-Id'' requestID w))"

definition glogMiddleware :: "http_handler \<Rightarrow> http_handler" where
  "glogMiddleware next1 r w = after_served (\<lambda>w. w\<lparr>rs_Log := rs_Log w @ [(getRequestId r, rq_URL r)]\<rparr>) (next1 r w)"

definition userMetricsMiddleware ::
  "UserMetricsConfig list \<times> string list \<Rightarrow> bool \<Rightarrow> string \<Rightarrow> http_handler \<Rightarrow> http_handler" where
  "userMetricsMiddleware metrics enableUserMetrics handlerName next1 r w =
    after_served (\<lambda>w. case PublishHeaderMetrics metrics (rq_Header r) (user_tags handlerName (rq_Path r) (rq_Query r)) enableUserMetrics of
        None \<Rightarrow> w | Some values \<Rightarrow> w\<lparr>rs_Published := rs_Published w @ [values]\<rparr>) (next1 r w)"

text \<open>\<open>promhttp.InstrumentHandlerCounter\<close>, by the status and the name of the handler.\<close>

definition count_requests :: "string \<Rightarrow> http_handler \<Rightarrow> http_handler" where
  "count_requests handlerName next1 r w = after_served (\<lambda>w. w\<lparr>rs_Counted := rs_Counted w @ [(rs_status w, handlerName)]\<rparr>) (next1 r w)"

definition middlewareChain ::
  "('db, 'tmpl) web_lib \<Rightarrow> UserMetricsConfig list \<times> string list \<Rightarrow> bool \<Rightarrow> string \<Rightarrow> http_handler \<Rightarrow> http_handler" where
  "middlewareChain L metrics enabled handlerName next1 =
    count_requests handlerName (traceMiddleware L (glogMiddleware (userMetricsMiddleware metrics enabled handlerName next1)))"

definition metricCountMiddleware :: "UserMetricsConfig list \<times> string list \<Rightarrow> bool \<Rightarrow> string \<Rightarrow> http_handler \<Rightarrow> http_handler" where
  "metricCountMiddleware metrics enabled handlerName next1 = count_requests handlerName (userMetricsMiddleware metrics enabled handlerName next1)"

section \<open>Routing\<close>

text \<open>
  \<open>ServeMux.Handler\<close>: a path whose pattern is registered only with a slash behind it, and a path that
  is not clean, are redirected.
\<close>

definition cleanPath :: "string \<Rightarrow> string" where
  "cleanPath p =
    (let p1 = (if p = [] then ''/'' else if hd p \<noteq> CHR ''/'' then CHR ''/'' # p else p); np = path_Clean p1
     in if last p1 = CHR ''/'' \<and> np \<noteq> ''/'' then np @ ''/'' else np)"

datatype dispatch = Moved string | To handler | NotFound

definition mux_Handler :: "(string \<times> handler) list \<Rightarrow> string \<Rightarrow> dispatch" where
  "mux_Handler mux urlPath =
    (let path = cleanPath urlPath
     in if path \<notin> set (map fst mux) \<and> path @ ''/'' \<in> set (map fst mux) \<and> path \<noteq> [] \<and> last path \<noteq> CHR ''/'' then Moved (path @ ''/'')
        else if path \<noteq> urlPath then Moved path
        else case mux_match mux urlPath of Some h \<Rightarrow> To h | None \<Rightarrow> NotFound)"

text \<open>Everything the server is made of, the database apart.\<close>

record ('db, 'txn, 'it, 'j, 'tmpl) site =
  si_badger :: "('db, 'txn, 'it) badger"
  si_pb :: pb_lib
  si_ext :: "'j ext_lib"
  si_json :: json_lib
  si_debug :: debug_lib
  si_web :: "('db, 'tmpl) web_lib"
  si_ParseDuration :: "string \<Rightarrow> int res"
  si_ParseLayout :: "string \<Rightarrow> gotime res"
  si_pd :: int
  si_now :: gotime
  si_metrics :: "UserMetricsConfig list \<times> string list"
  si_config :: WebConfig

fun handler_name :: "handler \<Rightarrow> string" where
  "handler_name Redirect = ''root''"
| "handler_name Health = ''healthz''"
| "handler_name Metrics = ''metrics''"
| "handler_name Index = ''index''"
| "handler_name WebFile = ''webFile''"
| "handler_name BackupPage = ''backup''"
| "handler_name Query = ''query''"
| "handler_name ResourcePage = ''resource''"
| "handler_name h = ''debug''"

fun page_handler :: "('db, 'txn, 'it, 'j, 'tmpl) site \<Rightarrow> 'db \<Rightarrow> handler \<Rightarrow> http_handler" where
  "page_handler S db Redirect = serve_redirect (si_web S) (si_config S)"
| "page_handler S db Health = serve_health"
| "page_handler S db Index = serve_index (si_web S) (si_config S)"
| "page_handler S db WebFile = serve_webfile (si_web S) (si_config S)"
| "page_handler S db BackupPage = serve_backup (si_web S) (si_config S) db"
| "page_handler S db Query = serve_query (si_badger S) (si_pb S) (si_ext S) (si_json S) (si_ParseDuration S) (si_ParseLayout S)
     (si_pd S) (si_now S) (si_web S) (si_config S) db"
| "page_handler S db ResourcePage = serve_resource (si_web S) (si_config S)"
| "page_handler S db ListKeys = serve_list_keys (si_badger S) (si_debug S) (si_pd S) (si_web S) (si_config S) db"
| "page_handler S db HistogramPage = serve_histogram (si_badger S) (si_debug S) (si_web S) (si_config S) db"
| "page_handler S db TablesPage = serve_tables (si_web S) (si_config S) db"
| "page_handler S db ViewKey = serve_view_key (si_badger S) (si_pb S) (si_debug S) (si_web S) (si_config S) db"
| "page_handler S db ConfigPage = serve_config (si_web S) (si_config S)"
| "page_handler S db DebugIndex = serve_debug (si_web S) (si_config S)"
| "page_handler S db h = wl_other (si_web S) h"

definition route_handler :: "('db, 'txn, 'it, 'j, 'tmpl) site \<Rightarrow> 'db \<Rightarrow> handler \<Rightarrow> http_handler" where
  "route_handler S db h =
    (let enabled = wc_EnableUserMetrics (si_config S)
     in if h \<in> {Health, Metrics} then metricCountMiddleware (si_metrics S) enabled (handler_name h) (page_handler S db h)
        else middlewareChain (si_web S) (si_metrics S) enabled (handler_name h) (page_handler S db h))"

text \<open>The answer to a request, when the routes are registered.\<close>

definition new_response :: response where
  "new_response = \<lparr>rs_Header = Map.empty, rs_Sent = None, rs_Body = [], rs_Log = [], rs_Counted = [], rs_Published = []\<rparr>"

definition serve_request :: "('db, 'txn, 'it, 'j, 'tmpl) site \<Rightarrow> 'db \<Rightarrow> request \<Rightarrow> served option" where
  "serve_request S db r =
    (case mux_Handler (routes (wc_CurrentContext (si_config S))) (rq_Path r) of
       Moved path \<Rightarrow> Some (Served (http_Redirect (si_web S) (wl_URLString (si_web S) path (rq_RawQuery r)) 301 ''Moved Permanently'' r new_response))
     | NotFound \<Rightarrow> Some (Served (http_Error ''404 page not found'' 404 new_response))
     | To h \<Rightarrow> route_handler S db h r new_response)"

section \<open>Lemmas\<close>

text \<open>What a handler may do to a response: everything but what belongs to the middleware.\<close>

definition same_marks :: "response \<Rightarrow> response \<Rightarrow> bool" where
  "same_marks w w' \<longleftrightarrow> rs_Log w' = rs_Log w \<and> rs_Counted w' = rs_Counted w \<and> rs_Published w' = rs_Published w
     \<and> rs_headers w' ''X-Request-Id'' = rs_headers w ''X-Request-Id''
     \<and> rs_Header w' ''X-Request-Id'' = rs_Header w ''X-Request-Id''
     \<and> (rs_Sent w \<noteq> None \<longrightarrow> rs_Sent w' = rs_Sent w)"

lemma keeps_refl [simp]: "same_marks w w"
  by (simp add: same_marks_def)

lemma keeps_trans: "same_marks w w' \<Longrightarrow> same_marks w' w'' \<Longrightarrow> same_marks w w''"
  by (auto simp: same_marks_def rs_headers_def)

lemma keeps_WriteHeader: "same_marks w (WriteHeader code w)"
  by (auto simp: same_marks_def WriteHeader_def rs_headers_def split: option.split)

lemma keeps_Write: "same_marks w (http_Write data w)"
  by (auto simp: same_marks_def http_Write_def WriteHeader_def rs_headers_def split: option.split)

lemma keeps_Set: "canonical_from True k \<noteq> ''X-Request-Id'' \<Longrightarrow> same_marks w (header_Set k v w)"
  by (auto simp: same_marks_def header_Set_def rs_headers_def split: option.split)


lemma canonical_names [simp]:
  "canonical_from True ''content-type'' = ''Content-Type''" "canonical_from True ''Content-Type'' = ''Content-Type''"
  "canonical_from True ''X-Content-Type-Options'' = ''X-Content-Type-Options''" "canonical_from True ''Location'' = ''Location''"
  "canonical_from True ''Transfer-Encoding'' = ''Transfer-Encoding''" "canonical_from True ''Content-Encoding'' = ''Content-Encoding''"
  "canonical_from True ''Content-Disposition'' = ''Content-Disposition''" "canonical_from True ''X-Request-Id'' = ''X-Request-Id''"
  by code_simp+

text \<open>A handler that only does that, and returns or panics.\<close>

definition well_behaved :: "http_handler \<Rightarrow> bool" where
  "well_behaved h \<longleftrightarrow> (\<forall>r w w'. h r w = Some (Served w') \<longrightarrow> same_marks w w')"

definition keeping :: "response \<Rightarrow> served option \<Rightarrow> bool" where
  "keeping w s \<longleftrightarrow> (\<forall>w'. s = Some (Served w') \<longrightarrow> same_marks w w')"

lemma keeping_simps [simp]: "keeping w (Some (Served w')) \<longleftrightarrow> same_marks w w'" "keeping w (Some (Aborted m w'))" "keeping w None"
  by (simp_all add: keeping_def)

lemma keeps_logWebError [intro]: "same_marks v w \<Longrightarrow> same_marks v (logWebError L e note r w)"
  unfolding logWebError_def http_Error_def
  by (intro keeps_trans[OF _ keeps_Write] keeps_trans[OF _ keeps_WriteHeader] keeps_trans[OF _ keeps_Set]) simp_all

lemma keeps_stream [intro]: "same_marks v w \<Longrightarrow> same_marks v (stream out w)"
  by (simp add: stream_def keeps_trans[OF _ keeps_Write])

lemma keeps_more [intro]:
  "same_marks v w \<Longrightarrow> same_marks v (http_Write d w)" "same_marks v w \<Longrightarrow> same_marks v (WriteHeader c w)"
  "canonical_from True k \<noteq> ''X-Request-Id'' \<Longrightarrow> same_marks v w \<Longrightarrow> same_marks v (header_Set k x w)"
  using keeps_trans keeps_Write keeps_WriteHeader keeps_Set by blast+

lemma keeps_Redirect [intro]: "same_marks v w \<Longrightarrow> same_marks v (http_Redirect L u c s r w)"
  unfolding http_Redirect_def Let_def by (auto intro!: keeps_more)

lemma keeping_or_error:
  "same_marks v w \<Longrightarrow> (\<And>x. res = Ok x \<Longrightarrow> keeping v (k x)) \<Longrightarrow> keeping v (or_error L note r w res k)"
  "same_marks v w \<Longrightarrow> (\<And>x. res = Ok x \<Longrightarrow> keeping v (k x)) \<Longrightarrow> keeping v (or_noted L r w res k)"
  by (auto simp: or_error_def or_noted_def split: res.split)

lemma keeping_template: "same_marks v w \<Longrightarrow> keeping v (execute_template L t d r w)"
  by (auto simp: execute_template_def split: prod.split option.split)

lemmas keeping_intros = keeping_or_error keeping_template keeps_refl keeps_logWebError keeps_stream keeps_more keeps_Redirect

lemma pages_keep:
  assumes "\<And>h. well_behaved (wl_other (si_web S) h)"
  shows "keeping w (page_handler S db h r w)"
proof (cases h)
  case BackupPage
  show ?thesis
    by (auto simp: BackupPage serve_backup_def Let_def intro!: keeping_intros split: prod.split option.split)
next
  case ListKeys
  show ?thesis
    by (auto simp: ListKeys serve_list_keys_def Let_def intro!: keeping_intros split: res.split option.split)
next
  case WebFile
  show ?thesis
    by (auto simp: WebFile serve_webfile_def Let_def intro!: keeping_intros split: option.split)
next
  case Metrics
  then show ?thesis using assms by (simp add: keeping_def well_behaved_def)
next
  case Traces
  then show ?thesis using assms by (simp add: keeping_def well_behaved_def)
next
  case Events
  then show ?thesis using assms by (simp add: keeping_def well_behaved_def)
next
  case Vars
  then show ?thesis using assms by (simp add: keeping_def well_behaved_def)
qed (auto simp: serve_redirect_def serve_health_def serve_index_def serve_query_def serve_resource_def serve_histogram_def
    serve_tables_def serve_view_key_def serve_config_def serve_debug_def Let_def intro!: keeping_intros split: option.split)


text \<open>A path that is one of the patterns, and clean, gets to its handler.\<close>

lemma route_exact:
  assumes "ctx \<notin> {[], ''healthz'', ''metrics''}" "(p, h) \<in> set (routes ctx)" "cleanPath p = p"
  shows "mux_Handler (routes ctx) p = To h"
proof -
  have "map_of (routes ctx) p = Some h" using assms(1,2) routes_distinct map_of_is_SomeI by metis
  moreover have "p \<in> set (map fst (routes ctx))" using assms(2) by force
  ultimately show ?thesis using assms(3) by (simp add: mux_Handler_def mux_match_def)
qed

lemma routes_of_pages:
  "(''/'' @ ctx, Index) \<in> set (routes ctx)" "(''/'' @ ctx @ ''/data'', Query) \<in> set (routes ctx)"
  "(''/'' @ ctx @ ''/data/backup'', BackupPage) \<in> set (routes ctx)" "(''/'', Redirect) \<in> set (routes ctx)"
  by (simp_all add: routes_def Let_def)

lemma after_served_cong: "after_served f s = Some (Served w') \<longleftrightarrow> (\<exists>w. s = Some (Served w) \<and> w' = f w)"
  by (auto simp: after_served_def split: option.split served.split)

definition request_id :: "('db, 'tmpl) web_lib \<Rightarrow> request \<Rightarrow> string" where
  "request_id L r = (if rq_Header r ''X-Request-Id'' = [] then format_int (wl_UnixNano L sdiv 1000) else rq_Header r ''X-Request-Id'')"

text \<open>What the middleware adds to the answer of the page, which gets the request with its id.\<close>

lemma route_served:
  assumes "h \<notin> {Health, Metrics}"
  shows "route_handler S db h r w0 = Some (Served w') \<longleftrightarrow> (\<exists>w1.
     page_handler S db h (r\<lparr>rq_Context := (rq_Context r)(requestIDKey \<mapsto> request_id (si_web S) r)\<rparr>)
       (header_Set ''X-Request-Id'' (request_id (si_web S) r) w0) = Some (Served w1)
     \<and> w' = (let w2 = (case PublishHeaderMetrics (si_metrics S) (rq_Header r) (user_tags (handler_name h) (rq_Path r) (rq_Query r))
                  (wc_EnableUserMetrics (si_config S)) of None \<Rightarrow> w1 | Some values \<Rightarrow> w1\<lparr>rs_Published := rs_Published w1 @ [values]\<rparr>);
               w3 = w2\<lparr>rs_Log := rs_Log w2 @ [(request_id (si_web S) r, rq_URL r)]\<rparr>
           in w3\<lparr>rs_Counted := rs_Counted w3 @ [(rs_status w3, handler_name h)]\<rparr>))"
  using assms
  by (auto simp: route_handler_def middlewareChain_def count_requests_def traceMiddleware_def glogMiddleware_def
      userMetricsMiddleware_def after_served_cong getRequestId_def request_id_def[symmetric] Let_def cong: option.case_cong)

text \<open>The middleware leaves what the client sees of the answer.\<close>

lemma route_answer:
  assumes "h \<notin> {Health, Metrics}"
    and "page_handler S db h (r\<lparr>rq_Context := (rq_Context r)(requestIDKey \<mapsto> request_id (si_web S) r)\<rparr>)
       (header_Set ''X-Request-Id'' (request_id (si_web S) r) w0) = Some (Served w1)"
  shows "\<exists>w. route_handler S db h r w0 = Some (Served w) \<and> rs_status w = rs_status w1 \<and> rs_headers w = rs_headers w1 \<and> rs_Body w = rs_Body w1"
proof -
  have "\<exists>w. route_handler S db h r w0 = Some (Served w)" unfolding route_served[OF assms(1)] using assms(2) by blast
  then obtain w where w: "route_handler S db h r w0 = Some (Served w)" by blast
  then show ?thesis
    unfolding route_served[OF assms(1)] using assms(2) by (auto simp: Let_def rs_status_def rs_headers_def split: option.splits)
qed

lemma http_Redirect_sent:
  "rs_Sent w = None \<Longrightarrow> rs_status (http_Redirect L url code status r w) = code
     \<and> rs_headers (http_Redirect L url code status r w) ''Location'' = Some url"
  by (simp add: http_Redirect_def header_Set_def WriteHeader_def http_Write_def rs_status_def rs_headers_def Let_def)

text \<open>The path that \<open>path.Join\<close> builds from the root has two slashes, which \<open>path.Clean\<close> makes one.\<close>

lemma path_Clean_slashes: "path_Clean (CHR ''/'' # CHR ''/'' # s) = path_Clean (CHR ''/'' # s)"
proof -
  have "path_segments (CHR ''/'' # CHR ''/'' # s) = path_segments (CHR ''/'' # s)"
    by (simp add: path_segments_def is_rooted_def path_step_def)
  then show ?thesis by (simp add: path_Clean_def is_rooted_def)
qed

section \<open>Properties\<close>



definition sample_web :: "(MockDb, unit) web_lib" where
  "sample_web = \<lparr>wl_Quote = id, wl_ErrorText = (\<lambda>e. ''e''), wl_HtmlEscape = id, wl_TypeByExtension = id,
     wl_URLString = (\<lambda>p q. p), wl_UnixNano = 5000, wl_files = \<lparr>fl_ReadFile = (\<lambda>f. Ok []), fl_AssetNames = [], fl_Asset = (\<lambda>f. Ok [])\<rparr>,
     wl_runTextTemplate = (\<lambda>t d. Ok t), wl_Parse = (\<lambda>n t. Ok ()), wl_Execute = (\<lambda>t d. (''page'', None)), wl_write_error = None,
     wl_zstd_NewWriter = Ok (), wl_Backup = (\<lambda>db n. (''half'', Some (LibError []))), wl_zstd_Close = (\<lambda>db n. ([], None)),
     wl_Tables = (\<lambda>db. []), wl_other = (\<lambda>h r w. Some (Served w))\<rparr>"

definition sample_site :: "(MockDb, MockTxn, MockIterator, unit, unit) site" where
  "sample_site = \<lparr>si_badger = mock_ops, si_pb = sample_pb, si_ext = sample_ext,
     si_json = \<lparr>json_strings = (\<lambda>xs. Ok (concat xs)), json_timeline = (\<lambda>x. Ok []), json_payloads = (\<lambda>x. Ok []),
       json_events = (\<lambda>x. Ok []), json_summary = (\<lambda>x. Ok [])\<rparr>,
     si_debug = sample_debug, si_web = sample_web, si_ParseDuration = (\<lambda>s. Ok Hour), si_ParseLayout = (\<lambda>s. Err (LibError [])),
     si_pd = Hour, si_now = Time 1546398000000000000 UTC, si_metrics = ([], []),
     si_config = \<lparr>wc_BindAddress = [], wc_Port = 8080, wc_WebFilesPath = ''w'', wc_DefaultNamespace = [], wc_DefaultLookback = [],
       wc_DefaultResources = [], wc_MaxLookback = 14 * 24 * Hour, wc_ConfigYaml = [], wc_ResourceLinks = [], wc_LeftBarLinks = [],
       wc_CurrentContext = ''a'', wc_EnableUserMetrics = False\<rparr>\<rparr>"

definition sample_get :: "string \<Rightarrow> url_values \<Rightarrow> request" where
  "sample_get path query = \<lparr>rq_Method = ''GET'', rq_URL = path, rq_Path = path, rq_RawQuery = [], rq_Query = query, rq_Form = query,
     rq_Header = (\<lambda>n. if n = ''X-Request-Id'' then ''id7'' else []), rq_Context = Map.empty\<rparr>"

lemma sample_paths:
  "wc_CurrentContext (si_config sample_site) = ''a''" "si_web sample_site = sample_web"
  "cleanPath ''/'' = ''/''" "cleanPath ''/a/data'' = ''/a/data''" "cleanPath ''/a/data/backup'' = ''/a/data/backup''"
  "cleanPath ''/a'' = ''/a''"
  by (simp add: sample_site_def, simp add: sample_site_def, code_simp+)


text \<open>
  C17: the answer to a query is all or nothing. A request below the context is answered with the bytes of the
  query, as JSON and with the status 200, exactly when the query returns without an error; with an
  error the status is 500 and the body is the note alone; and a query that panics or does not
  return sends nothing.
\<close>

theorem query_answer_all_or_nothing:
  assumes "wc_CurrentContext (si_config S) \<notin> {[], ''healthz'', ''metrics''}"
    and "rq_Path r = ''/'' @ wc_CurrentContext (si_config S) @ ''/data''" "cleanPath (rq_Path r) = rq_Path r"
    and "res = RunQuery (si_badger S) (si_pb S) (si_ext S) (si_json S) (si_ParseDuration S) (si_ParseLayout S) (si_pd S) (si_now S)
      (params_Get (rq_Query r) ''query'') (rq_Query r) db (wc_MaxLookback (si_config S))"
  shows "case res of
      Some (Ok data) \<Rightarrow> \<exists>w. serve_request S db r = Some (Served w) \<and> rs_status w = 200 \<and> rs_Body w = data
        \<and> rs_headers w ''Content-Type'' = Some ''application/json''
    | Some (Err e) \<Rightarrow> \<exists>w. serve_request S db r = Some (Served w) \<and> rs_status w = 500
        \<and> rs_Body w = ''Error rendering url: '' @ wl_Quote (si_web S) (rq_URL r) @ ''.  Note: Failed to run query. Error: ''
            @ wl_ErrorText (si_web S) (Some e) @ [CHR 0x0A]
    | Some (Panic m) \<Rightarrow> \<exists>w. serve_request S db r = Some (Aborted m w) \<and> rs_Sent w = None
    | None \<Rightarrow> serve_request S db r = None"
proof -
  have to: "mux_Handler (routes (wc_CurrentContext (si_config S))) (rq_Path r) = To Query"
    using assms(1-3) routes_of_pages(2) route_exact by metis
  show ?thesis
    by (auto simp: assms(4) serve_request_def to route_handler_def middlewareChain_def count_requests_def traceMiddleware_def
        glogMiddleware_def userMetricsMiddleware_def serve_query_def queryHandler_def or_noted_def logWebError_def http_Error_def
        http_Write_def WriteHeader_def header_Set_def new_response_def rs_status_def rs_headers_def after_served_def Let_def
        split: option.split res.split)
qed


theorem query_answer_all_or_nothing_witness:
  "\<exists>w. serve_request sample_site mock_Open (sample_get ''/a/data'' [(''query'', [''Queries'']), (''lookback'', [''1h''])]) = Some (Served w)
    \<and> rs_status w = 200 \<and> rs_Body w = ''EventHeatMap'' \<and> rs_headers w ''Content-Type'' = Some ''application/json''"
proof -
  let ?r = "sample_get ''/a/data'' [(''query'', [''Queries'']), (''lookback'', [''1h''])]"
  have eot: "getEndOfTime mock_ops Hour (Time 1546398000000000000 UTC) mock_Open = Ok (Time 1546398000000000000 UTC)"
    using end_of_time_bounded[OF mock.badger_store_axioms, of mock_Open Hour "Time 1546398000000000000 UTC"]
    by (auto simp: mock_dok_def mock_Open_def valid_pd_def all_partitions_def table_partitions_def table_keys_def mock_dview_def
        tables_parse_def table_parses_def)
  have run: "RunQuery mock_ops sample_pb sample_ext (si_json sample_site) (\<lambda>s. Ok Hour) (\<lambda>s. Err (LibError [])) Hour (Time 1546398000000000000 UTC)
      ''Queries'' (rq_Query ?r) mock_Open (14 * 24 * Hour) = Some (Ok ''EventHeatMap'')"
    by (simp add: RunQuery_def computeTimeRange_def eot computeTimeRangeInternal_def params_Get_def LookbackParam_def StartTimeParam_def
        EndTimeParam_def sample_get_def funcMap_def QueryAvailableQueries_def GetNamesOfQueries_def Default_def sample_site_def
        case_prod_beta bind_ores_def)
  have "rq_Path ?r = ''/'' @ wc_CurrentContext (si_config sample_site) @ ''/data''" "cleanPath (rq_Path ?r) = rq_Path ?r"
    by (simp_all add: sample_paths sample_get_def)
  from query_answer_all_or_nothing[OF _ this refl, where db = mock_Open] run show ?thesis
    by (simp add: sample_paths params_Get_def) (simp add: sample_site_def sample_get_def)
qed


text \<open>
  C40: a backup that breaks off looks complete. When the database fails after the first bytes of a
  backup have been sent, the status is 200 all the same, and the note of the error is
  the end of what the client stores as its backup. When it fails before, the status is 500, but the note, in plain
  text, is announced as compressed.
\<close>

theorem broken_backup_looks_complete:
  assumes "wc_CurrentContext (si_config S) \<notin> {[], ''healthz'', ''metrics''}"
    and "rq_Path r = ''/'' @ wc_CurrentContext (si_config S) @ ''/data/backup''" "cleanPath (rq_Path r) = rq_Path r"
    and "params_Get (rq_Query r) ''since'' = []" "wl_zstd_NewWriter (si_web S) = Ok ()" "wl_Backup (si_web S) db 0 = (out, Some e)"
  shows "\<exists>w. serve_request S db r = Some (Served w) \<and> rs_status w = (if out = [] then 500 else 200)
    \<and> rs_headers w ''Content-Encoding'' = Some ''zstd''
    \<and> rs_Body w = out @ ''Error rendering url: '' @ wl_Quote (si_web S) (rq_URL r) @ ''.  Note: Error writing backup. Error: ''
        @ wl_ErrorText (si_web S) (Some e) @ [CHR 0x0A]"
proof -
  have to: "mux_Handler (routes (wc_CurrentContext (si_config S))) (rq_Path r) = To BackupPage"
    using assms(1-3) routes_of_pages(3) route_exact by metis
  have zero: "ParseUint ''0'' = Ok 0" by (simp add: ParseUint_def go_defs)
  show ?thesis
    unfolding serve_request_def to
    by (simp add: route_served serve_backup_def assms(4-6) zero or_error_def Let_def)
      (auto simp: logWebError_def http_Error_def stream_def http_Write_def WriteHeader_def header_Set_def new_response_def
        rs_status_def rs_headers_def split: option.split)
qed

theorem broken_backup_looks_complete_witness:
  "\<exists>w. serve_request sample_site mock_Open (sample_get ''/a/data/backup'' []) = Some (Served w) \<and> rs_status w = 200
    \<and> prefix ''halfError'' (rs_Body w)"
proof -
  let ?r = "sample_get ''/a/data/backup'' []"
  have "rq_Path ?r = ''/'' @ wc_CurrentContext (si_config sample_site) @ ''/data/backup''" "cleanPath (rq_Path ?r) = rq_Path ?r"
    "params_Get (rq_Query ?r) ''since'' = []" "wl_zstd_NewWriter (si_web sample_site) = Ok ()"
    "wl_Backup (si_web sample_site) mock_Open 0 = (''half'', Some (LibError []))"
    by (simp_all add: sample_paths sample_get_def params_Get_def sample_web_def)
  from broken_backup_looks_complete[OF _ this] show ?thesis by (auto simp: sample_paths)
qed

text \<open>
  The way to the page. The root of the server redirects to the clean form of the path of the
  context. The request that follows is answered by the page exactly when that path is clean already;
  for any other context with which the routes are registered, the page is never reached
  under its own address.
\<close>

lemma root_leads_to_page:
  assumes "ctx = wc_CurrentContext (si_config S)" "ctx \<notin> {[], ''healthz'', ''metrics''}" "last ctx \<noteq> CHR ''/''" "rq_Path r = ''/''"
  shows "\<exists>w. serve_request S db r = Some (Served w) \<and> rs_status w = 307
    \<and> rs_headers w ''Location'' = Some (path_Clean (''/'' @ ctx))
    \<and> (mux_Handler (routes ctx) (''/'' @ ctx) = To Index \<longleftrightarrow> path_Clean (''/'' @ ctx) = ''/'' @ ctx)"
proof -
  have to: "mux_Handler (routes ctx) (rq_Path r) = To Redirect"
    using assms(2,4) routes_of_pages(4) route_exact sample_paths(3) by metis
  have "redirect_target ctx ''/'' = Some (path_Clean (''/'' @ ctx))"
    using assms(2) by (simp add: redirect_target_def path_Join_def path_join_raw_def path_Clean_slashes)
  then have "page_handler S db Redirect (r\<lparr>rq_Context := c\<rparr>) w0
      = Some (Served (http_Redirect (si_web S) (path_Clean (''/'' @ ctx)) 307 ''Temporary Redirect'' (r\<lparr>rq_Context := c\<rparr>) w0))" for c w0
    by (simp add: serve_redirect_def assms(1)[symmetric] assms(4))
  note page = this
  let ?w0 = "header_Set ''X-Request-Id'' (request_id (si_web S) r) new_response"
  have sent: "rs_Sent ?w0 = None" by (simp add: header_Set_def new_response_def)
  obtain w where w: "route_handler S db Redirect r new_response = Some (Served w)" "rs_status w = 307"
    "rs_headers w ''Location'' = Some (path_Clean (''/'' @ ctx))"
    using route_answer[OF _ page] http_Redirect_sent[OF sent] by (metis (no_types, lifting) empty_iff handler.distinct(1,3) insert_iff)
  then have "\<exists>w. serve_request S db r = Some (Served w) \<and> rs_status w = 307
    \<and> rs_headers w ''Location'' = Some (path_Clean (''/'' @ ctx))"
    by (simp add: serve_request_def assms(1)[symmetric] to)
  moreover have clean: "cleanPath (''/'' @ ctx) = path_Clean (''/'' @ ctx)"
    using assms(2,3) by (simp add: cleanPath_def)
  have "mux_Handler (routes ctx) (''/'' @ ctx) = To Index \<longleftrightarrow> path_Clean (''/'' @ ctx) = ''/'' @ ctx"
  proof
    assume "mux_Handler (routes ctx) (''/'' @ ctx) = To Index"
    then have "cleanPath (''/'' @ ctx) = ''/'' @ ctx" by (auto simp: mux_Handler_def Let_def split: if_splits)
    then show "path_Clean (''/'' @ ctx) = ''/'' @ ctx" using clean by simp
  qed (use assms(2) routes_of_pages(1) route_exact clean in metis)
  ultimately show ?thesis by blast
qed

lemma root_leads_to_page_witness:
  "\<exists>w. serve_request sample_site mock_Open (sample_get ''/'' []) = Some (Served w) \<and> rs_headers w ''Location'' = Some ''/a''
    \<and> mux_Handler (routes ''a'') ''/a'' = To Index"
proof -
  have "path_Clean ''/a'' = ''/a''" by code_simp
  then show ?thesis
    using root_leads_to_page[of "''a''" sample_site "sample_get ''/'' []" mock_Open]
    by (auto simp: sample_paths sample_get_def)
qed

end
