(* ===== verification/BadgerWrapper.thy ===== *)
theory BadgerWrapper
  imports Badgerwrap GoFloat
begin

text \<open>
  \<open>badgerwrap/badger.go\<close>: the implementation of the interface on the database itself. Each type is a
  struct around the one of the library; the operations of the library, whose documented behaviour is
  the contract \<open>badger_store\<close>, are the parameter. The structs satisfy the contract whenever the library
  does, and \<open>Update\<close> and \<open>View\<close> as the code has them, with their closures, are those of the interface.
\<close>

datatype 'd BadgerDb = BadgerDb (bd_db: 'd)
datatype 't BadgerTxn = BadgerTxn (bt_txn: 't)
datatype 'i BadgerIterator = BadgerIterator (bi_itr: 'i)

text \<open>The operations on a database that do not read or write rows.\<close>

record ('opt, 'd, 'info) badger_admin =
  ba_Open :: "'opt \<Rightarrow> 'd res"
  ba_Close :: "'d \<Rightarrow> gerror option \<times> 'd"
  ba_Sync :: "'d \<Rightarrow> gerror option \<times> 'd"
  ba_Size :: "'d \<Rightarrow> int \<times> int"
  ba_Tables :: "'d \<Rightarrow> bool \<Rightarrow> 'info list"
  ba_Backup :: "'d \<Rightarrow> int \<Rightarrow> string \<times> int res"
  ba_Flatten :: "'d \<Rightarrow> int \<Rightarrow> gerror option \<times> 'd"
  ba_Load :: "'d \<Rightarrow> string \<Rightarrow> int \<Rightarrow> gerror option \<times> 'd"
  ba_RunValueLogGC :: "'d \<Rightarrow> f64 \<Rightarrow> gerror option \<times> 'd"

section \<open>The database\<close>

definition BadgerFactory_Open :: "('opt, 'd, 'info) badger_admin \<Rightarrow> 'opt \<Rightarrow> 'd BadgerDb res" where
  "BadgerFactory_Open A opt =
    bind_res (map_err (\<lambda>e. Wrapped e ''Failed to open badger'') (ba_Open A opt)) (\<lambda>db. Ok (BadgerDb db))"

definition BadgerDb_Close :: "('opt, 'd, 'info) badger_admin \<Rightarrow> 'd BadgerDb \<Rightarrow> gerror option \<times> 'd BadgerDb" where
  "BadgerDb_Close A b = map_prod id BadgerDb (ba_Close A (bd_db b))"

definition BadgerDb_Sync :: "('opt, 'd, 'info) badger_admin \<Rightarrow> 'd BadgerDb \<Rightarrow> gerror option \<times> 'd BadgerDb" where
  "BadgerDb_Sync A b = map_prod id BadgerDb (ba_Sync A (bd_db b))"

definition BadgerDb_Update ::
  "('d, 't, 'i) badger \<Rightarrow> 'd BadgerDb \<Rightarrow> ('t BadgerTxn \<Rightarrow> 'a res \<times> 't BadgerTxn) \<Rightarrow> 'a res \<times> 'd BadgerDb" where
  "BadgerDb_Update B b fn = map_prod id BadgerDb (db_Update B (bd_db b) (\<lambda>txn. map_prod id bt_txn (fn (BadgerTxn txn))))"

definition BadgerDb_View :: "('d, 't, 'i) badger \<Rightarrow> 'd BadgerDb \<Rightarrow> ('t BadgerTxn \<Rightarrow> 'a) \<Rightarrow> 'a" where
  "BadgerDb_View B b fn = db_View B (bd_db b) (\<lambda>txn. fn (BadgerTxn txn))"

definition BadgerDb_DropPrefix :: "('d, 't, 'i) badger \<Rightarrow> 'd BadgerDb \<Rightarrow> string \<Rightarrow> gerror option \<times> 'd BadgerDb" where
  "BadgerDb_DropPrefix B b p = map_prod id BadgerDb (db_DropPrefix B (bd_db b) p)"

definition BadgerDb_Size :: "('opt, 'd, 'info) badger_admin \<Rightarrow> 'd BadgerDb \<Rightarrow> int \<times> int" where
  "BadgerDb_Size A b = ba_Size A (bd_db b)"

definition BadgerDb_Tables :: "('opt, 'd, 'info) badger_admin \<Rightarrow> 'd BadgerDb \<Rightarrow> bool \<Rightarrow> 'info list" where
  "BadgerDb_Tables A b withKeysCount = ba_Tables A (bd_db b) withKeysCount"

definition BadgerDb_Backup :: "('opt, 'd, 'info) badger_admin \<Rightarrow> 'd BadgerDb \<Rightarrow> int \<Rightarrow> string \<times> int res" where
  "BadgerDb_Backup A b since = ba_Backup A (bd_db b) since"

definition BadgerDb_Flatten :: "('opt, 'd, 'info) badger_admin \<Rightarrow> 'd BadgerDb \<Rightarrow> int \<Rightarrow> gerror option \<times> 'd BadgerDb" where
  "BadgerDb_Flatten A b workers = map_prod id BadgerDb (ba_Flatten A (bd_db b) workers)"

definition BadgerDb_Load :: "('opt, 'd, 'info) badger_admin \<Rightarrow> 'd BadgerDb \<Rightarrow> string \<Rightarrow> int \<Rightarrow> gerror option \<times> 'd BadgerDb" where
  "BadgerDb_Load A b r maxPendingWrites = map_prod id BadgerDb (ba_Load A (bd_db b) r maxPendingWrites)"

definition BadgerDb_RunValueLogGC :: "('opt, 'd, 'info) badger_admin \<Rightarrow> 'd BadgerDb \<Rightarrow> f64 \<Rightarrow> gerror option \<times> 'd BadgerDb" where
  "BadgerDb_RunValueLogGC A b discardRatio = map_prod id BadgerDb (ba_RunValueLogGC A (bd_db b) discardRatio)"

section \<open>Transactions and iterators\<close>

definition BadgerTxn_Get :: "('d, 't, 'i) badger \<Rightarrow> 't BadgerTxn \<Rightarrow> string \<Rightarrow> store_item res" where
  "BadgerTxn_Get B t key = tx_Get B (bt_txn t) key"

definition BadgerTxn_Set :: "('d, 't, 'i) badger \<Rightarrow> 't BadgerTxn \<Rightarrow> string \<Rightarrow> string \<Rightarrow> gerror option \<times> 't BadgerTxn" where
  "BadgerTxn_Set B t key val = map_prod id BadgerTxn (tx_Set B (bt_txn t) key val)"

definition BadgerTxn_Delete :: "('d, 't, 'i) badger \<Rightarrow> 't BadgerTxn \<Rightarrow> string \<Rightarrow> gerror option \<times> 't BadgerTxn" where
  "BadgerTxn_Delete B t key = map_prod id BadgerTxn (tx_Delete B (bt_txn t) key)"

definition BadgerTxn_NewIterator :: "('d, 't, 'i) badger \<Rightarrow> 't BadgerTxn \<Rightarrow> iter_opts \<Rightarrow> 'i BadgerIterator" where
  "BadgerTxn_NewIterator B t opt = BadgerIterator (tx_NewIterator B (bt_txn t) opt)"

definition BadgerItem_ValueCopy :: "('d, 't, 'i) badger \<Rightarrow> store_item \<Rightarrow> string res" where
  "BadgerItem_ValueCopy B i = im_ValueCopy B i"

definition BadgerIterator_Item :: "('d, 't, 'i) badger \<Rightarrow> 'i BadgerIterator \<Rightarrow> store_item option" where
  "BadgerIterator_Item B i = it_Item B (bi_itr i)"

definition BadgerIterator_Next :: "('d, 't, 'i) badger \<Rightarrow> 'i BadgerIterator \<Rightarrow> 'i BadgerIterator" where
  "BadgerIterator_Next B i = BadgerIterator (it_Next B (bi_itr i))"

definition BadgerIterator_Seek :: "('d, 't, 'i) badger \<Rightarrow> 'i BadgerIterator \<Rightarrow> string \<Rightarrow> 'i BadgerIterator" where
  "BadgerIterator_Seek B i key = BadgerIterator (it_Seek B (bi_itr i) key)"

definition BadgerIterator_Valid :: "('d, 't, 'i) badger \<Rightarrow> 'i BadgerIterator \<Rightarrow> bool" where
  "BadgerIterator_Valid B i = it_Valid B (bi_itr i)"

definition BadgerIterator_ValidForPrefix :: "('d, 't, 'i) badger \<Rightarrow> 'i BadgerIterator \<Rightarrow> string \<Rightarrow> bool" where
  "BadgerIterator_ValidForPrefix B i p = it_ValidForPrefix B (bi_itr i) p"

definition BadgerIterator_Rewind :: "('d, 't, 'i) badger \<Rightarrow> 'i BadgerIterator \<Rightarrow> 'i BadgerIterator" where
  "BadgerIterator_Rewind B i = BadgerIterator (it_Rewind B (bi_itr i))"

text \<open>The interface that the rest of the program gets.\<close>

definition wrapped_ops :: "('d, 't, 'i) badger \<Rightarrow> ('d BadgerDb, 't BadgerTxn, 'i BadgerIterator) badger" where
  "wrapped_ops B = \<lparr>
     db_NewTxn = (\<lambda>b ro. BadgerTxn (db_NewTxn B (bd_db b) ro)),
     db_EndTxn = (\<lambda>b t c. map_prod id BadgerDb (db_EndTxn B (bd_db b) (bt_txn t) c)),
     db_DropPrefix = BadgerDb_DropPrefix B, tx_Get = BadgerTxn_Get B, tx_Set = BadgerTxn_Set B, tx_Delete = BadgerTxn_Delete B,
     tx_NewIterator = BadgerTxn_NewIterator B, im_ValueCopy = BadgerItem_ValueCopy B, it_Item = BadgerIterator_Item B,
     it_Next = BadgerIterator_Next B, it_Seek = BadgerIterator_Seek B, it_Valid = BadgerIterator_Valid B,
     it_ValidForPrefix = BadgerIterator_ValidForPrefix B, it_Rewind = BadgerIterator_Rewind B\<rparr>"

lemmas wrapped_defs = wrapped_ops_def BadgerDb_DropPrefix_def BadgerTxn_Get_def BadgerTxn_Set_def BadgerTxn_Delete_def
  BadgerTxn_NewIterator_def BadgerItem_ValueCopy_def BadgerIterator_Item_def BadgerIterator_Next_def BadgerIterator_Seek_def
  BadgerIterator_Valid_def BadgerIterator_ValidForPrefix_def BadgerIterator_Rewind_def

lemma map_prod_id_eq [simp]: "map_prod id f p = (e, x) \<longleftrightarrow> (\<exists>y. p = (e, y) \<and> x = f y)"
  by (cases p) auto

lemma wrapped_contract:
  assumes "badger_store B dview dok tview tok writable ahead iopts"
  shows "badger_store (wrapped_ops B) (dview \<circ> bd_db) (dok \<circ> bd_db) (tview \<circ> bt_txn) (tok \<circ> bt_txn) (writable \<circ> bt_txn)
    (ahead \<circ> bi_itr) (iopts \<circ> bi_itr)"
proof (unfold_locales, goal_cases)
  case (2 b t err b')
  then show ?case
    using badger_store.commit[OF assms, of "bd_db b" "bt_txn t" err "bd_db b'"] by (auto simp: wrapped_defs)
next
  case (3 b t err b')
  then show ?case
    using badger_store.abort[OF assms, of "bd_db b" "bt_txn t" err "bd_db b'"] by (auto simp: wrapped_defs)
next
  case (7 t k v)
  then show ?case using badger_store.set[OF assms, of "bt_txn t" k v] by (auto simp: wrapped_defs)
next
  case (8 t k)
  then show ?case using badger_store.delete[OF assms, of "bt_txn t" k] by (auto simp: wrapped_defs)
next
  case (9 b p)
  then show ?case using badger_store.drop[OF assms, of "bd_db b" p] by (auto simp: wrapped_defs cong: if_cong)
next
  case (19 i kv r)
  then show ?case using badger_store.valid_hd[OF assms] by (simp add: wrapped_defs)
qed (simp_all add: wrapped_defs badger_store.newtxn[OF assms] badger_store.finite_view[OF assms] badger_store.get[OF assms]
    badger_store.valuecopy[OF assms] badger_store.newiter[OF assms] badger_store.seek_opts[OF assms] badger_store.rewind_opts[OF assms]
    badger_store.next_opts[OF assms] badger_store.seek_fwd[OF assms] badger_store.seek_rev[OF assms] badger_store.rewind[OF assms]
    badger_store.nxt[OF assms] badger_store.valid_nil[OF assms] badger_store.valid_prefix[OF assms] badger_store.item[OF assms])

text \<open>
  C23: the wrapper keeps the contract. Whenever the library's database behaves as its documentation says, so
  does the interface on top of it, for the databases, transactions and iterators that the structs hold;
  and running a function with the code's \<open>Update\<close> and \<open>View\<close> is running it in a transaction of that
  interface.
\<close>

theorem wrapper_keeps_contract:
  assumes "badger_store B dview dok tview tok writable ahead iopts"
  shows "badger_store (wrapped_ops B) (dview \<circ> bd_db) (dok \<circ> bd_db) (tview \<circ> bt_txn) (tok \<circ> bt_txn) (writable \<circ> bt_txn)
      (ahead \<circ> bi_itr) (iopts \<circ> bi_itr)
    \<and> db_Update (wrapped_ops B) b f = BadgerDb_Update B b f \<and> db_View (wrapped_ops B) b g = BadgerDb_View B b g"
  using wrapped_contract[OF assms]
  by (simp add: db_Update_def db_View_def BadgerDb_Update_def BadgerDb_View_def wrapped_ops_def case_prod_beta Let_def split: res.split option.split)

theorem wrapper_keeps_contract_witness:
  "badger_store (wrapped_ops mock_ops) (mock_dview \<circ> bd_db) (mock_dok \<circ> bd_db) ((\<lambda>t. mock_dview (txn_db t)) \<circ> bt_txn)
     ((\<lambda>t. mock_dok (txn_db t)) \<circ> bt_txn) (mock_writable \<circ> bt_txn) (mock_ahead \<circ> bi_itr) (mi_opt \<circ> bi_itr)"
  using wrapper_keeps_contract[OF mock.badger_store_axioms] by blast

end
