(* ===== verification/Spec2Isabelle.thy ===== *)
theory Spec2Isabelle
  imports ServerMain EndToEnd EventHistory ResourceHistory WebServe BadgerWrapper
begin

text \<open>
  A model of Sloop, the history of a Kubernetes cluster: it watches the cluster, keeps what changes
  in a key-value store by partitions of an hour, answers queries over time ranges and drops what is
  too old. The code is below \<open>src/pkg/sloop\<close>; paths here are relative to it.

  \<^bold>\<open>How the parts interact.\<close> The informers of the cluster call the handlers of \<open>ingress/kubewatcher.go\<close>,
  which write records to a channel. The runner of \<open>processing\<close> takes them from there and brings four
  tables up to date in one transaction each: the versions of objects (\<open>watch\<close>), the summaries of
  resources (\<open>ressum\<close>), the counts of events by minute (\<open>eventcount\<close>) and the times at which an object
  was reported (\<open>watchactivity\<close>). A table (\<open>store/typed\<close>) is the rows below a prefix of the store
  (\<open>store/untyped/badgerwrap\<close>), with keys of six parts of which the second is the partition. The web
  server (\<open>webserver\<close>) runs the queries (\<open>queries\<close>) over ranges of partitions. The store manager
  (\<open>storemanager\<close>) drops the oldest partitions. \<open>server\<close> reads the configuration, starts all this and
  shuts it down.

  \<^bold>\<open>Conventions.\<close> A call of Go is a value of the type \<open>res\<close>: \<open>Ok\<close>, \<open>Err\<close> or \<open>Panic\<close>; a loop that may not
  end has the option type around that, with \<open>None\<close> for not returning (\<open>partial_function\<close>); no fuel is
  used anywhere, so a result is never an artefact of a bound. Strings are lists of bytes. Integers
  are \<open>int\<close> or \<open>nat\<close>, with the wrap-around written out (\<open>wrap_int64\<close>, \<open>wrap_int32\<close>, \<open>wrap_uint64\<close>) where the
  code can get there; the counters of the debug page and the lengths of lists are not wrapped. Go's
  \<open>float64\<close> is rounded as IEEE 754 says (\<open>GoFloat\<close>). A Go map is an association list where an order
  shows, otherwise it is sorted or taken as a set. The state of the program is passed explicitly.
  Code that is not in the repository is a parameter: the store (record \<open>badger\<close>, with the contract
  \<open>badger_store\<close>), protobuf (\<open>pb_lib\<close>), \<open>encoding/json\<close> and the JSON editor (\<open>ext_lib\<close>, \<open>json_lib\<close>), the
  parsers of durations and dates, the Kubernetes client (\<open>kube_lib\<close>), the templates, the file system,
  the clock, and the platform's answer for a conversion of a float that does not fit.

  \<^bold>\<open>The theories, by layer.\<close>

  Foundations. \<open>SloopPrelude\<close>: results, errors, sorted keys, association lists. \<open>GoStrings\<close>, \<open>GoTime\<close>,
  \<open>GoFloat\<close>: what the code uses of Go's library, with the round trips of printing and parsing and the
  monotonicity of rounding.

  Store. \<open>Badgerwrap\<close> (\<open>badgerwrap/api.go\<close>, \<open>mock.go\<close>): the interface, loops over its iterators, the
  locales \<open>badger_store\<close> and \<open>badger_scan\<close> with their laws, and the interpretation on the in-memory
  store of the code. \<open>BadgerWrapper\<close> (\<open>badger.go\<close>): the structs around badger's own types, which meet the
  contract when badger does. \<open>Partition\<close> (\<open>store/untyped/partition.go\<close>): identifiers and times of partitions.
  \<open>CommonUtil\<close>, \<open>DbUtil\<close> (\<open>common\<close>): the parser of keys, deletion and counting of keys.

  Tables. \<open>TypedKeys\<close> (the four key types, the locale \<open>table_key\<close> and its four interpretations),
  \<open>TypedTable\<close> (\<open>tabletemplate.go\<close>: get, set, range reads, the walk over partitions, least and greatest
  partition, the search for a previous key), \<open>Schema\<close> (\<open>schema.pb.go\<close>), \<open>GenTables\<close> (the generated tables as
  instances of the template), \<open>Tables\<close> (\<open>tables.go\<close>).

  Ingress. \<open>KubeWatcher\<close> (\<open>ingress/kubewatcher.go\<close>): the handlers, the exclusion rules, and the watcher
  as a state machine whose goroutines interleave at the lock and the channel; its lemmas are an
  invariant on who holds the lock and owns the stop channels, and progress.

  Processing. \<open>Extract\<close> (\<open>kubeextractor\<close>), \<open>EventCount\<close> (\<open>processing/eventcount.go\<close>, the arithmetic),
  \<open>Processing\<close> (the updates and the runner), \<open>ProcessingFacts\<close> (what an update may write, the newest
  version of an object), \<open>EventStore\<close> (the counts that are stored), \<open>ResourceHistory\<close> (the summaries),
  \<open>RowWrites\<close> (a step of the processing as a sequence of writes of single rows, each below the prefix of
  its table, and the summaries as the keys of the reported resources).
  \<open>Samples\<close> and \<open>SampleStores\<close> hold the libraries and stores on which the witnesses evaluate.

  Queries. \<open>QueryFilters\<close> (\<open>queries/params.go\<close>, \<open>rangereadfilters.go\<close>), \<open>TimeRange\<close> (\<open>timerange.go\<close>),
  \<open>ResPayload\<close> (\<open>respayloadquery.go\<close>, \<open>eventquery.go\<close>), \<open>HeatMap\<close> (\<open>queryd3heatmap.go\<close>, with the slices of
  overlays that rows share), \<open>Queries\<close> (\<open>queryfilter.go\<close>, \<open>ressumquery.go\<close>, \<open>query.go\<close>).

  Web server. \<open>Web\<close> (parameters, links, paths and web files, the resource and index pages, the metrics
  of users), \<open>Debug\<close> (\<open>debug.go\<close>, the data of its pages), \<open>WebServe\<close> (\<open>webserver.go\<close>, \<open>middleware.go\<close> and
  the handlers of all pages: what is written for a request, with the status, the headers and what goes
  to the log and the counters, and the routing to the handlers with the redirects of \<open>ServeMux\<close>).

  Store manager. \<open>GarbageCollect\<close> (\<open>storemanager.go\<close>: which partitions are dropped, and how), \<open>StoreStats\<close>
  (\<open>stats.go\<close>, \<open>sleepwithcancel.go\<close>, and the manager as a state machine of its two loops and \<open>Shutdown\<close>).

  Program. \<open>Config\<close> (\<open>server/internal/config/config.go\<close>: fields, defaults, the parser of flags, the file,
  the validation), \<open>Server\<close> (\<open>server.go\<close>, \<open>store.go\<close>, \<open>kubeclient.go\<close>, \<open>dbrestore.go\<close>: the configurations of
  the parts, the opening of the store, the routes), \<open>Pipeline\<close> (the channel between the sources, the
  runner and the recorder, and the order of the shutdown), \<open>ServerMain\<close> (\<open>RealMain\<close> from its first line to
  its return, as the trace of what it starts and stops, with every error return), \<open>StoreTyping\<close> (every
  row that the program writes parses and decodes), \<open>EndToEnd\<close> and \<open>EventHistory\<close>
  (runs of the pipeline and then queries for the filters and for the events).

  \<^bold>\<open>What is shown.\<close> Identifiers of partitions sort as times and ranges are read exactly; the walk over
  partitions and the deletion of keys end (or, for some stores, provably do not). What is processed
  is stored, replays change nothing, counts add up, summaries follow the history, and the stored rows
  are always well typed; after a run from an empty store, the queries that fill the filters of the
  page answer with the kinds and namespaces of what was reported, and the query for events with the
  last report of every matching event. Nothing that is sent is lost on the way to the store, and the shutdown ends
  within \<open>1005\<close> steps: the thousand records the channel holds and five more. Queries return what
  their ranges hold, and their ranges are clamped. Clean-up drops what is too old and nothing else,
  never after the shutdown. The watcher closes each informer once and writes nothing after it was
  stopped. A clean return of \<open>RealMain\<close> has stopped all that it started, an error return nothing but the
  store. Every request of a page is logged and counted once and carries its id; the answer to a
  query is all or nothing. Web files stay in their directory. Where the code does something else than it means to,
  the behaviour of the code is the theorem: see the findings of the manifest.

  \<^bold>\<open>Not modelled.\<close> \<open>webserver/bindata.go\<close> is generated and holds files. The marshalling code in
  \<open>schema.pb.go\<close> calls protobuf. Badger, the template engine, the compression of a backup, client-go and
  its informers, Prometheus and the pages of \<open>x/net/trace\<close> and \<open>expvar\<close> are libraries. Listening is one
  action of the trace of \<open>RealMain\<close>; that the connections of the requests are served concurrently does
  not show, because a request only reads the store. Log lines other than those of the requests and of the
  validation of rows, the durations of requests and the metrics of the store and the ingress have no
  effect on the data. A failed write to a connection is a parameter for web files and ignored, as in
  the code, elsewhere. Still open: the filters of the debug page's lists of keys, a theorem that
  follows a record into the payload query or the heat map, and the rates of the two loops of the store manager.
\<close>

end
